theory Spec2Isabelle
  imports Main "HOL-Library.List_Lexorder" "HOL-Library.Char_ord"
begin

section \<open>The PostgreSQL snapshot serializer of drizzle-lab\<close>

text \<open>
  A shallow embedding of \<^verbatim>\<open>packages/api/src/pg/serializer/snapshot.ts\<close>.
  Thrown errors are values of a sum type, \<^verbatim>\<open>console.log\<close> output is a list of
  diagnostics, and each \<^verbatim>\<open>forEach\<close> callback of \<^verbatim>\<open>drizzleObjectsToSnapshot\<close> is a step
  function on the state the callback mutates. An object of type \<^verbatim>\<open>Record<string, X>\<close> is a
  map from strings that holds its own properties; reading it also finds the properties that
  an object made by \<^verbatim>\<open>{}\<close> inherits from \<^verbatim>\<open>Object.prototype\<close>.

  A value of drizzle-orm's class \<^verbatim>\<open>SQL\<close> is represented by the text that the dialect
  renders it to at the place where the serializer renders it. A string is a list of
  characters of the type \<open>char\<close>, which has the code points below 256.
\<close>

subsection \<open>Strings and the JavaScript built-ins used by the serializer\<close>

type_synonym sql = string

text \<open>\<^verbatim>\<open>a ?? b\<close>\<close>

definition nullish :: "'a option \<Rightarrow> 'a \<Rightarrow> 'a" where
  "nullish a b = (case a of None \<Rightarrow> b | Some v \<Rightarrow> v)"

text \<open>\<^verbatim>\<open>Array.prototype.join\<close> on an array of strings.\<close>

fun join_str :: "string \<Rightarrow> string list \<Rightarrow> string" where
  "join_str sep [] = []"
| "join_str sep [x] = x"
| "join_str sep (x # y # ys) = x @ sep @ join_str sep (y # ys)"

text \<open>\<^verbatim>\<open>s.split(c)[0]\<close> for a one-character separator: the text before its first occurrence.\<close>

definition split_head :: "char \<Rightarrow> string \<Rightarrow> string" where
  "split_head c s = takeWhile (\<lambda>x. x \<noteq> c) s"

text \<open>\<^verbatim>\<open>s.replace(c, d)\<close> for one-character strings: only the first occurrence is replaced.\<close>

fun replace_char :: "char \<Rightarrow> char \<Rightarrow> string \<Rightarrow> string" where
  "replace_char c d [] = []"
| "replace_char c d (x # xs) = (if x = c then d # xs else x # replace_char c d xs)"

text \<open>\<^verbatim>\<open>s.replaceAll('"', '\\"')\<close>\<close>

definition escape_dquotes :: "string \<Rightarrow> string" where
  "escape_dquotes s = concat (map (\<lambda>x. if x = CHR 0x22 then [CHR 0x5C, CHR 0x22] else [x]) s)"

text \<open>
  \<^verbatim>\<open>toLowerCase\<close>. Below code point 256 the capital letters are those of ASCII and the code
  points C0 to DE without D7, the multiplication sign; each has its small letter 32 places
  further on.
\<close>

definition capital_letters :: string where
  "capital_letters =
     ''ABCDEFGHIJKLMNOPQRSTUVWXYZ''
     @ [CHR 0xC0, CHR 0xC1, CHR 0xC2, CHR 0xC3, CHR 0xC4, CHR 0xC5, CHR 0xC6, CHR 0xC7,
        CHR 0xC8, CHR 0xC9, CHR 0xCA, CHR 0xCB, CHR 0xCC, CHR 0xCD, CHR 0xCE, CHR 0xCF,
        CHR 0xD0, CHR 0xD1, CHR 0xD2, CHR 0xD3, CHR 0xD4, CHR 0xD5, CHR 0xD6,
        CHR 0xD8, CHR 0xD9, CHR 0xDA, CHR 0xDB, CHR 0xDC, CHR 0xDD, CHR 0xDE]"

definition small_letters :: string where
  "small_letters =
     ''abcdefghijklmnopqrstuvwxyz''
     @ [CHR 0xE0, CHR 0xE1, CHR 0xE2, CHR 0xE3, CHR 0xE4, CHR 0xE5, CHR 0xE6, CHR 0xE7,
        CHR 0xE8, CHR 0xE9, CHR 0xEA, CHR 0xEB, CHR 0xEC, CHR 0xED, CHR 0xEE, CHR 0xEF,
        CHR 0xF0, CHR 0xF1, CHR 0xF2, CHR 0xF3, CHR 0xF4, CHR 0xF5, CHR 0xF6,
        CHR 0xF8, CHR 0xF9, CHR 0xFA, CHR 0xFB, CHR 0xFC, CHR 0xFD, CHR 0xFE]"

definition lower_char :: "char \<Rightarrow> char" where
  "lower_char c =
     (case map_of (zip capital_letters small_letters) c of None \<Rightarrow> c | Some d \<Rightarrow> d)"

definition toLowerCase :: "string \<Rightarrow> string" where
  "toLowerCase s = map lower_char s"

text \<open>
  A number is represented by the text that \<^verbatim>\<open>Number.prototype.toString\<close> gives for it,
  which is also what \<^verbatim>\<open>String\<close> and a template give: the number 1 by \<^verbatim>\<open>1\<close>, one and a
  half by \<^verbatim>\<open>1.5\<close>, \<open>10\<^sup>2\<^sup>1\<close> by \<^verbatim>\<open>1e+21\<close>, and the three values that are not finite by
  \<^verbatim>\<open>NaN\<close>, \<^verbatim>\<open>Infinity\<close> and \<^verbatim>\<open>-Infinity\<close>. The serializer prints the numbers it meets, or
  hands them on as they are. The text tells two numbers apart, except the two zeros, which
  both print as \<^verbatim>\<open>0\<close>.
\<close>

type_synonym number = string

text \<open>\<^verbatim>\<open>n.toString()\<close> of a bigint: its decimal digits.\<close>

fun dec_nat :: "nat \<Rightarrow> string" where
  "dec_nat n =
     (if n < 10 then [''0123456789'' ! n]
      else dec_nat (n div 10) @ [''0123456789'' ! (n mod 10)])"

declare dec_nat.simps [simp del]

definition dec_int :: "int \<Rightarrow> string" where
  "dec_int i = (if i < 0 then CHR ''-'' # dec_nat (nat (- i)) else dec_nat (nat i))"

text \<open>
  \<^verbatim>\<open>parseFloat(s) < 0\<close>. \<^verbatim>\<open>parseFloat\<close> skips leading white space and reads the longest
  prefix of the form \<^verbatim>\<open>[+-](Infinity | digits[.digits][e[+-]digits] | .digits[e[+-]digits])\<close>;
  without such a prefix the result is \<^verbatim>\<open>NaN\<close>, which is not below zero. The result is
  below zero when the sign is \<^verbatim>\<open>-\<close> and the value does not round to zero, that is when it
  is above \<open>2\<^sup>-\<^sup>1\<^sup>0\<^sup>7\<^sup>5\<close>, half of the smallest positive double. Of the characters below
  code point 256, white space and line ends are the tab, the line feed, the vertical tab, the
  form feed, the carriage return, the space and the no-break space.
\<close>

definition isDigit :: "char \<Rightarrow> bool" where
  "isDigit c = (c \<in> set ''0123456789'')"

definition isWhiteSpace :: "char \<Rightarrow> bool" where
  "isWhiteSpace c =
     (c \<in> set [CHR 0x09, CHR 0x0A, CHR 0x0B, CHR 0x0C, CHR 0x0D, CHR 0x20, CHR 0xA0])"

definition digit_val :: "char \<Rightarrow> nat" where
  "digit_val c =
     (case map_of (zip ''0123456789'' [0, 1, 2, 3, 4, 5, 6, 7, 8, 9]) c of
        None \<Rightarrow> 0 | Some d \<Rightarrow> d)"

definition digits_val :: "string \<Rightarrow> nat" where
  "digits_val s = foldl (\<lambda>a c. 10 * a + digit_val c) 0 s"

text \<open>The value of an exponent part at the head of the text, 0 when there is none.\<close>

definition exponent_part :: "string \<Rightarrow> int" where
  "exponent_part s =
     (case s of
        [] \<Rightarrow> 0
      | e # r \<Rightarrow>
          if e = CHR ''e'' \<or> e = CHR ''E'' then
            (case r of
               [] \<Rightarrow> 0
             | g # r' \<Rightarrow>
                 if g = CHR ''-'' then - int (digits_val (takeWhile isDigit r'))
                 else if g = CHR ''+'' then int (digits_val (takeWhile isDigit r'))
                 else int (digits_val (takeWhile isDigit r)))
          else 0)"

definition unsigned_nonzero :: "string \<Rightarrow> bool" where
  "unsigned_nonzero r =
     (if take 8 r = ''Infinity'' then True
      else
        let ip = takeWhile isDigit r;
            r1 = dropWhile isDigit r;
            hasDot = (case r1 of [] \<Rightarrow> False | c # _ \<Rightarrow> c = CHR ''.'');
            fp = (if hasDot then takeWhile isDigit (tl r1) else []);
            r2 = (if hasDot then dropWhile isDigit (tl r1) else r1);
            m = digits_val (ip @ fp);
            k = exponent_part r2 - int (length fp)
        in (ip \<noteq> [] \<or> fp \<noteq> []) \<and> 0 < m \<and>
           (0 \<le> k \<or> 10 ^ nat (- k) < m * 2 ^ 1075))"

definition parseFloat_lt0 :: "string \<Rightarrow> bool" where
  "parseFloat_lt0 s =
     (case dropWhile isWhiteSpace s of
        [] \<Rightarrow> False
      | c # r \<Rightarrow> c = CHR ''-'' \<and> unsigned_nonzero r)"

subsection \<open>Errors\<close>

text \<open>
  One constructor for each \<^verbatim>\<open>throw\<close> of the serializer, named after the condition that the
  thrown message reports, and three errors of the runtime. \<open>ReferenceError\<close> arises when the
  callback of the inline policies reads \<^verbatim>\<open>tableKey\<close>: that constant is declared further down
  in the body of the loop over the tables (line 621), so the template of the message at line
  553 cannot be evaluated and neither the \<^verbatim>\<open>console.log\<close> nor the \<^verbatim>\<open>throw\<close> of lines 553
  to 564 is reached. \<open>TypeError\<close> arises when a property of \<^verbatim>\<open>undefined\<close> is read, when
  something that is not a function is called, and in \<^verbatim>\<open>JSON.stringify\<close>; \<open>RangeError\<close> arises
  in \<^verbatim>\<open>toISOString\<close> of an invalid date. The errors of the runtime arise while an argument
  or a condition is evaluated, before anything is printed.
\<close>

datatype error =
    DuplicateUniqueConstraint
  | MissingIndexName
  | MissingOperatorClass
  | DuplicateIndexName
  | DuplicateCheckConstraintName
  | DuplicatePolicyName
  | DuplicateViewName
  | ReferenceError
  | TypeError
  | RangeError

subsection \<open>The helpers at the head of the file\<close>

definition indexName :: "string \<Rightarrow> string list \<Rightarrow> string" where
  "indexName tableName columns = tableName @ ''_'' @ join_str ''_'' columns @ ''_index''"

text \<open>
  A sequence option is \<^verbatim>\<open>string | number | undefined\<close>; \<^verbatim>\<open>String(field)\<close> of a number is
  its text.
\<close>

datatype idprop = PStr string | PNum number

definition stringFromIdentityProperty :: "idprop option \<Rightarrow> string option" where
  "stringFromIdentityProperty field =
     (case field of
        Some (PStr s) \<Rightarrow> Some s
      | None \<Rightarrow> None
      | Some (PNum n) \<Rightarrow> Some n)"

definition maxRangeForIdentityBasedOn :: "string \<Rightarrow> string" where
  "maxRangeForIdentityBasedOn columnType =
     (if columnType = ''integer'' then ''2147483647''
      else if columnType = ''bigint'' then ''9223372036854775807''
      else ''32767'')"

definition minRangeForIdentityBasedOn :: "string \<Rightarrow> string" where
  "minRangeForIdentityBasedOn columnType =
     (if columnType = ''integer'' then ''-2147483648''
      else if columnType = ''bigint'' then ''-9223372036854775808''
      else ''-32768'')"

text \<open>
  The JavaScript values that occur as column defaults. A \<^verbatim>\<open>Date\<close> is represented by
  its \<^verbatim>\<open>toISOString()\<close> text, and by \<open>None\<close> when it is an invalid date, for which
  \<^verbatim>\<open>toISOString\<close> throws a \<^verbatim>\<open>RangeError\<close>. Any other object is represented by its
  properties, an array by its elements (an array without holes).
\<close>

datatype jsval =
    JUndefined
  | JNull
  | JBool bool
  | JNum number
  | JBigInt int
  | JStr string
  | JDate "string option"
  | JArr "jsval list"
  | JObj "(string \<times> jsval) list"

text \<open>
  Functions of other modules and of the runtime that the serializer calls and whose code is
  not part of this file; the serializer is verified for every choice of them.
  \<^verbatim>\<open>JSON.stringify\<close> gives \<open>None\<close> for a value on which it throws its \<^verbatim>\<open>TypeError\<close>, as it
  does for a value that holds a bigint; \<open>JSON_stringify_indented\<close> is the call with the
  arguments \<^verbatim>\<open>null\<close> and \<^verbatim>\<open>2\<close>.
\<close>

datatype casing = SnakeCase | CamelCase

datatype casing_arg = CasingColumn string bool | CasingSQL sql

record helpers =
  getColumnCasing :: "casing_arg \<Rightarrow> casing option \<Rightarrow> string"
  uniqueKeyName :: "string \<Rightarrow> string list \<Rightarrow> string"
  isPgArrayType :: "string \<Rightarrow> bool"
  escapeSingleQuotes :: "string \<Rightarrow> string"
  JSON_stringify :: "jsval \<Rightarrow> string option"
  JSON_stringify_indented :: "jsval \<Rightarrow> string option"
  String_replace :: "string \<Rightarrow> string \<Rightarrow> string \<Rightarrow> string"

text \<open>
  \<^verbatim>\<open>buildArrayString\<close>: the branches in the order of the source. \<^verbatim>\<open>typeof null\<close> is
  \<^verbatim>\<open>"object"\<close>, so \<^verbatim>\<open>null\<close> takes the object branch; strings and \<^verbatim>\<open>undefined\<close> reach the
  final template. The callback of \<^verbatim>\<open>map\<close> runs on the elements in their order, and the first
  error ends the call.
\<close>

definition quoted :: "string \<Rightarrow> string" where
  "quoted s = [CHR 0x22] @ s @ [CHR 0x22]"

fun buildArrayString :: "helpers \<Rightarrow> jsval list \<Rightarrow> string \<Rightarrow> error + string"
  and buildArrayValue :: "helpers \<Rightarrow> string \<Rightarrow> jsval \<Rightarrow> error + string"
  and buildArrayValues :: "helpers \<Rightarrow> string \<Rightarrow> jsval list \<Rightarrow> error + string list"
where
  "buildArrayString h array sqlType =
     (case buildArrayValues h (split_head CHR ''['' sqlType) array of
        Inl e \<Rightarrow> Inl e
      | Inr values \<Rightarrow> Inr (''{'' @ join_str '','' values @ ''}''))"
| "buildArrayValue h sqlType (JNum n) = Inr n"
| "buildArrayValue h sqlType (JBigInt n) = Inr (dec_int n)"
| "buildArrayValue h sqlType (JBool b) = Inr (if b then ''true'' else ''false'')"
| "buildArrayValue h sqlType (JArr vs) = buildArrayString h vs sqlType"
| "buildArrayValue h sqlType (JDate d) =
     (case d of
        None \<Rightarrow> Inl RangeError
      | Some isoString \<Rightarrow>
          if sqlType = ''date'' then Inr (quoted (split_head CHR ''T'' isoString))
          else if sqlType = ''timestamp''
            then Inr (quoted (take 23 (replace_char CHR ''T'' CHR '' '' isoString)))
          else Inr (quoted isoString))"
| "buildArrayValue h sqlType (JObj ps) =
     (case JSON_stringify h (JObj ps) of
        None \<Rightarrow> Inl TypeError
      | Some json \<Rightarrow> Inr (quoted (escape_dquotes json)))"
| "buildArrayValue h sqlType JNull =
     (case JSON_stringify h JNull of
        None \<Rightarrow> Inl TypeError
      | Some json \<Rightarrow> Inr (quoted (escape_dquotes json)))"
| "buildArrayValue h sqlType (JStr s) = Inr (quoted s)"
| "buildArrayValue h sqlType JUndefined = Inr (quoted ''undefined'')"
| "buildArrayValues h sqlType [] = Inr []"
| "buildArrayValues h sqlType (v # vs) =
     (case buildArrayValue h sqlType v of
        Inl e \<Rightarrow> Inl e
      | Inr s \<Rightarrow>
          (case buildArrayValues h sqlType vs of
             Inl e \<Rightarrow> Inl e
           | Inr ss \<Rightarrow> Inr (s # ss)))"


subsection \<open>Columns\<close>

record sequenceOptions =
  so_increment :: "idprop option"
  so_minValue :: "idprop option"
  so_maxValue :: "idprop option"
  so_startWith :: "idprop option"
  so_cache :: "idprop option"
  so_cycle :: "bool option"

datatype identity_type = Always | ByDefault

record generatedIdentity =
  gi_type :: identity_type
  gi_sequenceName :: "string option"
  gi_sequenceOptions :: "sequenceOptions option"

text \<open>
  \<^verbatim>\<open>generated.as\<close> is an \<^verbatim>\<open>SQL\<close> value, a function that returns one, or anything else;
  \<^verbatim>\<open>column.default\<close> is an \<^verbatim>\<open>SQL\<close> value or a JavaScript value.
\<close>

datatype generated_as = GenSQL sql | GenFn sql | GenOther jsval

datatype column_default = DefaultSQL sql | DefaultValue jsval

text \<open>
  A column of drizzle-orm, with the properties and method results that the serializer reads:
  \<open>col_getSQLType\<close> is \<^verbatim>\<open>column.getSQLType()\<close>, \<open>col_columnType\<close> is
  \<^verbatim>\<open>column.columnType\<close>, and \<open>col_enum\<close> is \<^verbatim>\<open>column.enum.schema\<close> when the column is a
  \<^verbatim>\<open>PgEnumColumn\<close>. \<open>col_jsonShape\<close> is what the annotations of the table hold for the
  column, \<^verbatim>\<open>table[DrizzleLab]?.explain?.jsonShapes?.[name]\<close>, and \<open>None\<close> when that is
  \<^verbatim>\<open>undefined\<close>.
\<close>

record pg_column =
  col_name :: string
  col_keyAsName :: bool
  col_notNull :: bool
  col_primary :: bool
  col_getSQLType :: string
  col_columnType :: string
  col_enum :: "string option option"
  col_generated :: "generated_as option"
  col_generatedIdentity :: "generatedIdentity option"
  col_isUnique :: bool
  col_uniqueName :: "string option"
  col_uniqueType :: "string option"
  col_default :: "column_default option"
  col_jsonShape :: "jsval option"

record snap_generated =
  g_as :: jsval
  g_type :: string

record snap_identity =
  id_type :: identity_type
  id_name :: string
  id_schema :: string
  id_increment :: string
  id_startWith :: string
  id_minValue :: string
  id_maxValue :: string
  id_cache :: string
  id_cycle :: bool

text \<open>
  The \<^verbatim>\<open>Column\<close> entity of the snapshot, without the annotations of the lab extension
  that are handed on as they are (description, enum values, function sources).
\<close>

record snap_column =
  sc_name :: string
  sc_type :: string
  sc_typeSchema :: "string option"
  sc_primaryKey :: bool
  sc_notNull :: bool
  sc_default :: "jsval option"
  sc_generated :: "snap_generated option"
  sc_identity :: "snap_identity option"
  sc_jsonShape :: "string option"

text \<open>\<^verbatim>\<open>a || b\<close> on an optional string: the empty string is falsy as well.\<close>

definition or_else :: "string option \<Rightarrow> string \<Rightarrow> string" where
  "or_else a b = (case a of None \<Rightarrow> b | Some v \<Rightarrow> if v = [] then b else v)"

text \<open>
  The identity specification of a column (lines 198 to 214 and 243 to 255). The lower bound
  is looked up under \<^verbatim>\<open>column.columnType\<close>, the upper bound under
  \<^verbatim>\<open>column.getSQLType()\<close>, as in the source.
\<close>

definition columnIdentity :: "string \<Rightarrow> string option \<Rightarrow> string \<Rightarrow> pg_column \<Rightarrow> snap_identity option" where
  "columnIdentity ownerName schema name column =
     (let identity = col_generatedIdentity column;
          sequenceOptions = Option.bind identity gi_sequenceOptions;
          increment =
            nullish (stringFromIdentityProperty (Option.bind sequenceOptions so_increment)) ''1'';
          minValue =
            nullish (stringFromIdentityProperty (Option.bind sequenceOptions so_minValue))
              (if parseFloat_lt0 increment
               then minRangeForIdentityBasedOn (col_columnType column)
               else ''1'');
          maxValue =
            nullish (stringFromIdentityProperty (Option.bind sequenceOptions so_maxValue))
              (if parseFloat_lt0 increment
               then ''-1''
               else maxRangeForIdentityBasedOn (col_getSQLType column));
          startWith =
            nullish (stringFromIdentityProperty (Option.bind sequenceOptions so_startWith))
              (if parseFloat_lt0 increment then maxValue else minValue);
          cache =
            nullish (stringFromIdentityProperty (Option.bind sequenceOptions so_cache)) ''1''
      in case identity of
           None \<Rightarrow> None
         | Some i \<Rightarrow>
             Some \<lparr> id_type = gi_type i,
                    id_name = nullish (gi_sequenceName i) (ownerName @ ''_'' @ name @ ''_seq''),
                    id_schema = nullish schema ''public'',
                    id_increment = increment,
                    id_startWith = startWith,
                    id_minValue = minValue,
                    id_maxValue = maxValue,
                    id_cache = cache,
                    id_cycle = nullish (Option.bind sequenceOptions so_cycle) False \<rparr>)"

text \<open>
  \<^verbatim>\<open>columnToSet\<close> as it is created (lines 227 to 262), without a default and without a
  JSON shape. The same code maps the columns of a view (lines 883 to 917), there with the
  name of the view and the uncased column name; the column of a view has no JSON shape.
\<close>

definition columnToSet :: "helpers \<Rightarrow> string \<Rightarrow> string option \<Rightarrow> string \<Rightarrow> pg_column \<Rightarrow> snap_column" where
  "columnToSet h ownerName schema name column =
     \<lparr> sc_name = name,
       sc_type = col_getSQLType column,
       sc_typeSchema = (case col_enum column of None \<Rightarrow> None | Some s \<Rightarrow> Some (or_else s ''public'')),
       sc_primaryKey = col_primary column,
       sc_notNull = col_notNull column,
       sc_default = None,
       sc_generated =
         (case col_generated column of
            None \<Rightarrow> None
          | Some (GenSQL s) \<Rightarrow> Some \<lparr> g_as = JStr s, g_type = ''stored'' \<rparr>
          | Some (GenFn s) \<Rightarrow> Some \<lparr> g_as = JStr s, g_type = ''stored'' \<rparr>
          | Some (GenOther v) \<Rightarrow> Some \<lparr> g_as = v, g_type = ''stored'' \<rparr>),
       sc_identity = columnIdentity ownerName schema name column,
       sc_jsonShape = None \<rparr>"

text \<open>
  \<^verbatim>\<open>jsonShape\<close> (lines 221 to 225): \<^verbatim>\<open>JSON.stringify\<close> gives \<^verbatim>\<open>undefined\<close> for
  \<^verbatim>\<open>undefined\<close>.
\<close>

definition jsonShape :: "helpers \<Rightarrow> pg_column \<Rightarrow> error + string option" where
  "jsonShape h column =
     (case col_jsonShape column of
        None \<Rightarrow> Inr None
      | Some shape \<Rightarrow>
          (case JSON_stringify_indented h shape of
             None \<Rightarrow> Inl TypeError
           | Some json \<Rightarrow> Inr (Some json)))"

text \<open>
  The encoding of \<^verbatim>\<open>column.default\<close> (lines 288 to 317 and 946 to 975): what
  \<^verbatim>\<open>columnToSet.default\<close> is set to, \<open>None\<close> when it is left unset.
\<close>

definition single_quoted :: "string \<Rightarrow> string" where
  "single_quoted s = [CHR 0x27] @ s @ [CHR 0x27]"

definition columnDefault :: "helpers \<Rightarrow> pg_column \<Rightarrow> error + jsval option" where
  "columnDefault h column =
     (let sqlTypeLowered = toLowerCase (col_getSQLType column) in
      case col_default column of
        None \<Rightarrow> Inr None
      | Some (DefaultValue JUndefined) \<Rightarrow> Inr None
      | Some (DefaultSQL s) \<Rightarrow> Inr (Some (JStr s))
      | Some (DefaultValue (JStr s)) \<Rightarrow> Inr (Some (JStr (single_quoted (escapeSingleQuotes h s))))
      | Some (DefaultValue v) \<Rightarrow>
          if sqlTypeLowered = ''jsonb'' \<or> sqlTypeLowered = ''json'' then
            (case JSON_stringify h v of
               None \<Rightarrow> Inl TypeError
             | Some json \<Rightarrow> Inr (Some (JStr (single_quoted json @ ''::'' @ sqlTypeLowered))))
          else
            (case v of
               JDate d \<Rightarrow>
                 (case d of
                    None \<Rightarrow> Inl RangeError
                  | Some isoString \<Rightarrow>
                      if sqlTypeLowered = ''date'' then
                        Inr (Some (JStr (single_quoted (split_head CHR ''T'' isoString))))
                      else if sqlTypeLowered = ''timestamp'' then
                        Inr (Some (JStr (single_quoted
                               (take 23 (replace_char CHR ''T'' CHR '' '' isoString)))))
                      else Inr (Some (JStr (single_quoted isoString))))
             | JArr array \<Rightarrow>
                 if isPgArrayType h sqlTypeLowered then
                   (case buildArrayString h array sqlTypeLowered of
                      Inl e \<Rightarrow> Inl e
                    | Inr literal \<Rightarrow> Inr (Some (JStr (single_quoted literal))))
                 else Inr (Some v)
             | _ \<Rightarrow> Inr (Some v)))"


subsection \<open>Errors, diagnostics and loops\<close>

text \<open>
  What \<^verbatim>\<open>console.log\<close> receives: the warning for a policy that is linked to no table, and
  the message that precedes every \<^verbatim>\<open>throw\<close> of the serializer.
\<close>

datatype diagnostic = SkippedPolicy string | ErrorWarning error

definition error_log :: "error \<Rightarrow> diagnostic list" where
  "error_log e =
     (if e = ReferenceError \<or> e = TypeError \<or> e = RangeError then [] else [ErrorWarning e])"

text \<open>
  \<^verbatim>\<open>xs.forEach(f)\<close> and \<^verbatim>\<open>for (const x of xs)\<close> where the body mutates a state and may
  throw: the first error ends the loop.
\<close>

fun forEach :: "('a \<Rightarrow> 's \<Rightarrow> error + 's) \<Rightarrow> 'a list \<Rightarrow> 's \<Rightarrow> error + 's" where
  "forEach f [] s = Inr s"
| "forEach f (x # xs) s = (case f x s of Inl e \<Rightarrow> Inl e | Inr s' \<Rightarrow> forEach f xs s')"

text \<open>
  The property key that JavaScript makes of an optional string: \<^verbatim>\<open>obj[undefined]\<close> is
  \<^verbatim>\<open>obj["undefined"]\<close>.
\<close>

definition property_key :: "string option \<Rightarrow> string" where
  "property_key k = nullish k ''undefined''"

text \<open>
  The dictionaries of the serializer are objects made by \<^verbatim>\<open>{}\<close>. Reading \<^verbatim>\<open>obj[k]\<close> gives
  the own property \<open>k\<close> when there is one, else what \<^verbatim>\<open>Object.prototype\<close> has under \<open>k\<close>: a
  function for eleven names and the prototype itself for \<^verbatim>\<open>__proto__\<close>, none of them
  \<^verbatim>\<open>undefined\<close>, none of them with the properties of a stored entity. Writing
  \<^verbatim>\<open>obj[k] = v\<close> makes \<open>v\<close> the own property \<open>k\<close>, except for \<^verbatim>\<open>__proto__\<close>: that assignment
  runs the setter of \<^verbatim>\<open>Object.prototype\<close>, which replaces the prototype of \<open>obj\<close> by the
  object \<open>v\<close> and adds no own property. An object that the serializer reads is never
  written under \<^verbatim>\<open>__proto__\<close>, because each write to it follows a test that throws for the
  inherited names; so every object that is read still has \<^verbatim>\<open>Object.prototype\<close> as its
  prototype.
\<close>

definition Object_prototype :: "string list" where
  "Object_prototype =
     [''constructor'', ''__defineGetter__'', ''__defineSetter__'', ''hasOwnProperty'',
      ''__lookupGetter__'', ''__lookupSetter__'', ''isPrototypeOf'', ''propertyIsEnumerable'',
      ''toString'', ''valueOf'', ''__proto__'', ''toLocaleString'']"

datatype 'a property = Undefined | Own 'a | Inherited

definition lookup :: "(string \<rightharpoonup> 'a) \<Rightarrow> string \<Rightarrow> 'a property" where
  "lookup obj k =
     (case obj k of
        Some v \<Rightarrow> Own v
      | None \<Rightarrow> if k \<in> set Object_prototype then Inherited else Undefined)"

definition assign :: "(string \<rightharpoonup> 'a) \<Rightarrow> string \<Rightarrow> 'a \<Rightarrow> (string \<rightharpoonup> 'a)" where
  "assign obj k v = (if k = ''__proto__'' then obj else obj(k \<mapsto> v))"

text \<open>
  \<^verbatim>\<open>toUpperCase\<close>, applied to the \<^verbatim>\<open>as\<close> and the \<^verbatim>\<open>for\<close> of a policy, which are words of
  small ASCII letters by their types. The capitals of the sharp s, the micro sign and the y
  with diaeresis are not below code point 256; these three characters are left as they are.
\<close>

definition upper_char :: "char \<Rightarrow> char" where
  "upper_char c =
     (case map_of (zip small_letters capital_letters) c of None \<Rightarrow> c | Some d \<Rightarrow> d)"

definition toUpperCase :: "string \<Rightarrow> string" where
  "toUpperCase s = map upper_char s"

subsection \<open>The input: tables and their members\<close>

text \<open>A table as far as \<^verbatim>\<open>getTableName\<close> and \<^verbatim>\<open>getTableConfig\<close> are asked about it.\<close>

record table_ref =
  ref_name :: string
  ref_schema :: "string option"

record pg_primaryKey =
  pk_columns :: "pg_column list"
  pk_getName :: string

record pg_unique =
  unq_name :: "string option"
  unq_columns :: "pg_column list"
  unq_nullsNotDistinct :: bool

record pg_foreignKey =
  fk_onDelete :: "string option"
  fk_onUpdate :: "string option"
  fk_foreignTable :: table_ref
  fk_columns :: "pg_column list"
  fk_foreignColumns :: "pg_column list"
  fk_getName :: string

record indexConfig =
  ixc_order :: "string option"
  ixc_nulls :: "string option"
  ixc_opClass :: "string option"

record indexed_column =
  ic_name :: string
  ic_keyAsName :: bool
  ic_type :: string
  ic_indexConfig :: indexConfig

datatype index_member = IdxSQL sql | IdxColumn indexed_column

record pg_index =
  ix_name :: "string option"
  ix_columns :: "index_member list"
  ix_unique :: "bool option"
  ix_where :: "sql option"
  ix_concurrently :: "bool option"
  ix_method :: "string option"
  ix_with :: "(string \<times> string) list option"

text \<open>A target of a policy is a role name or a \<^verbatim>\<open>PgRole\<close>, or an array of them.\<close>

datatype policy_role = RoleName string | RoleObject string

datatype policy_to = ToOne policy_role | ToMany "policy_role list"

record pg_policy =
  pol_name :: string
  pol_as :: "string option"
  pol_for :: "string option"
  pol_to :: "policy_to option"
  pol_using :: "sql option"
  pol_withCheck :: "sql option"
  pol_linkedTable :: "table_ref option"

record pg_check =
  chk_name :: string
  chk_value :: sql

record pg_table =
  tbl_name :: string
  tbl_columns :: "pg_column list"
  tbl_indexes :: "pg_index list"
  tbl_foreignKeys :: "pg_foreignKey list"
  tbl_checks :: "pg_check list"
  tbl_schema :: "string option"
  tbl_primaryKeys :: "pg_primaryKey list"
  tbl_uniqueConstraints :: "pg_unique list option"
  tbl_policies :: "pg_policy list"
  tbl_enableRLS :: bool
  tbl_description :: "string option"

record relation_in =
  rel_isMany :: bool
  rel_fieldName :: string
  rel_relationName :: "string option"
  rel_referencedTableName :: string

record relations_config =
  rc_dbName :: string
  rc_relations :: "relation_in list"

subsection \<open>The output: the entities of a table\<close>

record snap_unique =
  su_name :: "string option"
  su_nullsNotDistinct :: bool
  su_columns :: "string list"

record snap_primaryKey =
  spk_name :: string
  spk_columns :: "string list"

record snap_foreignKey =
  sfk_name :: string
  sfk_tableFrom :: string
  sfk_tableTo :: string
  sfk_schemaTo :: "string option"
  sfk_columnsFrom :: "string list"
  sfk_columnsTo :: "string list"
  sfk_onDelete :: "string option"
  sfk_onUpdate :: "string option"

record IndexColumnType =
  ict_expression :: string
  ict_isExpression :: bool
  ict_asc :: bool
  ict_nulls :: string
  ict_opclass :: "string option"

record snap_index =
  si_name :: string
  si_columns :: "IndexColumnType list"
  si_isUnique :: bool
  si_where :: "string option"
  si_concurrently :: bool
  si_method :: string
  si_with :: "(string \<times> string) list"

record snap_policy =
  sp_name :: string
  sp_as :: string
  sp_for :: string
  sp_to :: "string list"
  sp_using :: "string option"
  sp_withCheck :: "string option"
  sp_schema :: "string option"
  sp_on :: "string option"

record snap_check =
  sck_name :: string
  sck_value :: string

record snap_relation =
  sr_type :: string
  sr_fieldName :: string
  sr_relationName :: string
  sr_referencedTableName :: string

record snap_table =
  st_name :: string
  st_schema :: string
  st_columns :: "string \<rightharpoonup> snap_column"
  st_indexes :: "string \<rightharpoonup> snap_index"
  st_foreignKeys :: "string \<rightharpoonup> snap_foreignKey"
  st_compositePrimaryKeys :: "string \<rightharpoonup> snap_primaryKey"
  st_uniqueConstraints :: "string \<rightharpoonup> snap_unique"
  st_policies :: "string \<rightharpoonup> snap_policy"
  st_checkConstraints :: "string \<rightharpoonup> snap_check"
  st_isRLSEnabled :: bool
  st_description :: "string option"
  st_relations :: "snap_relation list"

subsection \<open>The loop over the tables\<close>

definition cased :: "helpers \<Rightarrow> casing option \<Rightarrow> pg_column \<Rightarrow> string" where
  "cased h casing c = getColumnCasing h (CasingColumn (col_name c) (col_keyAsName c)) casing"

text \<open>
  The unique constraint of a column (lines 264 to 286 and 919 to 944). When the name of the
  constraint is found in \<open>uniqueConstraintObject\<close>, the message for \<^verbatim>\<open>console.log\<close> reads
  \<^verbatim>\<open>existingUnique.columns.join(",")\<close> (line 276): that is the list of columns of a stored
  constraint, and a \<open>TypeError\<close> for what the object inherits, whose \<^verbatim>\<open>columns\<close> is
  \<^verbatim>\<open>undefined\<close>.
\<close>

definition unique_column ::
  "string \<Rightarrow> pg_column \<Rightarrow> (string \<rightharpoonup> snap_unique) \<Rightarrow> error + (string \<rightharpoonup> snap_unique)" where
  "unique_column name column uniqueConstraintObject =
     (if col_isUnique column then
        (case lookup uniqueConstraintObject (property_key (col_uniqueName column)) of
           Own existingUnique \<Rightarrow> Inl DuplicateUniqueConstraint
         | Inherited \<Rightarrow> Inl TypeError
         | Undefined \<Rightarrow>
             Inr (assign uniqueConstraintObject (property_key (col_uniqueName column))
                    \<lparr> su_name = col_uniqueName column,
                      su_nullsNotDistinct = (col_uniqueType column = Some ''not distinct''),
                      su_columns = [name] \<rparr>))
      else Inr uniqueConstraintObject)"

text \<open>
  The callback of \<^verbatim>\<open>columns.forEach\<close> (lines 186 to 319): the JSON shape, the entity, the
  unique constraint, the default, and the entry in \<open>columnsObject\<close>.
\<close>

definition columns_step ::
  "helpers \<Rightarrow> casing option \<Rightarrow> string \<Rightarrow> string option \<Rightarrow> pg_column \<Rightarrow>
   (string \<rightharpoonup> snap_column) \<times> (string \<rightharpoonup> snap_unique) \<Rightarrow>
   error + (string \<rightharpoonup> snap_column) \<times> (string \<rightharpoonup> snap_unique)" where
  "columns_step h casing tableName schema column = (\<lambda>(columnsObject, uniqueConstraintObject).
     let name = cased h casing column in
     case jsonShape h column of
       Inl e \<Rightarrow> Inl e
     | Inr shape \<Rightarrow>
         let col = (columnToSet h tableName schema name column) \<lparr> sc_jsonShape := shape \<rparr>
         in case unique_column name column uniqueConstraintObject of
              Inl e \<Rightarrow> Inl e
            | Inr uniqueConstraintObject' \<Rightarrow>
                (case columnDefault h column of
                   Inl e \<Rightarrow> Inl e
                 | Inr d \<Rightarrow>
                     Inr (assign columnsObject name (col \<lparr> sc_default := d \<rparr>),
                          uniqueConstraintObject')))"

text \<open>
  The loops of lines 327 to 329 and 389 to 394: the name of a key, with each original column
  name replaced by the cased one, in turn.
\<close>

definition replace_names :: "helpers \<Rightarrow> string list \<Rightarrow> string list \<Rightarrow> string \<Rightarrow> string" where
  "replace_names h originalColumnNames columnNames name =
     foldl (\<lambda>n (orig, new). String_replace h n orig new) name (zip originalColumnNames columnNames)"

text \<open>The callback of \<^verbatim>\<open>primaryKeys.map\<close> (lines 321 to 336).\<close>

definition primaryKeys_step ::
  "helpers \<Rightarrow> casing option \<Rightarrow> (string \<rightharpoonup> snap_primaryKey) \<Rightarrow> pg_primaryKey \<Rightarrow>
   (string \<rightharpoonup> snap_primaryKey)" where
  "primaryKeys_step h casing primaryKeysObject pk =
     (let originalColumnNames = map col_name (pk_columns pk);
          columnNames = map (cased h casing) (pk_columns pk);
          name = (if casing \<noteq> None
                  then replace_names h originalColumnNames columnNames (pk_getName pk)
                  else pk_getName pk)
      in assign primaryKeysObject name \<lparr> spk_name = name, spk_columns = columnNames \<rparr>)"

text \<open>The name that a table-level unique constraint resolves to (lines 339 to 341).\<close>

definition unique_name :: "helpers \<Rightarrow> casing option \<Rightarrow> string \<Rightarrow> pg_unique \<Rightarrow> string" where
  "unique_name h casing tableName unq =
     nullish (unq_name unq) (uniqueKeyName h tableName (map (cased h casing) (unq_columns unq)))"

text \<open>
  The callback of \<^verbatim>\<open>uniqueConstraints?.map\<close> (lines 338 to 365), with the same message
  (line 351).
\<close>

definition uniqueConstraints_step ::
  "helpers \<Rightarrow> casing option \<Rightarrow> string \<Rightarrow> pg_unique \<Rightarrow> (string \<rightharpoonup> snap_unique) \<Rightarrow>
   error + (string \<rightharpoonup> snap_unique)" where
  "uniqueConstraints_step h casing tableName unq uniqueConstraintObject =
     (let columnNames = map (cased h casing) (unq_columns unq);
          name = unique_name h casing tableName unq
      in case lookup uniqueConstraintObject name of
           Own existingUnique \<Rightarrow> Inl DuplicateUniqueConstraint
         | Inherited \<Rightarrow> Inl TypeError
         | Undefined \<Rightarrow>
             Inr (assign uniqueConstraintObject name
                    \<lparr> su_name = unq_name unq,
                      su_nullsNotDistinct = unq_nullsNotDistinct unq,
                      su_columns = columnNames \<rparr>))"

text \<open>The callbacks of \<^verbatim>\<open>foreignKeys.map\<close> and \<^verbatim>\<open>fks.forEach\<close> (lines 367 to 411).\<close>

definition foreignKey_of :: "helpers \<Rightarrow> casing option \<Rightarrow> string \<Rightarrow> pg_foreignKey \<Rightarrow> snap_foreignKey" where
  "foreignKey_of h casing tableName fk =
     (let originalColumnsFrom = map col_name (fk_columns fk);
          columnsFrom = map (cased h casing) (fk_columns fk);
          originalColumnsTo = map col_name (fk_foreignColumns fk);
          columnsTo = map (cased h casing) (fk_foreignColumns fk);
          name = (if casing \<noteq> None
                  then replace_names h originalColumnsTo columnsTo
                         (replace_names h originalColumnsFrom columnsFrom (fk_getName fk))
                  else fk_getName fk)
      in \<lparr> sfk_name = name,
           sfk_tableFrom = tableName,
           sfk_tableTo = ref_name (fk_foreignTable fk),
           sfk_schemaTo = ref_schema (fk_foreignTable fk),
           sfk_columnsFrom = columnsFrom,
           sfk_columnsTo = columnsTo,
           sfk_onDelete = fk_onDelete fk,
           sfk_onUpdate = fk_onUpdate fk \<rparr>)"

definition foreignKeys_of ::
  "helpers \<Rightarrow> casing option \<Rightarrow> string \<Rightarrow> pg_foreignKey list \<Rightarrow> (string \<rightharpoonup> snap_foreignKey)" where
  "foreignKeys_of h casing tableName foreignKeys =
     foldl (\<lambda>foreignKeysObject it. assign foreignKeysObject (sfk_name it) it) Map.empty
       (map (foreignKey_of h casing tableName) foreignKeys)"

text \<open>
  The callback of \<^verbatim>\<open>columns.forEach\<close> inside an index (lines 417 to 465): the two guards,
  then the cased name is pushed. With an explicit index name an \<^verbatim>\<open>SQL\<close> member passes and
  \<^verbatim>\<open>getColumnCasing\<close> is applied to it as well.
\<close>

definition index_member_step ::
  "helpers \<Rightarrow> casing option \<Rightarrow> pg_index \<Rightarrow> index_member \<Rightarrow> string list \<Rightarrow> error + string list" where
  "index_member_step h casing value it indexColumnNames =
     (case it of
        IdxSQL s \<Rightarrow>
          if ix_name value = None then Inl MissingIndexName
          else Inr (indexColumnNames @ [getColumnCasing h (CasingSQL s) casing])
      | IdxColumn c \<Rightarrow>
          if ic_type c = ''PgVector'' \<and> ixc_opClass (ic_indexConfig c) = None
          then Inl MissingOperatorClass
          else Inr (indexColumnNames @
                      [getColumnCasing h (CasingColumn (ic_name c) (ic_keyAsName c)) casing]))"

text \<open>The callback of \<^verbatim>\<open>columns.map\<close> inside an index (lines 471 to 495).\<close>

definition indexColumn :: "helpers \<Rightarrow> casing option \<Rightarrow> index_member \<Rightarrow> IndexColumnType" where
  "indexColumn h casing it =
     (case it of
        IdxSQL s \<Rightarrow>
          \<lparr> ict_expression = s, ict_isExpression = True, ict_asc = True, ict_nulls = ''last'',
            ict_opclass = None \<rparr>
      | IdxColumn c \<Rightarrow>
          \<lparr> ict_expression = getColumnCasing h (CasingColumn (ic_name c) (ic_keyAsName c)) casing,
            ict_isExpression = False,
            ict_asc = (ixc_order (ic_indexConfig c) = Some ''asc''),
            ict_nulls =
              (case ixc_nulls (ic_indexConfig c) of
                 Some n \<Rightarrow>
                   if n \<noteq> [] then n
                   else if ixc_order (ic_indexConfig c) = Some ''desc'' then ''first'' else ''last''
               | None \<Rightarrow>
                   if ixc_order (ic_indexConfig c) = Some ''desc'' then ''first'' else ''last''),
            ict_opclass = ixc_opClass (ic_indexConfig c) \<rparr>)"

text \<open>The name of an index (lines 467 to 469); an empty name is falsy.\<close>

definition index_name_of :: "string \<Rightarrow> pg_index \<Rightarrow> string list \<Rightarrow> string" where
  "index_name_of tableName value indexColumnNames =
     (case ix_name value of
        Some n \<Rightarrow> if n \<noteq> [] then n else indexName tableName indexColumnNames
      | None \<Rightarrow> indexName tableName indexColumnNames)"

definition index_of :: "helpers \<Rightarrow> casing option \<Rightarrow> string \<Rightarrow> pg_index \<Rightarrow> snap_index" where
  "index_of h casing name value =
     \<lparr> si_name = name,
       si_columns = map (indexColumn h casing) (ix_columns value),
       si_isUnique = nullish (ix_unique value) False,
       si_where = ix_where value,
       si_concurrently = nullish (ix_concurrently value) False,
       si_method = nullish (ix_method value) ''btree'',
       si_with = nullish (ix_with value) [] \<rparr>"

text \<open>
  The callback of \<^verbatim>\<open>indexes.forEach\<close> (lines 413 to 529). \<open>indexesInSchema\<close> outlives the
  table: it is declared before the loop over the tables. What this object inherits under the
  name of the schema is not \<^verbatim>\<open>undefined\<close> and has no method \<^verbatim>\<open>includes\<close>, so the call of
  line 499 is a \<open>TypeError\<close>; a stored list gets the name pushed.
\<close>

definition indexes_step ::
  "helpers \<Rightarrow> casing option \<Rightarrow> string \<Rightarrow> string option \<Rightarrow> pg_index \<Rightarrow>
   (string \<rightharpoonup> string list) \<times> (string \<rightharpoonup> snap_index) \<Rightarrow>
   error + (string \<rightharpoonup> string list) \<times> (string \<rightharpoonup> snap_index)" where
  "indexes_step h casing tableName schema value = (\<lambda>(indexesInSchema, indexesObject).
     case forEach (index_member_step h casing value) (ix_columns value) [] of
       Inl e \<Rightarrow> Inl e
     | Inr indexColumnNames \<Rightarrow>
         let name = index_name_of tableName value indexColumnNames;
             idx = index_of h casing name value
         in case lookup indexesInSchema (nullish schema ''public'') of
              Own names \<Rightarrow>
                if name \<in> set names then Inl DuplicateIndexName
                else Inr (indexesInSchema(nullish schema ''public'' \<mapsto> names @ [name]),
                          assign indexesObject name idx)
            | Inherited \<Rightarrow> Inl TypeError
            | Undefined \<Rightarrow>
                Inr (assign indexesInSchema (nullish schema ''public'') [name],
                     assign indexesObject name idx))"

text \<open>
  The roles of a policy (lines 532 to 550 and 670 to 688). An empty string is falsy, an
  array and a \<^verbatim>\<open>PgRole\<close> are not.
\<close>

definition role_text :: "policy_role \<Rightarrow> string" where
  "role_text r = (case r of RoleName n \<Rightarrow> n | RoleObject n \<Rightarrow> n)"

definition mappedTo :: "policy_to option \<Rightarrow> string list" where
  "mappedTo to =
     (case to of
        None \<Rightarrow> [''public'']
      | Some (ToOne (RoleName n)) \<Rightarrow> if n = [] then [''public''] else [n]
      | Some (ToOne (RoleObject n)) \<Rightarrow> [n]
      | Some (ToMany rs) \<Rightarrow> map role_text rs)"

text \<open>The policy entity (lines 567 to 578 and 711 to 722).\<close>

definition mappedPolicy :: "pg_policy \<Rightarrow> snap_policy" where
  "mappedPolicy policy =
     \<lparr> sp_name = pol_name policy,
       sp_as = (case pol_as policy of None \<Rightarrow> ''PERMISSIVE'' | Some a \<Rightarrow> toUpperCase a),
       sp_for = (case pol_for policy of None \<Rightarrow> ''ALL'' | Some f \<Rightarrow> toUpperCase f),
       sp_to = sort (mappedTo (pol_to policy)),
       sp_using = pol_using policy,
       sp_withCheck = pol_withCheck policy,
       sp_schema = None,
       sp_on = None \<rparr>"

text \<open>
  The callback of \<^verbatim>\<open>policies.forEach\<close> of a table (lines 531 to 579). \<open>policiesObject\<close> is
  created for each table (line 182). The test of line 552 holds for a stored name and for an
  inherited one; what follows it is the \<open>ReferenceError\<close>.
\<close>

definition policies_step ::
  "pg_policy \<Rightarrow> (string \<rightharpoonup> snap_policy) \<Rightarrow> error + (string \<rightharpoonup> snap_policy)" where
  "policies_step policy policiesObject =
     (if lookup policiesObject (pol_name policy) \<noteq> Undefined then Inl ReferenceError
      else Inr (assign policiesObject (pol_name policy) (mappedPolicy policy)))"

text \<open>The callback of \<^verbatim>\<open>checks.forEach\<close> (lines 581 to 619).\<close>

definition checks_key :: "string option \<Rightarrow> string \<Rightarrow> string" where
  "checks_key schema tableName =
     [CHR 0x22] @ nullish schema ''public'' @ [CHR 0x22] @ ''.'' @ [CHR 0x22] @ tableName @ [CHR 0x22]"

definition checks_step ::
  "string option \<Rightarrow> string \<Rightarrow> pg_check \<Rightarrow>
   (string \<rightharpoonup> string list) \<times> (string \<rightharpoonup> snap_check) \<Rightarrow>
   error + (string \<rightharpoonup> string list) \<times> (string \<rightharpoonup> snap_check)" where
  "checks_step schema tableName check = (\<lambda>(checksInTable, checksObject).
     let checkName = chk_name check;
         entry = \<lparr> sck_name = checkName, sck_value = chk_value check \<rparr>
     in case lookup checksInTable (checks_key schema tableName) of
          Own names \<Rightarrow>
            if chk_name check \<in> set names then Inl DuplicateCheckConstraintName
            else Inr (checksInTable(checks_key schema tableName \<mapsto> names @ [checkName]),
                      assign checksObject checkName entry)
        | Inherited \<Rightarrow> Inl TypeError
        | Undefined \<Rightarrow>
            Inr (assign checksInTable (checks_key schema tableName) [chk_name check],
                 assign checksObject checkName entry))"

text \<open>The relations of a table (lines 626 to 635).\<close>

definition relation_of :: "relation_in \<Rightarrow> snap_relation" where
  "relation_of relation =
     \<lparr> sr_type = (if rel_isMany relation then ''many'' else ''one''),
       sr_fieldName = rel_fieldName relation,
       sr_relationName = or_else (rel_relationName relation) (rel_fieldName relation),
       sr_referencedTableName = rel_referencedTableName relation \<rparr>"

definition tableRelations :: "relations_config list \<Rightarrow> string \<Rightarrow> snap_relation list" where
  "tableRelations relations tableName =
     concat (map (\<lambda>config. map relation_of (rc_relations config))
               (filter (\<lambda>r. rc_dbName r = tableName) relations))"

text \<open>The test of lines 172 to 174.\<close>

definition filtered_out :: "string list option \<Rightarrow> string option \<Rightarrow> bool" where
  "filtered_out schemaFilter schema =
     (case schemaFilter of
        None \<Rightarrow> False
      | Some f \<Rightarrow> nullish schema ''public'' \<notin> set f)"

definition tableKey :: "string option \<Rightarrow> string \<Rightarrow> string" where
  "tableKey schema tableName = nullish schema ''public'' @ ''.'' @ tableName"

text \<open>
  The body of the loop over the tables (lines 154 to 652). The state is \<open>result\<close> and
  \<open>indexesInSchema\<close>; every other object of the body is created anew for each table.
\<close>

definition table_step ::
  "helpers \<Rightarrow> casing option \<Rightarrow> string list option \<Rightarrow> relations_config list \<Rightarrow> pg_table \<Rightarrow>
   (string \<rightharpoonup> snap_table) \<times> (string \<rightharpoonup> string list) \<Rightarrow>
   error + (string \<rightharpoonup> snap_table) \<times> (string \<rightharpoonup> string list)" where
  "table_step h casing schemaFilter relations table = (\<lambda>(result, indexesInSchema).
     let tableName = tbl_name table; schema = tbl_schema table in
     if filtered_out schemaFilter schema then Inr (result, indexesInSchema)
     else
       case forEach (columns_step h casing tableName schema) (tbl_columns table)
              (Map.empty, Map.empty) of
         Inl e \<Rightarrow> Inl e
       | Inr (columnsObject, uniqueOfColumns) \<Rightarrow>
       let primaryKeysObject =
             foldl (primaryKeys_step h casing) Map.empty (tbl_primaryKeys table) in
       case forEach (uniqueConstraints_step h casing tableName)
              (nullish (tbl_uniqueConstraints table) []) uniqueOfColumns of
         Inl e \<Rightarrow> Inl e
       | Inr uniqueConstraintObject \<Rightarrow>
       let foreignKeysObject = foreignKeys_of h casing tableName (tbl_foreignKeys table) in
       case forEach (indexes_step h casing tableName schema) (tbl_indexes table)
              (indexesInSchema, Map.empty) of
         Inl e \<Rightarrow> Inl e
       | Inr (indexesInSchema', indexesObject) \<Rightarrow>
       case forEach policies_step (tbl_policies table) Map.empty of
         Inl e \<Rightarrow> Inl e
       | Inr policiesObject \<Rightarrow>
       case forEach (checks_step schema tableName) (tbl_checks table) (Map.empty, Map.empty) of
         Inl e \<Rightarrow> Inl e
       | Inr (checksInTable, checksObject) \<Rightarrow>
           Inr (assign result (tableKey schema tableName)
                  \<lparr> st_name = tableName,
                    st_schema = nullish schema [],
                    st_columns = columnsObject,
                    st_indexes = indexesObject,
                    st_foreignKeys = foreignKeysObject,
                    st_compositePrimaryKeys = primaryKeysObject,
                    st_uniqueConstraints = uniqueConstraintObject,
                    st_policies = policiesObject,
                    st_checkConstraints = checksObject,
                    st_isRLSEnabled = tbl_enableRLS table,
                    st_description = tbl_description table,
                    st_relations = tableRelations relations tableName \<rparr>,
                indexesInSchema'))"

subsection \<open>The loop over the standalone policies\<close>

text \<open>
  The body of the loop for a policy with a linked table (lines 665 to 732). The test for a
  duplicate (lines 693 to 696) reads \<^verbatim>\<open>result[tableKey]?.policies[policy.name]\<close>, which is
  \<^verbatim>\<open>undefined\<close> when \<open>result\<close> has nothing under the key, and then
  \<^verbatim>\<open>policiesToReturn[policy.name]\<close>. A policy that passes goes to the policies of the table
  when \<open>result\<close> has the table, and to \<open>policiesToReturn\<close> otherwise. What \<open>result\<close> would
  inherit under a key has no \<^verbatim>\<open>policies\<close>; no key is an inherited name, since every key
  holds a dot.
\<close>

definition linked_policy_step ::
  "pg_policy \<Rightarrow> table_ref \<Rightarrow>
   (string \<rightharpoonup> snap_table) \<times> (string \<rightharpoonup> snap_policy) \<Rightarrow>
   error + (string \<rightharpoonup> snap_table) \<times> (string \<rightharpoonup> snap_policy)" where
  "linked_policy_step policy tableConfig = (\<lambda>(result, policiesToReturn).
     let key = tableKey (ref_schema tableConfig) (ref_name tableConfig) in
     case lookup result key of
       Inherited \<Rightarrow> Inl TypeError
     | Own t \<Rightarrow>
         if lookup (st_policies t) (pol_name policy) \<noteq> Undefined
            \<or> lookup policiesToReturn (pol_name policy) \<noteq> Undefined
         then Inl DuplicatePolicyName
         else
           Inr (result(key \<mapsto>
                  t\<lparr> st_policies := assign (st_policies t) (pol_name policy) (mappedPolicy policy) \<rparr>),
                policiesToReturn)
     | Undefined \<Rightarrow>
         if lookup policiesToReturn (pol_name policy) \<noteq> Undefined
         then Inl DuplicatePolicyName
         else
           Inr (result,
                assign policiesToReturn (pol_name policy)
                  ((mappedPolicy policy)
                     \<lparr> sp_schema := Some (nullish (ref_schema tableConfig) ''public''),
                       sp_on := Some (checks_key (ref_schema tableConfig) (ref_name tableConfig)) \<rparr>)))"

text \<open>
  The loop of lines 654 to 733, with what it prints: a policy without a linked table is
  reported and skipped.
\<close>

fun policies_loop ::
  "pg_policy list \<Rightarrow> (string \<rightharpoonup> snap_table) \<times> (string \<rightharpoonup> snap_policy) \<Rightarrow>
   diagnostic list \<times> (error + (string \<rightharpoonup> snap_table) \<times> (string \<rightharpoonup> snap_policy))" where
  "policies_loop [] st = ([], Inr st)"
| "policies_loop (policy # ps) st =
     (case pol_linkedTable policy of
        None \<Rightarrow>
          (case policies_loop ps st of (log, r) \<Rightarrow> (SkippedPolicy (pol_name policy) # log, r))
      | Some tableConfig \<Rightarrow>
          (case linked_policy_step policy tableConfig st of
             Inl e \<Rightarrow> (error_log e, Inl e)
           | Inr st' \<Rightarrow> policies_loop ps st'))"

subsection \<open>Sequences, roles, views, enums and schemas\<close>

record pg_sequence =
  seq_seqName :: "string option"
  seq_schema :: "string option"
  seq_seqOptions :: "sequenceOptions option"

record snap_sequence =
  sq_name :: "string option"
  sq_schema :: string
  sq_increment :: string
  sq_startWith :: string
  sq_minValue :: string
  sq_maxValue :: string
  sq_cache :: string
  sq_cycle :: bool

text \<open>
  The body of the loop over the sequences (lines 735 to 768): the first of a key stays. A
  name that is \<^verbatim>\<open>undefined\<close> is that word in the key.
\<close>

definition sequences_step ::
  "(string \<rightharpoonup> snap_sequence) \<Rightarrow> pg_sequence \<Rightarrow> (string \<rightharpoonup> snap_sequence)" where
  "sequences_step sequencesToReturn sequence =
     (let name = seq_seqName sequence;
          key = nullish (seq_schema sequence) ''public'' @ ''.'' @ property_key name
      in if lookup sequencesToReturn key = Undefined then
           let seqOptions = seq_seqOptions sequence;
               increment =
                 nullish (stringFromIdentityProperty (Option.bind seqOptions so_increment)) ''1'';
               minValue =
                 nullish (stringFromIdentityProperty (Option.bind seqOptions so_minValue))
                   (if parseFloat_lt0 increment then ''-9223372036854775808'' else ''1'');
               maxValue =
                 nullish (stringFromIdentityProperty (Option.bind seqOptions so_maxValue))
                   (if parseFloat_lt0 increment then ''-1'' else ''9223372036854775807'');
               startWith =
                 nullish (stringFromIdentityProperty (Option.bind seqOptions so_startWith))
                   (if parseFloat_lt0 increment then maxValue else minValue);
               cache =
                 nullish (stringFromIdentityProperty (Option.bind seqOptions so_cache)) ''1''
           in assign sequencesToReturn key
                \<lparr> sq_name = name,
                  sq_schema = nullish (seq_schema sequence) ''public'',
                  sq_increment = increment,
                  sq_startWith = startWith,
                  sq_minValue = minValue,
                  sq_maxValue = maxValue,
                  sq_cache = cache,
                  sq_cycle = nullish (Option.bind seqOptions so_cycle) False \<rparr>
         else sequencesToReturn)"

record pg_role =
  role_name :: string
  role_existing :: bool
  role_createDb :: "bool option"
  role_createRole :: "bool option"
  role_inherit :: "bool option"

record snap_role =
  sro_name :: string
  sro_createDb :: bool
  sro_createRole :: bool
  sro_inherit :: bool

text \<open>The body of the loop over the roles (lines 770 to 784).\<close>

definition roles_step :: "(string \<rightharpoonup> snap_role) \<Rightarrow> pg_role \<Rightarrow> (string \<rightharpoonup> snap_role)" where
  "roles_step rolesToReturn role =
     (if \<not> role_existing role then
        assign rolesToReturn (role_name role)
          \<lparr> sro_name = role_name role,
            sro_createDb = nullish (role_createDb role) False,
            sro_createRole = nullish (role_createRole role) False,
            sro_inherit = nullish (role_inherit role) True \<rparr>
      else rolesToReturn)"

text \<open>
  A view or a materialized view: \<open>v_isPgView\<close> is \<^verbatim>\<open>is(view, PgView)\<close>, and the selected
  fields are listed in the order of \<^verbatim>\<open>for (const key in selectedFields)\<close>, each one a column
  or something else. A view that is not marked as existing is taken to have a query.
\<close>

datatype selected_field = FieldColumn pg_column | FieldOther

record pg_view =
  v_isPgView :: bool
  v_name :: string
  v_schema :: "string option"
  v_query :: "sql option"
  v_selectedFields :: "(string \<times> selected_field) list"
  v_isExisting :: bool
  v_with :: "(string \<times> string) list option"
  v_tablespace :: "string option"
  v_using :: "string option"
  v_withNoData :: "bool option"
  v_description :: "string option"

record snap_view =
  sv_columns :: "string \<rightharpoonup> snap_column"
  sv_definition :: "string option"
  sv_name :: string
  sv_schema :: string
  sv_isExisting :: bool
  sv_with :: "(string \<times> string) list option"
  sv_withNoData :: "bool option"
  sv_materialized :: bool
  sv_tablespace :: "string option"
  sv_using :: "string option"
  sv_description :: "string option"

text \<open>The body of the loop over the selected fields of a view (lines 844 to 978).\<close>

definition view_columns_step ::
  "helpers \<Rightarrow> string \<Rightarrow> string option \<Rightarrow> string \<times> selected_field \<Rightarrow>
   (string \<rightharpoonup> snap_column) \<times> (string \<rightharpoonup> snap_unique) \<Rightarrow>
   error + (string \<rightharpoonup> snap_column) \<times> (string \<rightharpoonup> snap_unique)" where
  "view_columns_step h viewName schema field = (\<lambda>(columnsObject, uniqueConstraintObject).
     case snd field of
       FieldOther \<Rightarrow> Inr (columnsObject, uniqueConstraintObject)
     | FieldColumn column \<Rightarrow>
         let col = columnToSet h viewName schema (col_name column) column
         in case unique_column (col_name column) column uniqueConstraintObject of
              Inl e \<Rightarrow> Inl e
            | Inr uniqueConstraintObject' \<Rightarrow>
                (case columnDefault h column of
                   Inl e \<Rightarrow> Inl e
                 | Inr d \<Rightarrow>
                     Inr (assign columnsObject (col_name column) (col \<lparr> sc_default := d \<rparr>),
                          uniqueConstraintObject')))"

text \<open>The body of the loop over the views (lines 786 to 997).\<close>

definition views_step ::
  "helpers \<Rightarrow> pg_view \<Rightarrow> (string \<rightharpoonup> snap_view) \<Rightarrow> error + (string \<rightharpoonup> snap_view)" where
  "views_step h view resultViews =
     (let viewName = v_name view;
          schema = v_schema view;
          materialized = (\<not> v_isPgView view);
          viewSchema = nullish schema ''public'';
          viewKey = viewSchema @ ''.'' @ viewName
      in if lookup resultViews viewKey \<noteq> Undefined then Inl DuplicateViewName
         else
             (case forEach (view_columns_step h viewName schema) (v_selectedFields view)
                     (Map.empty, Map.empty) of
                Inl e \<Rightarrow> Inl e
              | Inr (columnsObject, uniqueConstraintObject) \<Rightarrow>
                  Inr (assign resultViews viewKey
                         \<lparr> sv_columns = columnsObject,
                           sv_definition = (if v_isExisting view then None else v_query view),
                           sv_name = viewName,
                           sv_schema = viewSchema,
                           sv_isExisting = v_isExisting view,
                           sv_with = v_with view,
                           sv_withNoData = (if materialized then v_withNoData view else None),
                           sv_materialized = materialized,
                           sv_tablespace = (if materialized then v_tablespace view else None),
                           sv_using = (if materialized then v_using view else None),
                           sv_description = v_description view \<rparr>)))"

record pg_enum =
  enum_enumName :: string
  enum_schema :: "string option"
  enum_enumValues :: "string list"

record snap_enum =
  se_name :: string
  se_schema :: string
  se_values :: "string list"

text \<open>The callback of \<^verbatim>\<open>enums.reduce\<close> (lines 999 to 1010).\<close>

definition enums_step :: "(string \<rightharpoonup> snap_enum) \<Rightarrow> pg_enum \<Rightarrow> (string \<rightharpoonup> snap_enum)" where
  "enums_step m obj =
     (let enumSchema = or_else (enum_schema obj) ''public'';
          key = enumSchema @ ''.'' @ enum_enumName obj
      in assign m key \<lparr> se_name = enum_enumName obj, se_schema = enumSchema,
                         se_values = enum_enumValues obj \<rparr>)"

text \<open>
  \<open>schemasObject\<close> (lines 1012 to 1024), from the names of the schemas.
  \<^verbatim>\<open>Object.fromEntries\<close> defines an own property for every name.
\<close>

definition schemasObject :: "string list option \<Rightarrow> string list \<Rightarrow> (string \<rightharpoonup> string)" where
  "schemasObject schemaFilter schemas =
     foldl (\<lambda>m n. m(n \<mapsto> n)) Map.empty
       (filter (\<lambda>n. case schemaFilter of
                       Some f \<Rightarrow> n \<in> set f \<and> n \<noteq> ''public''
                     | None \<Rightarrow> n \<noteq> ''public'') schemas)"

subsection \<open>The conversion\<close>

record drizzleObjects =
  do_tables :: "pg_table list"
  do_enums :: "pg_enum list"
  do_schemas :: "string list"
  do_sequences :: "pg_sequence list"
  do_roles :: "pg_role list"
  do_policies :: "pg_policy list"
  do_views :: "pg_view list"
  do_matViews :: "pg_view list"
  do_relations :: "relations_config list"

text \<open>
  The configuration: \<^verbatim>\<open>entities.roles\<close> is a boolean or an object with an optional
  provider.
\<close>

datatype roles_entity = RolesFlag bool | RolesObject "string option"

record config =
  cfg_casing :: "casing option"
  cfg_schemaFilter :: "string list option"
  cfg_roles :: "roles_entity option"
  cfg_projectId :: "string option"

text \<open>The snapshot, without the constant \<^verbatim>\<open>_meta\<close> of empty objects.\<close>

record snapshot =
  s_version :: string
  s_dialect :: string
  s_tables :: "string \<rightharpoonup> snap_table"
  s_enums :: "string \<rightharpoonup> snap_enum"
  s_schemas :: "string \<rightharpoonup> string"
  s_sequences :: "string \<rightharpoonup> snap_sequence"
  s_roles :: "string \<rightharpoonup> snap_role"
  s_policies :: "string \<rightharpoonup> snap_policy"
  s_views :: "string \<rightharpoonup> snap_view"
  s_provider :: "string option"
  s_projectId :: string

text \<open>The loop over the tables, from the empty \<open>result\<close> and \<open>indexesInSchema\<close>.\<close>

definition tables_loop ::
  "helpers \<Rightarrow> config \<Rightarrow> relations_config list \<Rightarrow> pg_table list \<Rightarrow>
   (string \<rightharpoonup> snap_table) \<times> (string \<rightharpoonup> string list) \<Rightarrow>
   error + (string \<rightharpoonup> snap_table) \<times> (string \<rightharpoonup> string list)" where
  "tables_loop h cfg relations tables st =
     forEach (table_step h (cfg_casing cfg) (cfg_schemaFilter cfg) relations) tables st"

text \<open>
  \<^verbatim>\<open>drizzleObjectsToSnapshot\<close>: what is printed, and the error thrown or the snapshot
  returned. The loops run in the order of the source: tables, standalone policies, sequences,
  roles, views.
\<close>

definition drizzleObjectsToSnapshot ::
  "helpers \<Rightarrow> drizzleObjects \<Rightarrow> config \<Rightarrow> diagnostic list \<times> (error + snapshot)" where
  "drizzleObjectsToSnapshot h objs cfg =
     (case tables_loop h cfg (do_relations objs) (do_tables objs) (Map.empty, Map.empty) of
        Inl e \<Rightarrow> (error_log e, Inl e)
      | Inr (result, indexesInSchema) \<Rightarrow>
     (case policies_loop (do_policies objs) (result, Map.empty) of
        (log, Inl e) \<Rightarrow> (log, Inl e)
      | (log, Inr (result', policiesToReturn)) \<Rightarrow>
     let sequencesToReturn = foldl sequences_step Map.empty (do_sequences objs);
         rolesToReturn = foldl roles_step Map.empty (do_roles objs)
     in
     (case forEach (views_step h) (do_views objs @ do_matViews objs) Map.empty of
        Inl e \<Rightarrow> (log @ error_log e, Inl e)
      | Inr resultViews \<Rightarrow>
          (log,
           Inr \<lparr> s_version = ''7'',
                 s_dialect = ''postgresql'',
                 s_tables = result',
                 s_enums = foldl enums_step Map.empty (do_enums objs),
                 s_schemas = schemasObject (cfg_schemaFilter cfg) (do_schemas objs),
                 s_sequences = sequencesToReturn,
                 s_roles = rolesToReturn,
                 s_policies = policiesToReturn,
                 s_views = resultViews,
                 s_provider =
                   (case cfg_roles cfg of Some (RolesObject provider) \<Rightarrow> provider | _ \<Rightarrow> None),
                 s_projectId = or_else (cfg_projectId cfg) ''drizzle-lab'' \<rparr>))))"

subsection \<open>An instance of the helper functions, for the worked examples\<close>

text \<open>
  The theorems below hold for every choice of the helper functions. The worked examples use
  this one: no casing, drizzle-orm's name of a unique key, a type is an array type when it has
  a bracket pair around digits, single quotes are doubled, \<^verbatim>\<open>replace\<close> substitutes the first
  occurrence, and \<^verbatim>\<open>JSON.stringify\<close> throws for a value that holds a bigint and else gives the
  JSON text: an element \<^verbatim>\<open>undefined\<close> of an array as \<^verbatim>\<open>null\<close>, a property \<^verbatim>\<open>undefined\<close> of an
  object not at all, a number that is not finite and an invalid date as \<^verbatim>\<open>null\<close>. The
  examples have no JSON shapes, and the indented text is taken without its white space.
\<close>

fun has_brackets :: "string \<Rightarrow> bool" where
  "has_brackets [] = False"
| "has_brackets (c # r) =
     ((c = CHR ''['' \<and> (case dropWhile isDigit r of [] \<Rightarrow> False | d # _ \<Rightarrow> d = CHR '']''))
      \<or> has_brackets r)"

fun replace_first :: "string \<Rightarrow> string \<Rightarrow> string \<Rightarrow> string" where
  "replace_first pat rep [] = (if pat = [] then rep else [])"
| "replace_first pat rep (x # xs) =
     (if take (length pat) (x # xs) = pat then rep @ drop (length pat) (x # xs)
      else x # replace_first pat rep xs)"

fun bigint_free :: "jsval \<Rightarrow> bool" where
  "bigint_free (JBigInt n) = False"
| "bigint_free (JArr vs) = list_all bigint_free vs"
| "bigint_free (JObj ps) = list_all (\<lambda>p. bigint_free (snd p)) ps"
| "bigint_free v = True"

definition json_char :: "char \<Rightarrow> string" where
  "json_char c =
     (if c = CHR 0x22 then [CHR 0x5C, CHR 0x22]
      else if c = CHR 0x5C then [CHR 0x5C, CHR 0x5C]
      else if c = CHR 0x08 then [CHR 0x5C, CHR ''b'']
      else if c = CHR 0x09 then [CHR 0x5C, CHR ''t'']
      else if c = CHR 0x0A then [CHR 0x5C, CHR ''n'']
      else if c = CHR 0x0C then [CHR 0x5C, CHR ''f'']
      else if c = CHR 0x0D then [CHR 0x5C, CHR ''r'']
      else if (of_char c :: nat) < 32 then
        [CHR 0x5C, CHR ''u'', CHR ''0'', CHR ''0'',
         ''0123456789abcdef'' ! (of_char c div 16), ''0123456789abcdef'' ! (of_char c mod 16)]
      else [c])"

definition json_string :: "string \<Rightarrow> string" where
  "json_string s = quoted (concat (map json_char s))"

fun json_text :: "jsval \<Rightarrow> string" where
  "json_text JUndefined = ''null''"
| "json_text JNull = ''null''"
| "json_text (JBool b) = (if b then ''true'' else ''false'')"
| "json_text (JNum n) = (if n \<in> set [''NaN'', ''Infinity'', ''-Infinity''] then ''null'' else n)"
| "json_text (JBigInt n) = []"
| "json_text (JStr s) = json_string s"
| "json_text (JDate d) = (case d of None \<Rightarrow> ''null'' | Some isoString \<Rightarrow> json_string isoString)"
| "json_text (JArr vs) = ''['' @ join_str '','' (map json_text vs) @ '']''"
| "json_text (JObj ps) =
     ''{'' @ join_str '',''
              (map (\<lambda>p. json_string (fst p) @ '':'' @ json_text (snd p))
                 (filter (\<lambda>p. snd p \<noteq> JUndefined) ps))
     @ ''}''"

definition example_helpers :: helpers where
  "example_helpers =
     \<lparr> getColumnCasing = (\<lambda>a c. case a of CasingColumn n k \<Rightarrow> n | CasingSQL s \<Rightarrow> []),
       uniqueKeyName = (\<lambda>t cs. t @ ''_'' @ join_str ''_'' cs @ ''_unique''),
       isPgArrayType = has_brackets,
       escapeSingleQuotes = (\<lambda>s. concat (map (\<lambda>x. if x = CHR 0x27 then [x, x] else [x]) s)),
       JSON_stringify = (\<lambda>v. if bigint_free v then Some (json_text v) else None),
       JSON_stringify_indented = (\<lambda>v. if bigint_free v then Some (json_text v) else None),
       String_replace = (\<lambda>s pat rep. replace_first pat rep s) \<rparr>"


subsection \<open>Inputs for the worked examples\<close>

definition empty_column :: pg_column where
  "empty_column =
     \<lparr> col_name = ''id'', col_keyAsName = False, col_notNull = False, col_primary = False,
       col_getSQLType = ''integer'', col_columnType = ''PgInteger'', col_enum = None,
       col_generated = None, col_generatedIdentity = None, col_isUnique = False,
       col_uniqueName = None, col_uniqueType = None, col_default = None,
       col_jsonShape = None \<rparr>"

definition empty_table :: pg_table where
  "empty_table =
     \<lparr> tbl_name = ''users'', tbl_columns = [], tbl_indexes = [], tbl_foreignKeys = [],
       tbl_checks = [], tbl_schema = None, tbl_primaryKeys = [], tbl_uniqueConstraints = None,
       tbl_policies = [], tbl_enableRLS = False, tbl_description = None \<rparr>"

definition empty_policy :: pg_policy where
  "empty_policy =
     \<lparr> pol_name = ''p'', pol_as = None, pol_for = None, pol_to = None, pol_using = None,
       pol_withCheck = None, pol_linkedTable = None \<rparr>"

definition empty_index :: pg_index where
  "empty_index =
     \<lparr> ix_name = None, ix_columns = [], ix_unique = None, ix_where = None,
       ix_concurrently = None, ix_method = None, ix_with = None \<rparr>"

definition empty_objects :: drizzleObjects where
  "empty_objects =
     \<lparr> do_tables = [], do_enums = [], do_schemas = [], do_sequences = [], do_roles = [],
       do_policies = [], do_views = [], do_matViews = [], do_relations = [] \<rparr>"

definition empty_config :: config where
  "empty_config =
     \<lparr> cfg_casing = None, cfg_schemaFilter = None, cfg_roles = None, cfg_projectId = None \<rparr>"

definition no_options :: sequenceOptions where
  "no_options =
     \<lparr> so_increment = None, so_minValue = None, so_maxValue = None, so_startWith = None,
       so_cache = None, so_cycle = None \<rparr>"

text \<open>An identity column of type \<^verbatim>\<open>integer\<close> without options, and one that counts down.\<close>

definition ascending_column :: pg_column where
  "ascending_column =
     empty_column \<lparr> col_generatedIdentity :=
       Some \<lparr> gi_type = Always, gi_sequenceName = None, gi_sequenceOptions = None \<rparr> \<rparr>"

definition descending_column :: pg_column where
  "descending_column =
     empty_column \<lparr> col_generatedIdentity :=
       Some \<lparr> gi_type = Always, gi_sequenceName = None,
              gi_sequenceOptions = Some (no_options \<lparr> so_increment := Some (PStr ''-1'') \<rparr>) \<rparr> \<rparr>"

text \<open>Columns of type \<^verbatim>\<open>integer[]\<close> with the defaults \<^verbatim>\<open>[1,2,3]\<close> and \<^verbatim>\<open>[[1,2],[3,4]]\<close>.\<close>

definition array_column :: pg_column where
  "array_column =
     empty_column \<lparr> col_getSQLType := ''integer[]'', col_columnType := ''PgArray'',
       col_default := Some (DefaultValue (JArr [JNum ''1'', JNum ''2'', JNum ''3''])) \<rparr>"

definition nested_array_column :: pg_column where
  "nested_array_column =
     empty_column \<lparr> col_getSQLType := ''integer[][]'', col_columnType := ''PgArray'',
       col_default :=
         Some (DefaultValue
                 (JArr [JArr [JNum ''1'', JNum ''2''], JArr [JNum ''3'', JNum ''4'']])) \<rparr>"

subsection \<open>The conditions of the claims\<close>

text \<open>
  The sequence options of an identity column leave increment, minValue, maxValue and startWith
  unspecified; and: the increment is the text \<^verbatim>\<open>-1\<close> and the other three are unspecified.
\<close>

definition options_unspecified :: "generatedIdentity \<Rightarrow> bool" where
  "options_unspecified i =
     (case gi_sequenceOptions i of
        None \<Rightarrow> True
      | Some so \<Rightarrow> so_increment so = None \<and> so_minValue so = None \<and> so_maxValue so = None
                  \<and> so_startWith so = None)"

definition options_descending :: "generatedIdentity \<Rightarrow> bool" where
  "options_descending i =
     (case gi_sequenceOptions i of
        None \<Rightarrow> False
      | Some so \<Rightarrow> so_increment so = Some (PStr ''-1'') \<and> so_minValue so = None
                  \<and> so_maxValue so = None \<and> so_startWith so = None)"

subsection \<open>Notions used in the statements\<close>

text \<open>The name that the callback pushes for an index member, and the two guards on it.\<close>

definition member_name :: "helpers \<Rightarrow> casing option \<Rightarrow> index_member \<Rightarrow> string" where
  "member_name h casing it =
     (case it of
        IdxSQL s \<Rightarrow> getColumnCasing h (CasingSQL s) casing
      | IdxColumn c \<Rightarrow> getColumnCasing h (CasingColumn (ic_name c) (ic_keyAsName c)) casing)"

definition member_passes :: "pg_index \<Rightarrow> index_member \<Rightarrow> bool" where
  "member_passes value it =
     (case it of
        IdxSQL s \<Rightarrow> ix_name value \<noteq> None
      | IdxColumn c \<Rightarrow> \<not> (ic_type c = ''PgVector'' \<and> ixc_opClass (ic_indexConfig c) = None))"

text \<open>
  The name an index resolves to, the index names of a table, and the index names of the
  tables of one schema that pass the schema filter, in the order of the input.
\<close>

definition index_resolved_name :: "helpers \<Rightarrow> casing option \<Rightarrow> string \<Rightarrow> pg_index \<Rightarrow> string" where
  "index_resolved_name h casing tableName value =
     index_name_of tableName value (map (member_name h casing) (ix_columns value))"

definition table_index_names :: "helpers \<Rightarrow> casing option \<Rightarrow> pg_table \<Rightarrow> string list" where
  "table_index_names h casing t = map (index_resolved_name h casing (tbl_name t)) (tbl_indexes t)"

definition schema_index_names ::
  "helpers \<Rightarrow> config \<Rightarrow> pg_table list \<Rightarrow> string \<Rightarrow> string list" where
  "schema_index_names h cfg ts sk =
     concat (map (table_index_names h (cfg_casing cfg))
       (filter (\<lambda>t. \<not> filtered_out (cfg_schemaFilter cfg) (tbl_schema t)
                     \<and> nullish (tbl_schema t) ''public'' = sk) ts))"

text \<open>The names registered for a schema; an absent entry holds no name.\<close>

definition names_in :: "(string \<rightharpoonup> string list) \<Rightarrow> string \<Rightarrow> string list" where
  "names_in reg k = (case reg k of None \<Rightarrow> [] | Some l \<Rightarrow> l)"

text \<open>
  The names of the unique constraints of a table in the order the serializer meets them: the
  columns with \<^verbatim>\<open>isUnique\<close>, then the table-level declarations.
\<close>

definition table_unique_names :: "helpers \<Rightarrow> casing option \<Rightarrow> pg_table \<Rightarrow> string list" where
  "table_unique_names h casing t =
     map (\<lambda>c. property_key (col_uniqueName c)) (filter col_isUnique (tbl_columns t))
     @ map (unique_name h casing (tbl_name t)) (nullish (tbl_uniqueConstraints t) [])"

text \<open>
  A column is encoded without an error of the runtime: neither \<^verbatim>\<open>JSON.stringify\<close> of its
  JSON shape nor the encoding of its default throws.
\<close>

definition column_encodes :: "helpers \<Rightarrow> pg_column \<Rightarrow> bool" where
  "column_encodes h column = (\<not> isl (jsonShape h column) \<and> \<not> isl (columnDefault h column))"

text \<open>
  The conversion reaches an index of a table: the tables before the table convert, the table
  passes the schema filter, its columns and unique constraints convert (the names of the
  constraints are pairwise distinct and none is a name that an object inherits, and the
  columns are encoded without an error of the runtime), and so do the indexes before the
  index in the table (their members pass the guards, the name of the schema is not inherited,
  and their names are new in the schema).
\<close>

definition reaches_index ::
  "helpers \<Rightarrow> config \<Rightarrow> relations_config list \<Rightarrow> pg_table list \<Rightarrow> pg_table \<Rightarrow> pg_index list \<Rightarrow> bool"
  where
  "reaches_index h cfg rel ts t ixs =
     (\<not> isl (tables_loop h cfg rel ts (Map.empty, Map.empty))
      \<and> \<not> filtered_out (cfg_schemaFilter cfg) (tbl_schema t)
      \<and> distinct (table_unique_names h (cfg_casing cfg) t)
      \<and> (\<forall>n \<in> set (table_unique_names h (cfg_casing cfg) t). n \<notin> set Object_prototype)
      \<and> (\<forall>c \<in> set (tbl_columns t). column_encodes h c)
      \<and> (\<forall>i \<in> set ixs. \<forall>m \<in> set (ix_columns i). member_passes i m)
      \<and> (ixs \<noteq> [] \<longrightarrow> nullish (tbl_schema t) ''public'' \<notin> set Object_prototype)
      \<and> distinct (schema_index_names h cfg ts (nullish (tbl_schema t) ''public'')
                   @ map (index_resolved_name h (cfg_casing cfg) (tbl_name t)) ixs))"

text \<open>
  The test of lines 693 to 696 on the state of the loop over the standalone policies: the
  name is taken in the entry of the table or among the policies to return.
\<close>

definition registered ::
  "(string \<rightharpoonup> snap_table) \<times> (string \<rightharpoonup> snap_policy) \<Rightarrow> string \<Rightarrow> string \<Rightarrow> bool" where
  "registered st k n =
     ((case fst st k of None \<Rightarrow> False | Some t \<Rightarrow> lookup (st_policies t) n \<noteq> Undefined)
      \<or> lookup (snd st) n \<noteq> Undefined)"

text \<open>One table map has the keys of the other, with the same names and schemas.\<close>

definition entries_kept :: "(string \<rightharpoonup> snap_table) \<Rightarrow> (string \<rightharpoonup> snap_table) \<Rightarrow> bool" where
  "entries_kept res res' =
     (\<forall>k. case res k of
            None \<Rightarrow> res' k = None
          | Some e \<Rightarrow> (\<exists>e'. res' k = Some e' \<and> st_name e' = st_name e \<and> st_schema e' = st_schema e))"

text \<open>Reading the result of a conversion.\<close>

definition snapshot_of :: "diagnostic list \<times> (error + snapshot) \<Rightarrow> snapshot option" where
  "snapshot_of r = (case snd r of Inl e \<Rightarrow> None | Inr s \<Rightarrow> Some s)"

definition table_of :: "diagnostic list \<times> (error + snapshot) \<Rightarrow> string \<Rightarrow> snap_table option" where
  "table_of r key = Option.bind (snapshot_of r) (\<lambda>s. s_tables s key)"

definition policy_of ::
  "diagnostic list \<times> (error + snapshot) \<Rightarrow> string \<Rightarrow> string \<Rightarrow> snap_policy option" where
  "policy_of r key name = Option.bind (table_of r key) (\<lambda>t. st_policies t name)"

definition index_of_table ::
  "diagnostic list \<times> (error + snapshot) \<Rightarrow> string \<Rightarrow> string \<Rightarrow> snap_index option" where
  "index_of_table r key name = Option.bind (table_of r key) (\<lambda>t. st_indexes t name)"

subsection \<open>More inputs for the worked examples\<close>

definition plain_indexed :: "string \<Rightarrow> indexed_column" where
  "plain_indexed n =
     \<lparr> ic_name = n, ic_keyAsName = False, ic_type = ''PgInteger'',
       ic_indexConfig = \<lparr> ixc_order = None, ixc_nulls = None, ixc_opClass = None \<rparr> \<rparr>"

definition vector_indexed :: "string option \<Rightarrow> indexed_column" where
  "vector_indexed opClass =
     \<lparr> ic_name = ''embedding'', ic_keyAsName = False, ic_type = ''PgVector'',
       ic_indexConfig = \<lparr> ixc_order = None, ixc_nulls = None, ixc_opClass = opClass \<rparr> \<rparr>"

definition users_ref :: table_ref where
  "users_ref = \<lparr> ref_name = ''users'', ref_schema = None \<rparr>"

definition linked_policy :: pg_policy where
  "linked_policy = empty_policy \<lparr> pol_linkedTable := Some users_ref \<rparr>"

text \<open>Two tables with an inline policy \<^verbatim>\<open>p\<close> each.\<close>

definition two_policy_tables :: drizzleObjects where
  "two_policy_tables =
     empty_objects \<lparr> do_tables :=
       [empty_table \<lparr> tbl_name := ''a'', tbl_policies := [empty_policy] \<rparr>,
        empty_table \<lparr> tbl_name := ''b'', tbl_policies := [empty_policy] \<rparr>] \<rparr>"

text \<open>
  One table with the inline policy \<^verbatim>\<open>p\<close> twice; the policy \<^verbatim>\<open>p\<close> linked twice to a
  table; a table with the inline policy \<^verbatim>\<open>p\<close> and a policy \<^verbatim>\<open>p\<close> linked to it.
\<close>

definition inline_twice_table :: pg_table where
  "inline_twice_table = empty_table \<lparr> tbl_policies := [empty_policy, empty_policy] \<rparr>"

definition inline_twice :: drizzleObjects where
  "inline_twice = empty_objects \<lparr> do_tables := [inline_twice_table] \<rparr>"

definition linked_twice :: drizzleObjects where
  "linked_twice = empty_objects \<lparr> do_policies := [linked_policy, linked_policy] \<rparr>"

definition policy_table :: pg_table where
  "policy_table = empty_table \<lparr> tbl_policies := [empty_policy] \<rparr>"

definition linked_over_inline :: drizzleObjects where
  "linked_over_inline =
     empty_objects \<lparr> do_tables := [policy_table], do_policies := [linked_policy] \<rparr>"

text \<open>The index \<^verbatim>\<open>idx1\<close> on two tables of one schema, and on tables of two schemas.\<close>

definition idx1 :: pg_index where
  "idx1 = empty_index \<lparr> ix_name := Some ''idx1'', ix_columns := [IdxColumn (plain_indexed ''id'')] \<rparr>"

definition a_table :: pg_table where
  "a_table = empty_table \<lparr> tbl_name := ''a'', tbl_indexes := [idx1] \<rparr>"

definition b_table :: pg_table where
  "b_table = empty_table \<lparr> tbl_name := ''b'', tbl_indexes := [idx1] \<rparr>"

definition same_schema_indexes :: drizzleObjects where
  "same_schema_indexes = empty_objects \<lparr> do_tables := [a_table, b_table] \<rparr>"

definition two_schema_indexes :: drizzleObjects where
  "two_schema_indexes =
     empty_objects \<lparr> do_tables := [a_table, b_table \<lparr> tbl_schema := Some ''tenant'' \<rparr>] \<rparr>"

text \<open>
  The table \<^verbatim>\<open>users\<close> with a unique column and a table-level unique constraint that are both
  named \<^verbatim>\<open>users_email_unique\<close>.
\<close>

definition unique_twice_table :: pg_table where
  "unique_twice_table =
     empty_table \<lparr>
       tbl_columns :=
         [empty_column \<lparr> col_name := ''email'', col_isUnique := True,
                         col_uniqueName := Some ''users_email_unique'' \<rparr>],
       tbl_uniqueConstraints :=
         Some [\<lparr> unq_name = Some ''users_email_unique'',
                 unq_columns = [empty_column \<lparr> col_name := ''email'' \<rparr>],
                 unq_nullsNotDistinct = False \<rparr>] \<rparr>"

definition unique_twice :: drizzleObjects where
  "unique_twice = empty_objects \<lparr> do_tables := [unique_twice_table] \<rparr>"

text \<open>An index on a vector column, with or without an operator class.\<close>

definition vector_index :: "string option \<Rightarrow> pg_index" where
  "vector_index opClass =
     empty_index \<lparr> ix_name := Some ''embedding_idx'',
                   ix_columns := [IdxColumn (vector_indexed opClass)],
                   ix_method := Some ''hnsw'' \<rparr>"

definition vector_table :: pg_table where
  "vector_table = empty_table \<lparr> tbl_name := ''items'', tbl_indexes := [vector_index None] \<rparr>"

definition vector_objects :: drizzleObjects where
  "vector_objects = empty_objects \<lparr> do_tables := [vector_table] \<rparr>"

text \<open>An unnamed index on the columns \<^verbatim>\<open>a\<close> and \<^verbatim>\<open>b\<close>, and one with an expression.\<close>

definition ab_index :: pg_index where
  "ab_index = empty_index \<lparr> ix_columns := map IdxColumn [plain_indexed ''a'', plain_indexed ''b''] \<rparr>"

definition sql_index :: pg_index where
  "sql_index =
     empty_index \<lparr> ix_columns := [IdxColumn (plain_indexed ''id''), IdxSQL ''lower(email)''] \<rparr>"

definition sql_table :: pg_table where
  "sql_table = empty_table \<lparr> tbl_indexes := [sql_index] \<rparr>"

definition sql_objects :: drizzleObjects where
  "sql_objects = empty_objects \<lparr> do_tables := [sql_table] \<rparr>"

text \<open>A table and a standalone policy that is linked to no table.\<close>

definition unlinked_policy_objects :: drizzleObjects where
  "unlinked_policy_objects =
     empty_objects \<lparr> do_tables := [empty_table], do_policies := [empty_policy] \<rparr>"

text \<open>
  The schema filter \<^verbatim>\<open>["public"]\<close>, and a table of the schema \<^verbatim>\<open>tenant_a\<close> whose index
  and policies would collide.
\<close>

definition public_only :: config where
  "public_only = empty_config \<lparr> cfg_schemaFilter := Some [''public''] \<rparr>"

definition tenant_table :: pg_table where
  "tenant_table =
     empty_table \<lparr> tbl_name := ''orders'', tbl_schema := Some ''tenant_a'',
                   tbl_indexes := [idx1, idx1], tbl_policies := [empty_policy, empty_policy] \<rparr>"

definition tenant_objects :: drizzleObjects where
  "tenant_objects = empty_objects \<lparr> do_tables := [a_table, tenant_table] \<rparr>"

text \<open>A table without a schema and a table of the schema \<^verbatim>\<open>auth\<close>.\<close>

definition auth_table :: pg_table where
  "auth_table = empty_table \<lparr> tbl_name := ''sessions'', tbl_schema := Some ''auth'' \<rparr>"

definition users_and_sessions :: drizzleObjects where
  "users_and_sessions = empty_objects \<lparr> do_tables := [empty_table, auth_table] \<rparr>"

text \<open>
  The policy \<^verbatim>\<open>p\<close> linked to the table \<^verbatim>\<open>users\<close> and to the table \<^verbatim>\<open>orders\<close>: without the
  tables in the input, and with them.
\<close>

definition orders_ref :: table_ref where
  "orders_ref = \<lparr> ref_name = ''orders'', ref_schema = None \<rparr>"

definition orders_policy :: pg_policy where
  "orders_policy = empty_policy \<lparr> pol_linkedTable := Some orders_ref \<rparr>"

definition linked_elsewhere :: drizzleObjects where
  "linked_elsewhere = empty_objects \<lparr> do_policies := [linked_policy, orders_policy] \<rparr>"

definition linked_apart :: drizzleObjects where
  "linked_apart =
     empty_objects \<lparr> do_tables := [empty_table, empty_table \<lparr> tbl_name := ''orders'' \<rparr>],
                     do_policies := [linked_policy, orders_policy] \<rparr>"

text \<open>
  The index \<^verbatim>\<open>idx1\<close> on a table, and on a second table of the schema an index \<^verbatim>\<open>idx1\<close> on a
  vector column without an operator class.
\<close>

definition duplicate_after_guard :: drizzleObjects where
  "duplicate_after_guard =
     empty_objects \<lparr> do_tables :=
       [a_table,
        b_table \<lparr> tbl_indexes :=
          [idx1 \<lparr> ix_columns := [IdxColumn (vector_indexed None)] \<rparr>] \<rparr>] \<rparr>"

text \<open>
  The table \<^verbatim>\<open>users\<close> with a unique column and a table-level unique constraint that are both
  named \<^verbatim>\<open>constructor\<close>.
\<close>

definition constructor_twice :: drizzleObjects where
  "constructor_twice =
     empty_objects \<lparr> do_tables :=
       [empty_table \<lparr>
          tbl_columns :=
            [empty_column \<lparr> col_name := ''email'', col_isUnique := True,
                            col_uniqueName := Some ''constructor'' \<rparr>],
          tbl_uniqueConstraints :=
            Some [\<lparr> unq_name = Some ''constructor'',
                    unq_columns = [empty_column \<lparr> col_name := ''email'' \<rparr>],
                    unq_nullsNotDistinct = False \<rparr>] \<rparr>] \<rparr>"

text \<open>
  Unnamed indexes with an expression and a vector column without an operator class, in both
  orders.
\<close>

definition expression_then_vector :: drizzleObjects where
  "expression_then_vector =
     empty_objects \<lparr> do_tables :=
       [empty_table \<lparr> tbl_indexes :=
          [empty_index \<lparr> ix_columns :=
             [IdxSQL ''lower(email)'', IdxColumn (vector_indexed None)] \<rparr>] \<rparr>] \<rparr>"

definition vector_then_expression :: drizzleObjects where
  "vector_then_expression =
     empty_objects \<lparr> do_tables :=
       [empty_table \<lparr> tbl_indexes :=
          [empty_index \<lparr> ix_columns :=
             [IdxColumn (vector_indexed None), IdxSQL ''lower(email)''] \<rparr>] \<rparr>] \<rparr>"

section \<open>Properties\<close>

subsection \<open>Evaluation of the built-ins\<close>

lemmas parse_defs =
  parseFloat_lt0_def isWhiteSpace_def unsigned_nonzero_def isDigit_def digits_val_def
  digit_val_def exponent_part_def Let_def

lemma parseFloat_one: "\<not> parseFloat_lt0 ''1''"
  by (simp add: parse_defs)

lemma parseFloat_minus_one: "parseFloat_lt0 ''-1''"
  by (simp add: parse_defs)

lemma buildArrayValues_Inr:
  "buildArrayValues h t vs = Inr ss \<longleftrightarrow>
     length ss = length vs \<and> (\<forall>i < length vs. buildArrayValue h t (vs ! i) = Inr (ss ! i))"
proof (induction vs arbitrary: ss)
  case Nil
  show ?case by auto
next
  case (Cons v vs)
  show ?case
  proof (cases ss)
    case Nil
    then show ?thesis by (auto split: sum.splits)
  next
    case (Cons s ss')
    show ?thesis
      unfolding Cons using Cons.IH[of ss']
      by (auto simp: nth_Cons less_Suc_eq_0_disj split: sum.splits nat.splits)
  qed
qed

lemma buildArrayValues_encoded:
  "\<forall>v \<in> set vs. \<not> isl (buildArrayValue h t v) \<Longrightarrow>
   buildArrayValues h t vs = Inr (map (\<lambda>v. projr (buildArrayValue h t v)) vs)"
  by (induction vs) (auto split: sum.splits)

lemma buildArrayValues_Inl:
  "v \<in> set vs \<Longrightarrow> isl (buildArrayValue h t v) \<Longrightarrow> isl (buildArrayValues h t vs)"
  by (induction vs) (auto split: sum.splits)

lemmas example_defs =
  empty_column_def empty_table_def empty_policy_def empty_objects_def empty_config_def
  example_helpers_def

lemmas value_defs =
  toLowerCase_def lower_char_def capital_letters_def small_letters_def split_head_def
  dec_int_def dec_nat.simps isDigit_def quoted_def single_quoted_def

lemmas input_defs =
  example_defs users_ref_def linked_policy_def inline_twice_table_def inline_twice_def
  linked_twice_def policy_table_def linked_over_inline_def unique_twice_table_def
  unique_twice_def orders_ref_def orders_policy_def linked_elsewhere_def linked_apart_def

lemmas name_defs =
  schema_index_names_def table_index_names_def index_resolved_name_def index_name_of_def
  indexName_def member_name_def member_passes_def table_unique_names_def property_key_def
  unique_name_def cased_def filtered_out_def nullish_def names_in_def

lemmas run_defs =
  drizzleObjectsToSnapshot_def tables_loop_def table_step_def filtered_out_def tableKey_def
  nullish_def or_else_def property_key_def columns_step_def unique_column_def cased_def
  jsonShape_def column_encodes_def columnToSet_def columnIdentity_def columnDefault_def
  uniqueConstraints_step_def unique_name_def foreignKeys_of_def indexes_step_def
  index_member_step_def index_name_of_def indexName_def index_of_def indexColumn_def
  policies_step_def mappedPolicy_def mappedTo_def checks_step_def checks_key_def
  tableRelations_def linked_policy_step_def policies_loop.simps error_log_def schemasObject_def
  Let_def snapshot_of_def table_of_def policy_of_def lookup_def assign_def Object_prototype_def

subsection \<open>Reading and writing properties\<close>

lemma lookup_Undefined: "lookup m k = Undefined \<longleftrightarrow> m k = None \<and> k \<notin> set Object_prototype"
  by (simp add: lookup_def split: option.splits)

lemma lookup_Own: "lookup m k = Own v \<longleftrightarrow> m k = Some v"
  by (simp add: lookup_def split: option.splits)

lemma lookup_Inherited: "lookup m k = Inherited \<longleftrightarrow> m k = None \<and> k \<in> set Object_prototype"
  by (simp add: lookup_def split: option.splits)

lemma lookup_defined: "lookup m k \<noteq> Undefined \<longleftrightarrow> m k \<noteq> None \<or> k \<in> set Object_prototype"
  by (simp add: lookup_def split: option.splits)

lemma proto_inherited: "''__proto__'' \<in> set Object_prototype"
  by (simp add: Object_prototype_def)

lemma assign_upd: "k \<notin> set Object_prototype \<Longrightarrow> assign m k v = m(k \<mapsto> v)"
  using proto_inherited by (auto simp: assign_def)

lemma assign_other: "k \<noteq> ''__proto__'' \<Longrightarrow> assign m k v = m(k \<mapsto> v)"
  by (simp add: assign_def)

lemma no_dot_inherited: "k \<in> set Object_prototype \<Longrightarrow> CHR ''.'' \<notin> set k"
  by (auto simp: Object_prototype_def)

lemma tableKey_dot: "CHR ''.'' \<in> set (tableKey s n)"
  by (simp add: tableKey_def)

lemma tableKey_own: "tableKey s n \<notin> set Object_prototype"
  using no_dot_inherited[of "tableKey s n"] tableKey_dot[of s n] by blast

lemma assign_tableKey: "assign m (tableKey s n) v = m(tableKey s n \<mapsto> v)"
  by (rule assign_upd[OF tableKey_own])

lemma lookup_tableKey:
  "lookup m (tableKey s n) = (case m (tableKey s n) of None \<Rightarrow> Undefined | Some v \<Rightarrow> Own v)"
  using tableKey_own[of s n] by (simp add: lookup_def split: option.splits)

lemma indexName_own: "indexName tn cs \<noteq> ''__proto__''"
proof
  assume "indexName tn cs = ''__proto__''"
  then have "last (indexName tn cs) = last ''__proto__''" by simp
  then show False by (simp add: indexName_def)
qed

subsection \<open>Lemmas on the loops\<close>

lemma forEach_append:
  "forEach f (xs @ ys) s = (case forEach f xs s of Inl e \<Rightarrow> Inl e | Inr s' \<Rightarrow> forEach f ys s')"
  by (induction xs arbitrary: s) (auto split: sum.splits)

lemma forEach_fails:
  "x \<in> set xs \<Longrightarrow> (\<And>s. isl (f x s)) \<Longrightarrow> isl (forEach f xs s)"
proof (induction xs arbitrary: s)
  case Nil
  then show ?case by simp
next
  case (Cons a xs)
  show ?case
  proof (cases "f a s")
    case (Inl e)
    then show ?thesis by simp
  next
    case (Inr s')
    show ?thesis
    proof (cases "x = a")
      case True
      with Cons.prems(2)[of s] Inr show ?thesis by simp
    next
      case False
      with Cons.prems(1) have "x \<in> set xs" by simp
      from Cons.IH[OF this Cons.prems(2)] Inr show ?thesis by simp
    qed
  qed
qed

lemma forEach_Cons_Inr:
  "forEach f (x # xs) s = Inr s' \<longleftrightarrow> (\<exists>s1. f x s = Inr s1 \<and> forEach f xs s1 = Inr s')"
  by (auto split: sum.splits)

lemma forEach_Cons_Inl:
  "forEach f (x # xs) s = Inl e \<longleftrightarrow>
     (f x s = Inl e \<or> (\<exists>s1. f x s = Inr s1 \<and> forEach f xs s1 = Inl e))"
  by (auto split: sum.splits)

lemma isl_iff: "isl x \<longleftrightarrow> (\<exists>e. x = Inl e)"
  by (cases x) auto

lemma not_isl_iff: "\<not> isl x \<longleftrightarrow> (\<exists>s. x = Inr s)"
  by (cases x) auto

lemma member_step_Inr:
  "index_member_step h casing value m acc = Inr acc' \<longleftrightarrow>
     member_passes value m \<and> acc' = acc @ [member_name h casing m]"
  by (auto simp: index_member_step_def member_passes_def member_name_def split: index_member.splits)

lemma member_step_Inl:
  "index_member_step h casing value m acc = Inl e \<longleftrightarrow>
     \<not> member_passes value m \<and>
     e = (case m of IdxSQL s \<Rightarrow> MissingIndexName | IdxColumn c \<Rightarrow> MissingOperatorClass)"
  by (auto simp: index_member_step_def member_passes_def split: index_member.splits)

lemma members_Inr:
  "forEach (index_member_step h casing value) ms acc = Inr names \<longleftrightarrow>
     (\<forall>m \<in> set ms. member_passes value m) \<and> names = acc @ map (member_name h casing) ms"
proof (induction ms arbitrary: acc)
  case Nil
  show ?case by auto
next
  case (Cons m ms)
  show ?case
    unfolding forEach_Cons_Inr member_step_Inr using Cons.IH by auto
qed

lemma members_pass:
  "\<forall>m \<in> set ms. member_passes value m \<Longrightarrow>
   forEach (index_member_step h casing value) ms acc = Inr (acc @ map (member_name h casing) ms)"
  by (simp add: members_Inr)

lemma members_Inl:
  "\<forall>x \<in> set ms1. member_passes value x \<Longrightarrow> \<not> member_passes value m \<Longrightarrow>
   forEach (index_member_step h casing value) (ms1 @ m # ms2) acc =
     Inl (case m of IdxSQL s \<Rightarrow> MissingIndexName | IdxColumn c \<Rightarrow> MissingOperatorClass)"
proof -
  assume a: "\<forall>x \<in> set ms1. member_passes value x" and b: "\<not> member_passes value m"
  have "index_member_step h casing value m (acc @ map (member_name h casing) ms1) =
      Inl (case m of IdxSQL s \<Rightarrow> MissingIndexName | IdxColumn c \<Rightarrow> MissingOperatorClass)"
    using b by (simp add: member_step_Inl)
  then show ?thesis
    by (simp add: forEach_append members_pass[OF a])
qed

lemma names_in_upd [simp]: "names_in (reg(k \<mapsto> l)) = (names_in reg)(k := l)"
  by (auto simp: names_in_def fun_eq_iff)

lemma names_in_empty [simp]: "names_in Map.empty k = []"
  by (simp add: names_in_def)

lemma indexes_step_Inr:
  "indexes_step h casing tn sch value (reg, obj) = Inr (reg', obj') \<longleftrightarrow>
     (\<forall>m \<in> set (ix_columns value). member_passes value m)
     \<and> (reg (nullish sch ''public'') = None \<longrightarrow> nullish sch ''public'' \<notin> set Object_prototype)
     \<and> index_resolved_name h casing tn value \<notin> set (names_in reg (nullish sch ''public''))
     \<and> reg' = reg(nullish sch ''public'' \<mapsto>
          names_in reg (nullish sch ''public'') @ [index_resolved_name h casing tn value])
     \<and> obj' = assign obj (index_resolved_name h casing tn value)
          (index_of h casing (index_resolved_name h casing tn value) value)"
proof (cases "forEach (index_member_step h casing value) (ix_columns value) []")
  case (Inl e)
  then show ?thesis
    using members_Inr[of h casing "value" "ix_columns value" "[]"]
    by (auto simp: indexes_step_def)
next
  case (Inr names)
  then have n: "names = map (member_name h casing) (ix_columns value)"
    and p: "\<forall>m \<in> set (ix_columns value). member_passes value m"
    using members_Inr[of h casing "value" "ix_columns value" "[]" names] by simp_all
  show ?thesis
  proof (cases "lookup reg (nullish sch ''public'')")
    case Undefined
    then have "reg (nullish sch ''public'') = None" "nullish sch ''public'' \<notin> set Object_prototype"
      by (simp_all add: lookup_Undefined)
    with Inr n p Undefined show ?thesis
      by (auto simp: indexes_step_def index_resolved_name_def names_in_def Let_def assign_upd)
  next
    case (Own l)
    then have "reg (nullish sch ''public'') = Some l" by (simp add: lookup_Own)
    with Inr n p Own show ?thesis
      by (auto simp: indexes_step_def index_resolved_name_def names_in_def Let_def)
  next
    case Inherited
    then have "reg (nullish sch ''public'') = None" "nullish sch ''public'' \<in> set Object_prototype"
      by (simp_all add: lookup_Inherited)
    with Inr Inherited show ?thesis
      by (auto simp: indexes_step_def Let_def)
  qed
qed

lemma indexes_step_duplicate:
  assumes "\<forall>m \<in> set (ix_columns value). member_passes value m"
    and "index_resolved_name h casing tn value \<in> set (names_in reg (nullish sch ''public''))"
  shows "indexes_step h casing tn sch value (reg, obj) = Inl DuplicateIndexName"
proof -
  from assms(2) obtain l where l: "reg (nullish sch ''public'') = Some l"
    by (cases "reg (nullish sch ''public'')") (auto simp: names_in_def)
  then have "lookup reg (nullish sch ''public'') = Own l" by (simp add: lookup_Own)
  with assms(2) l show ?thesis
    by (simp add: indexes_step_def members_pass[OF assms(1)] index_resolved_name_def names_in_def
        Let_def)
qed

lemma indexes_loop_Inr:
  "forEach (indexes_step h casing tn sch) ixs (reg, obj) = Inr (reg', obj') \<Longrightarrow>
   names_in reg' = (names_in reg)(nullish sch ''public'' :=
       names_in reg (nullish sch ''public'') @ map (index_resolved_name h casing tn) ixs)
   \<and> distinct (map (index_resolved_name h casing tn) ixs)
   \<and> set (map (index_resolved_name h casing tn) ixs) \<inter> set (names_in reg (nullish sch ''public'')) = {}"
proof (induction ixs arbitrary: reg obj)
  case Nil
  then show ?case by auto
next
  case (Cons i ixs)
  from Cons.prems obtain reg1 obj1 where
    step: "indexes_step h casing tn sch i (reg, obj) = Inr (reg1, obj1)" and
    rest: "forEach (indexes_step h casing tn sch) ixs (reg1, obj1) = Inr (reg', obj')"
    by (auto split: sum.splits)
  from step have s1: "index_resolved_name h casing tn i \<notin> set (names_in reg (nullish sch ''public''))"
    and r1: "reg1 = reg(nullish sch ''public'' \<mapsto>
          names_in reg (nullish sch ''public'') @ [index_resolved_name h casing tn i])"
    by (simp_all add: indexes_step_Inr)
  have n1: "names_in reg1 = (names_in reg)(nullish sch ''public'' :=
          names_in reg (nullish sch ''public'') @ [index_resolved_name h casing tn i])"
    using r1 by simp
  from Cons.IH[OF rest] s1 show ?case
    unfolding n1 by auto
qed

lemma indexes_loop_total:
  "\<forall>i \<in> set ixs. \<forall>m \<in> set (ix_columns i). member_passes i m \<Longrightarrow>
   ixs \<noteq> [] \<longrightarrow> nullish sch ''public'' \<notin> set Object_prototype \<Longrightarrow>
   distinct (names_in reg (nullish sch ''public'') @ map (index_resolved_name h casing tn) ixs) \<Longrightarrow>
   \<exists>reg' obj'. forEach (indexes_step h casing tn sch) ixs (reg, obj) = Inr (reg', obj')
     \<and> names_in reg' = (names_in reg)(nullish sch ''public'' :=
          names_in reg (nullish sch ''public'') @ map (index_resolved_name h casing tn) ixs)"
proof (induction ixs arbitrary: reg obj)
  case Nil
  then show ?case by auto
next
  case (Cons i ixs)
  let ?sk = "nullish sch ''public''"
  let ?n = "index_resolved_name h casing tn i"
  let ?reg1 = "reg(?sk \<mapsto> names_in reg ?sk @ [?n])"
  let ?obj1 = "assign obj ?n (index_of h casing ?n i)"
  from Cons.prems have step: "indexes_step h casing tn sch i (reg, obj) = Inr (?reg1, ?obj1)"
    by (simp add: indexes_step_Inr)
  have n1: "names_in ?reg1 = (names_in reg)(?sk := names_in reg ?sk @ [?n])" by simp
  from Cons.prems have d: "distinct (names_in ?reg1 ?sk @ map (index_resolved_name h casing tn) ixs)"
    unfolding n1 by simp
  from Cons.prems have p: "\<forall>i \<in> set ixs. \<forall>m \<in> set (ix_columns i). member_passes i m"
    and q: "ixs \<noteq> [] \<longrightarrow> ?sk \<notin> set Object_prototype" by simp_all
  from Cons.IH[OF p q d, of ?obj1] obtain reg' obj' where
    rest: "forEach (indexes_step h casing tn sch) ixs (?reg1, ?obj1) = Inr (reg', obj')"
    and nm: "names_in reg' = (names_in ?reg1)(?sk :=
          names_in ?reg1 ?sk @ map (index_resolved_name h casing tn) ixs)"
    by blast
  from step rest have "forEach (indexes_step h casing tn sch) (i # ixs) (reg, obj) = Inr (reg', obj')"
    by simp
  moreover from nm have "names_in reg' = (names_in reg)(?sk :=
          names_in reg ?sk @ map (index_resolved_name h casing tn) (i # ixs))"
    unfolding n1 by (simp add: fun_eq_iff)
  ultimately show ?case by blast
qed

lemma unique_column_Inr:
  "unique_column name c uq = Inr uq' \<Longrightarrow>
     (if col_isUnique c
      then uq (property_key (col_uniqueName c)) = None
           \<and> property_key (col_uniqueName c) \<notin> set Object_prototype
           \<and> dom uq' = insert (property_key (col_uniqueName c)) (dom uq)
      else uq' = uq)"
  by (auto simp: unique_column_def lookup_Undefined assign_upd split: if_splits property.splits)

lemma unique_column_Inl:
  "unique_column name c uq = Inl e \<longleftrightarrow>
     col_isUnique c \<and>
     (uq (property_key (col_uniqueName c)) \<noteq> None \<and> e = DuplicateUniqueConstraint
      \<or> uq (property_key (col_uniqueName c)) = None
        \<and> property_key (col_uniqueName c) \<in> set Object_prototype \<and> e = TypeError)"
  by (auto simp: unique_column_def lookup_Undefined lookup_Own lookup_Inherited
      split: if_splits property.splits)

lemma columns_step_Inr:
  "columns_step h casing tn sch c (co, uq) = Inr (co', uq') \<Longrightarrow>
     (if col_isUnique c
      then uq (property_key (col_uniqueName c)) = None
           \<and> property_key (col_uniqueName c) \<notin> set Object_prototype
           \<and> dom uq' = insert (property_key (col_uniqueName c)) (dom uq)
      else uq' = uq)"
proof -
  assume "columns_step h casing tn sch c (co, uq) = Inr (co', uq')"
  then have "unique_column (cased h casing c) c uq = Inr uq'"
    by (auto simp: columns_step_def Let_def split: sum.splits)
  then show ?thesis by (rule unique_column_Inr)
qed

lemma columns_step_Inl:
  "columns_step h casing tn sch c (co, uq) = Inl e \<Longrightarrow>
   column_encodes h c \<Longrightarrow>
     col_isUnique c \<and>
     (uq (property_key (col_uniqueName c)) \<noteq> None \<and> e = DuplicateUniqueConstraint
      \<or> uq (property_key (col_uniqueName c)) = None
        \<and> property_key (col_uniqueName c) \<in> set Object_prototype \<and> e = TypeError)"
proof -
  assume a: "columns_step h casing tn sch c (co, uq) = Inl e" and d: "column_encodes h c"
  from d obtain v where "columnDefault h c = Inr v"
    by (cases "columnDefault h c") (auto simp: column_encodes_def)
  moreover from d obtain js where "jsonShape h c = Inr js"
    by (cases "jsonShape h c") (auto simp: column_encodes_def)
  ultimately have "unique_column (cased h casing c) c uq = Inl e"
    using a by (auto simp: columns_step_def Let_def split: sum.splits)
  then show ?thesis by (simp add: unique_column_Inl)
qed

lemma columns_step_total:
  assumes "col_isUnique c \<longrightarrow> uq (property_key (col_uniqueName c)) = None
      \<and> property_key (col_uniqueName c) \<notin> set Object_prototype"
    and "column_encodes h c"
  shows "\<exists>co' uq'. columns_step h casing tn sch c (co, uq) = Inr (co', uq')"
proof (cases "columns_step h casing tn sch c (co, uq)")
  case (Inl e)
  from columns_step_Inl[OF Inl assms(2)] assms(1) show ?thesis by auto
next
  case (Inr p)
  then show ?thesis by (cases p) auto
qed

lemma columns_loop_Inr:
  "forEach (columns_step h casing tn sch) cs (co, uq) = Inr (co', uq') \<Longrightarrow>
   distinct (map (\<lambda>c. property_key (col_uniqueName c)) (filter col_isUnique cs))
   \<and> set (map (\<lambda>c. property_key (col_uniqueName c)) (filter col_isUnique cs)) \<inter> dom uq = {}
   \<and> dom uq' = dom uq \<union> set (map (\<lambda>c. property_key (col_uniqueName c)) (filter col_isUnique cs))"
proof (induction cs arbitrary: co uq)
  case Nil
  then show ?case by auto
next
  case (Cons c cs)
  from Cons.prems obtain co1 uq1 where
    step: "columns_step h casing tn sch c (co, uq) = Inr (co1, uq1)" and
    rest: "forEach (columns_step h casing tn sch) cs (co1, uq1) = Inr (co', uq')"
    by (auto split: sum.splits)
  from columns_step_Inr[OF step] Cons.IH[OF rest] show ?case
    by (auto split: if_splits)
qed

lemma columns_loop_Inl:
  "forEach (columns_step h casing tn sch) cs st = Inl e \<Longrightarrow>
   \<forall>n \<in> set (map (\<lambda>c. property_key (col_uniqueName c)) (filter col_isUnique cs)).
      n \<notin> set Object_prototype \<Longrightarrow>
   \<forall>c \<in> set cs. column_encodes h c \<Longrightarrow>
   e = DuplicateUniqueConstraint"
proof (induction cs arbitrary: st)
  case Nil
  then show ?case by simp
next
  case (Cons c cs)
  obtain co uq where st: "st = (co, uq)" by (cases st)
  from Cons.prems(1) consider
    (here) "columns_step h casing tn sch c (co, uq) = Inl e"
    | (later) s1 where "forEach (columns_step h casing tn sch) cs s1 = Inl e"
    unfolding forEach_Cons_Inl st by blast
  then show ?case
  proof cases
    case here
    from Cons.prems(3) have "column_encodes h c" by simp
    from columns_step_Inl[OF here this] Cons.prems(2) show ?thesis by auto
  next
    case later
    from Cons.prems(2) have n: "\<forall>n \<in> set (map (\<lambda>c. property_key (col_uniqueName c))
        (filter col_isUnique cs)). n \<notin> set Object_prototype" by simp
    from Cons.prems(3) have d: "\<forall>c \<in> set cs. column_encodes h c" by simp
    from Cons.IH[OF later n d] show ?thesis .
  qed
qed

lemma columns_loop_total:
  "distinct (map (\<lambda>c. property_key (col_uniqueName c)) (filter col_isUnique cs)) \<Longrightarrow>
   set (map (\<lambda>c. property_key (col_uniqueName c)) (filter col_isUnique cs)) \<inter> dom uq = {} \<Longrightarrow>
   \<forall>n \<in> set (map (\<lambda>c. property_key (col_uniqueName c)) (filter col_isUnique cs)).
      n \<notin> set Object_prototype \<Longrightarrow>
   \<forall>c \<in> set cs. column_encodes h c \<Longrightarrow>
   \<exists>co' uq'. forEach (columns_step h casing tn sch) cs (co, uq) = Inr (co', uq')"
proof (induction cs arbitrary: co uq)
  case Nil
  then show ?case by simp
next
  case (Cons c cs)
  from Cons.prems have u: "col_isUnique c \<longrightarrow> uq (property_key (col_uniqueName c)) = None
      \<and> property_key (col_uniqueName c) \<notin> set Object_prototype"
    by (auto simp: dom_def)
  from Cons.prems have dc: "column_encodes h c" by simp
  from columns_step_total[where c = c and uq = uq and h = h and casing = casing and tn = tn
      and sch = sch and co = co, OF u dc] obtain co1 uq1 where
    step: "columns_step h casing tn sch c (co, uq) = Inr (co1, uq1)" by blast
  from columns_step_Inr[OF step] Cons.prems
  have d: "distinct (map (\<lambda>c. property_key (col_uniqueName c)) (filter col_isUnique cs))"
    and i: "set (map (\<lambda>c. property_key (col_uniqueName c)) (filter col_isUnique cs)) \<inter> dom uq1 = {}"
    and n: "\<forall>n \<in> set (map (\<lambda>c. property_key (col_uniqueName c)) (filter col_isUnique cs)).
      n \<notin> set Object_prototype"
    and ds: "\<forall>c \<in> set cs. column_encodes h c"
    by (auto split: if_splits)
  from Cons.IH[OF d i n ds, of co1] step show ?case by simp
qed

lemma unique_step_Inr:
  "uniqueConstraints_step h casing tn u uq = Inr uq' \<Longrightarrow>
   uq (unique_name h casing tn u) = None \<and> unique_name h casing tn u \<notin> set Object_prototype
   \<and> dom uq' = insert (unique_name h casing tn u) (dom uq)"
  by (auto simp: uniqueConstraints_step_def Let_def lookup_Undefined assign_upd
      split: property.splits)

lemma unique_step_Inl:
  "uniqueConstraints_step h casing tn u uq = Inl e \<longleftrightarrow>
   (uq (unique_name h casing tn u) \<noteq> None \<and> e = DuplicateUniqueConstraint
    \<or> uq (unique_name h casing tn u) = None \<and> unique_name h casing tn u \<in> set Object_prototype
      \<and> e = TypeError)"
  by (auto simp: uniqueConstraints_step_def Let_def lookup_Undefined lookup_Own lookup_Inherited
      split: property.splits)

lemma unique_step_total:
  "uq (unique_name h casing tn u) = None \<Longrightarrow> unique_name h casing tn u \<notin> set Object_prototype \<Longrightarrow>
   \<exists>uq'. uniqueConstraints_step h casing tn u uq = Inr uq'"
  by (cases "uniqueConstraints_step h casing tn u uq") (auto simp: unique_step_Inl)

lemma unique_loop_Inr:
  "forEach (uniqueConstraints_step h casing tn) us uq = Inr uq' \<Longrightarrow>
   distinct (map (unique_name h casing tn) us)
   \<and> set (map (unique_name h casing tn) us) \<inter> dom uq = {}
   \<and> dom uq' = dom uq \<union> set (map (unique_name h casing tn) us)"
proof (induction us arbitrary: uq)
  case Nil
  then show ?case by auto
next
  case (Cons u us)
  from Cons.prems obtain uq1 where
    step: "uniqueConstraints_step h casing tn u uq = Inr uq1" and
    rest: "forEach (uniqueConstraints_step h casing tn) us uq1 = Inr uq'"
    by (auto split: sum.splits)
  from unique_step_Inr[OF step] Cons.IH[OF rest] show ?case
    by auto
qed

lemma unique_loop_Inl:
  "forEach (uniqueConstraints_step h casing tn) us uq = Inl e \<Longrightarrow>
   \<forall>n \<in> set (map (unique_name h casing tn) us). n \<notin> set Object_prototype \<Longrightarrow>
   e = DuplicateUniqueConstraint"
proof (induction us arbitrary: uq)
  case Nil
  then show ?case by simp
next
  case (Cons u us)
  from Cons.prems(1) consider
    (here) "uniqueConstraints_step h casing tn u uq = Inl e"
    | (later) s1 where "forEach (uniqueConstraints_step h casing tn) us s1 = Inl e"
    unfolding forEach_Cons_Inl by blast
  then show ?case
  proof cases
    case here
    with Cons.prems(2) show ?thesis by (auto simp: unique_step_Inl)
  next
    case later
    from Cons.prems(2) have "\<forall>n \<in> set (map (unique_name h casing tn) us). n \<notin> set Object_prototype"
      by simp
    from Cons.IH[OF later this] show ?thesis .
  qed
qed

lemma unique_loop_total:
  "distinct (map (unique_name h casing tn) us) \<Longrightarrow>
   set (map (unique_name h casing tn) us) \<inter> dom uq = {} \<Longrightarrow>
   \<forall>n \<in> set (map (unique_name h casing tn) us). n \<notin> set Object_prototype \<Longrightarrow>
   \<exists>uq'. forEach (uniqueConstraints_step h casing tn) us uq = Inr uq'"
proof (induction us arbitrary: uq)
  case Nil
  then show ?case by simp
next
  case (Cons u us)
  from Cons.prems have "uq (unique_name h casing tn u) = None"
    and "unique_name h casing tn u \<notin> set Object_prototype"
    by (auto simp: dom_def)
  from unique_step_total[where uq = uq and h = h and casing = casing and tn = tn and u = u,
      OF this] obtain uq1 where
    step: "uniqueConstraints_step h casing tn u uq = Inr uq1" by blast
  from unique_step_Inr[OF step] Cons.prems
  have d: "distinct (map (unique_name h casing tn) us)"
    and i: "set (map (unique_name h casing tn) us) \<inter> dom uq1 = {}"
    and n: "\<forall>n \<in> set (map (unique_name h casing tn) us). n \<notin> set Object_prototype"
    by auto
  from Cons.IH[OF d i n] step show ?case by simp
qed

text \<open>The columns and the unique constraints of a table, one loop after the other.\<close>

lemma unique_phase_total:
  assumes "distinct (table_unique_names h casing t)"
    and "\<forall>n \<in> set (table_unique_names h casing t). n \<notin> set Object_prototype"
    and ds: "\<forall>c \<in> set (tbl_columns t). column_encodes h c"
  shows "\<exists>co uq uq'.
      forEach (columns_step h casing (tbl_name t) sch) (tbl_columns t) (Map.empty, Map.empty)
        = Inr (co, uq)
      \<and> forEach (uniqueConstraints_step h casing (tbl_name t))
          (nullish (tbl_uniqueConstraints t) []) uq = Inr uq'"
proof -
  let ?cn = "map (\<lambda>c. property_key (col_uniqueName c)) (filter col_isUnique (tbl_columns t))"
  let ?un = "map (unique_name h casing (tbl_name t)) (nullish (tbl_uniqueConstraints t) [])"
  from assms(1,2) have d1: "distinct ?cn" and d2: "distinct ?un" and dj: "set ?cn \<inter> set ?un = {}"
    and n1: "\<forall>n \<in> set ?cn. n \<notin> set Object_prototype"
    and n2: "\<forall>n \<in> set ?un. n \<notin> set Object_prototype"
    by (auto simp: table_unique_names_def)
  have e: "set ?cn \<inter> dom (Map.empty :: string \<rightharpoonup> snap_unique) = {}" by simp
  from columns_loop_total[OF d1 e n1 ds, of casing "tbl_name t" sch Map.empty] obtain co uq where
    c: "forEach (columns_step h casing (tbl_name t) sch) (tbl_columns t) (Map.empty, Map.empty)
        = Inr (co, uq)" by blast
  from columns_loop_Inr[OF c] have "dom uq = set ?cn" by simp
  with dj have "set ?un \<inter> dom uq = {}" by auto
  from unique_loop_total[OF d2 this n2] c show ?thesis by blast
qed

lemma table_step_filtered:
  "filtered_out sf (tbl_schema t) \<Longrightarrow> table_step h casing sf rel t st = Inr st"
  by (cases st) (simp add: table_step_def)

lemma table_step_unique:
  assumes nf: "\<not> filtered_out sf (tbl_schema t)"
    and nd: "\<not> distinct (table_unique_names h casing t)"
    and ni: "\<forall>n \<in> set (table_unique_names h casing t). n \<notin> set Object_prototype"
    and ds: "\<forall>c \<in> set (tbl_columns t). column_encodes h c"
  shows "table_step h casing sf rel t st = Inl DuplicateUniqueConstraint"
proof -
  obtain res reg where st: "st = (res, reg)" by (cases st)
  from ni have n1: "\<forall>n \<in> set (map (\<lambda>c. property_key (col_uniqueName c))
        (filter col_isUnique (tbl_columns t))). n \<notin> set Object_prototype"
    and n2: "\<forall>n \<in> set (map (unique_name h casing (tbl_name t))
        (nullish (tbl_uniqueConstraints t) [])). n \<notin> set Object_prototype"
    by (auto simp: table_unique_names_def)
  show ?thesis
  proof (cases "forEach (columns_step h casing (tbl_name t) (tbl_schema t)) (tbl_columns t)
              (Map.empty, Map.empty)")
    case (Inl e)
    with columns_loop_Inl[OF Inl n1 ds] nf show ?thesis
      by (simp add: table_step_def st)
  next
    case (Inr p)
    obtain co uq where p: "p = (co, uq)" by (cases p)
    from columns_loop_Inr[OF Inr[unfolded p]]
    have d1: "distinct (map (\<lambda>c. property_key (col_uniqueName c)) (filter col_isUnique (tbl_columns t)))"
      and dom1: "dom uq = set (map (\<lambda>c. property_key (col_uniqueName c)) (filter col_isUnique (tbl_columns t)))"
      by auto
    show ?thesis
    proof (cases "forEach (uniqueConstraints_step h casing (tbl_name t))
              (nullish (tbl_uniqueConstraints t) []) uq")
      case (Inl e)
      with unique_loop_Inl[OF Inl n2] nf Inr p show ?thesis
        by (simp add: table_step_def st Let_def)
    next
      case (Inr uq')
      from unique_loop_Inr[OF Inr] d1 dom1 have "distinct (table_unique_names h casing t)"
        by (auto simp: table_unique_names_def)
      with nd show ?thesis by simp
    qed
  qed
qed

lemma table_step_unique_isl:
  assumes nf: "\<not> filtered_out sf (tbl_schema t)"
    and nd: "\<not> distinct (table_unique_names h casing t)"
  shows "isl (table_step h casing sf rel t st)"
proof -
  obtain res reg where st: "st = (res, reg)" by (cases st)
  show ?thesis
  proof (cases "forEach (columns_step h casing (tbl_name t) (tbl_schema t)) (tbl_columns t)
              (Map.empty, Map.empty)")
    case (Inl e)
    with nf show ?thesis
      by (simp add: table_step_def st)
  next
    case (Inr p)
    obtain co uq where p: "p = (co, uq)" by (cases p)
    from columns_loop_Inr[OF Inr[unfolded p]]
    have d1: "distinct (map (\<lambda>c. property_key (col_uniqueName c)) (filter col_isUnique (tbl_columns t)))"
      and dom1: "dom uq = set (map (\<lambda>c. property_key (col_uniqueName c)) (filter col_isUnique (tbl_columns t)))"
      by auto
    show ?thesis
    proof (cases "forEach (uniqueConstraints_step h casing (tbl_name t))
              (nullish (tbl_uniqueConstraints t) []) uq")
      case (Inl e)
      with nf Inr p show ?thesis
        by (simp add: table_step_def st Let_def)
    next
      case (Inr uq')
      from unique_loop_Inr[OF Inr] d1 dom1 have "distinct (table_unique_names h casing t)"
        by (auto simp: table_unique_names_def)
      with nd show ?thesis by simp
    qed
  qed
qed

text \<open>A table whose unique constraints convert fails with the error of its indexes.\<close>

lemma table_step_index_error:
  assumes nf: "\<not> filtered_out sf (tbl_schema t)"
    and d: "distinct (table_unique_names h casing t)"
    and ni: "\<forall>n \<in> set (table_unique_names h casing t). n \<notin> set Object_prototype"
    and ds: "\<forall>c \<in> set (tbl_columns t). column_encodes h c"
    and ix: "forEach (indexes_step h casing (tbl_name t) (tbl_schema t)) (tbl_indexes t)
        (reg, Map.empty) = Inl e"
  shows "table_step h casing sf rel t (res, reg) = Inl e"
proof -
  from unique_phase_total[OF d ni ds, of "tbl_schema t"] obtain co uq uq' where
    "forEach (columns_step h casing (tbl_name t) (tbl_schema t)) (tbl_columns t)
        (Map.empty, Map.empty) = Inr (co, uq)"
    "forEach (uniqueConstraints_step h casing (tbl_name t))
          (nullish (tbl_uniqueConstraints t) []) uq = Inr uq'"
    by blast
  with nf ix show ?thesis
    by (simp add: table_step_def Let_def)
qed

lemma policies_step_Inr:
  "policies_step p m = Inr m' \<longleftrightarrow>
     m (pol_name p) = None \<and> pol_name p \<notin> set Object_prototype
     \<and> m' = m(pol_name p \<mapsto> mappedPolicy p)"
  by (auto simp: policies_step_def lookup_Undefined assign_upd)

lemma inline_policies_Inr:
  "forEach policies_step ps m = Inr m' \<Longrightarrow>
   distinct (map pol_name ps) \<and> set (map pol_name ps) \<inter> dom m = {}
   \<and> dom m' = dom m \<union> set (map pol_name ps)"
proof (induction ps arbitrary: m)
  case Nil
  then show ?case by auto
next
  case (Cons p ps)
  from Cons.prems obtain m1 where
    step: "policies_step p m = Inr m1" and rest: "forEach policies_step ps m1 = Inr m'"
    by (auto split: sum.splits)
  from step have "m (pol_name p) = None" and "dom m1 = insert (pol_name p) (dom m)"
    by (auto simp: policies_step_Inr)
  with Cons.IH[OF rest] show ?case by auto
qed

lemma table_step_Inr_ex:
  assumes "\<not> filtered_out sf (tbl_schema t)"
    and "table_step h casing sf rel t (res, reg) = Inr (res', reg')"
  shows "\<exists>e io. res' = res(tableKey (tbl_schema t) (tbl_name t) \<mapsto> e)
     \<and> st_name e = tbl_name t \<and> st_schema e = nullish (tbl_schema t) []
     \<and> forEach policies_step (tbl_policies t) Map.empty = Inr (st_policies e)
     \<and> forEach (indexes_step h casing (tbl_name t) (tbl_schema t)) (tbl_indexes t) (reg, Map.empty)
         = Inr (reg', io)"
  using assms
  by (auto simp: table_step_def Let_def assign_tableKey split: sum.splits prod.splits)

lemma table_step_Inr:
  assumes "\<not> filtered_out sf (tbl_schema t)"
    and "table_step h casing sf rel t (res, reg) = Inr (res', reg')"
  obtains e io where "res' = res(tableKey (tbl_schema t) (tbl_name t) \<mapsto> e)"
     and "st_name e = tbl_name t" and "st_schema e = nullish (tbl_schema t) []"
     and "forEach policies_step (tbl_policies t) Map.empty = Inr (st_policies e)"
     and "forEach (indexes_step h casing (tbl_name t) (tbl_schema t)) (tbl_indexes t) (reg, Map.empty)
         = Inr (reg', io)"
proof -
  from table_step_Inr_ex[OF assms] show thesis
    by (elim exE conjE) (rule that)
qed

lemma table_step_isl:
  assumes "\<not> filtered_out sf (tbl_schema t)"
    and "isl (forEach policies_step (tbl_policies t) Map.empty)
         \<or> (\<forall>reg. isl (forEach (indexes_step h casing (tbl_name t) (tbl_schema t)) (tbl_indexes t)
                 (reg, Map.empty)))"
  shows "isl (table_step h casing sf rel t st)"
proof (cases "table_step h casing sf rel t st")
  case (Inl e)
  then show ?thesis by simp
next
  case (Inr st')
  obtain res reg res' reg' where st: "st = (res, reg)" "st' = (res', reg')"
    by (cases st, cases st') auto
  obtain e io where
    upd: "res' = res(tableKey (tbl_schema t) (tbl_name t) \<mapsto> e)"
      and nm: "st_name e = tbl_name t" and sc: "st_schema e = nullish (tbl_schema t) []"
      and pol: "forEach policies_step (tbl_policies t) Map.empty = Inr (st_policies e)"
      and ix: "forEach (indexes_step h casing (tbl_name t) (tbl_schema t)) (tbl_indexes t)
         (reg, Map.empty) = Inr (reg', io)"
    by (rule table_step_Inr[OF assms(1) Inr[unfolded st]])
  from assms(2) show ?thesis
  proof
    assume "isl (forEach policies_step (tbl_policies t) Map.empty)"
    with pol show ?thesis by simp
  next
    assume "\<forall>reg. isl (forEach (indexes_step h casing (tbl_name t) (tbl_schema t)) (tbl_indexes t)
                 (reg, Map.empty))"
    then have "isl (forEach (indexes_step h casing (tbl_name t) (tbl_schema t)) (tbl_indexes t)
                 (reg, Map.empty))" by (rule spec)
    with ix show ?thesis by simp
  qed
qed

lemma tables_loop_isl:
  assumes "t \<in> set ts" and "\<not> filtered_out (cfg_schemaFilter cfg) (tbl_schema t)"
    and "isl (forEach policies_step (tbl_policies t) Map.empty)
         \<or> (\<forall>reg. isl (forEach (indexes_step h (cfg_casing cfg) (tbl_name t) (tbl_schema t))
                 (tbl_indexes t) (reg, Map.empty)))"
  shows "isl (tables_loop h cfg rel ts st)"
  unfolding tables_loop_def
  by (rule forEach_fails[OF assms(1)]) (rule table_step_isl[OF assms(2,3)])

lemma conv_tables_Inl:
  "tables_loop h cfg (do_relations objs) (do_tables objs) (Map.empty, Map.empty) = Inl e \<Longrightarrow>
   drizzleObjectsToSnapshot h objs cfg = (error_log e, Inl e)"
  by (simp add: drizzleObjectsToSnapshot_def)

lemma conv_tables_isl:
  "isl (tables_loop h cfg (do_relations objs) (do_tables objs) (Map.empty, Map.empty)) \<Longrightarrow>
   \<exists>e. snd (drizzleObjectsToSnapshot h objs cfg) = Inl e"
  by (auto simp: isl_iff conv_tables_Inl)

lemma conv_Inr_tables:
  "drizzleObjectsToSnapshot h objs cfg = (log, Inr s) \<Longrightarrow>
   \<exists>res reg ptr. tables_loop h cfg (do_relations objs) (do_tables objs) (Map.empty, Map.empty)
        = Inr (res, reg)
     \<and> policies_loop (do_policies objs) (res, Map.empty) = (log, Inr (s_tables s, ptr))
     \<and> s_policies s = ptr"
  by (auto simp: drizzleObjectsToSnapshot_def Let_def split: sum.splits prod.splits)

lemma schema_index_names_Cons:
  "schema_index_names h cfg (t # ts) sk =
     (if \<not> filtered_out (cfg_schemaFilter cfg) (tbl_schema t) \<and> nullish (tbl_schema t) ''public'' = sk
      then table_index_names h (cfg_casing cfg) t else []) @ schema_index_names h cfg ts sk"
  by (simp add: schema_index_names_def)

lemma tables_loop_registry:
  "tables_loop h cfg rel ts (res, reg) = Inr (res', reg') \<Longrightarrow>
   \<forall>sk. distinct (names_in reg sk) \<Longrightarrow>
   (\<forall>sk. names_in reg' sk = names_in reg sk @ schema_index_names h cfg ts sk)
   \<and> (\<forall>sk. distinct (names_in reg' sk))"
proof (induction ts arbitrary: res reg)
  case Nil
  then show ?case by (simp add: tables_loop_def schema_index_names_def)
next
  case (Cons t ts)
  from Cons.prems(1) obtain res1 reg1 where
    step: "table_step h (cfg_casing cfg) (cfg_schemaFilter cfg) rel t (res, reg) = Inr (res1, reg1)"
    and rest: "tables_loop h cfg rel ts (res1, reg1) = Inr (res', reg')"
    by (auto simp: tables_loop_def split: sum.splits)
  show ?case
  proof (cases "filtered_out (cfg_schemaFilter cfg) (tbl_schema t)")
    case True
    with step have eq: "reg1 = reg" "res1 = res" by (simp_all add: table_step_filtered)
    from Cons.IH[OF rest[unfolded eq] Cons.prems(2)]
    have a: "\<forall>sk. names_in reg' sk = names_in reg sk @ schema_index_names h cfg ts sk"
      and b: "\<forall>sk. distinct (names_in reg' sk)" by blast+
    from a True have "\<forall>sk. names_in reg' sk = names_in reg sk @ schema_index_names h cfg (t # ts) sk"
      by (simp add: schema_index_names_Cons)
    with b show ?thesis by blast
  next
    case False
    obtain e io where
      upd: "res1 = res(tableKey (tbl_schema t) (tbl_name t) \<mapsto> e)"
      and nm: "st_name e = tbl_name t" and sc: "st_schema e = nullish (tbl_schema t) []"
      and pol: "forEach policies_step (tbl_policies t) Map.empty = Inr (st_policies e)"
      and ix: "forEach (indexes_step h (cfg_casing cfg) (tbl_name t) (tbl_schema t)) (tbl_indexes t)
         (reg, Map.empty) = Inr (reg1, io)"
      by (rule table_step_Inr[OF False step])
    from indexes_loop_Inr[OF ix]
    have n1: "names_in reg1 = (names_in reg)(nullish (tbl_schema t) ''public'' :=
         names_in reg (nullish (tbl_schema t) ''public'') @ table_index_names h (cfg_casing cfg) t)"
      and d: "distinct (table_index_names h (cfg_casing cfg) t)"
      and dj: "set (table_index_names h (cfg_casing cfg) t)
           \<inter> set (names_in reg (nullish (tbl_schema t) ''public'')) = {}"
      by (simp_all add: table_index_names_def)
    have d1: "\<forall>sk. distinct (names_in reg1 sk)"
      using Cons.prems(2) d dj unfolding n1 by auto
    from Cons.IH[OF rest d1]
    have a: "\<forall>sk. names_in reg' sk = names_in reg1 sk @ schema_index_names h cfg ts sk"
      and b: "\<forall>sk. distinct (names_in reg' sk)" by blast+
    from a False have "\<forall>sk. names_in reg' sk = names_in reg sk @ schema_index_names h cfg (t # ts) sk"
      unfolding n1 by (simp add: schema_index_names_Cons)
    with b show ?thesis by blast
  qed
qed

lemma tables_loop_names:
  assumes "tables_loop h cfg rel ts (Map.empty, Map.empty) = Inr (res, reg)"
  shows "names_in reg sk = schema_index_names h cfg ts sk"
proof -
  have "\<forall>sk. distinct (names_in (Map.empty :: string \<rightharpoonup> string list) sk)" by simp
  from tables_loop_registry[OF assms this] show ?thesis by simp
qed

lemma tables_loop_distinct:
  assumes "tables_loop h cfg rel ts (Map.empty, Map.empty) = Inr st"
  shows "distinct (schema_index_names h cfg ts sk)"
proof -
  obtain res' reg' where st: "st = (res', reg')" by (cases st)
  have "\<forall>sk. distinct (names_in (Map.empty :: string \<rightharpoonup> string list) sk)" by simp
  from tables_loop_registry[OF assms[unfolded st] this]
  have a: "names_in reg' sk = names_in Map.empty sk @ schema_index_names h cfg ts sk"
    and b: "distinct (names_in reg' sk)" by blast+
  from b show ?thesis unfolding a by simp
qed

lemma tables_loop_other_keys:
  "tables_loop h cfg rel ts (res, reg) = Inr (res', reg') \<Longrightarrow>
   \<forall>t \<in> set ts. filtered_out (cfg_schemaFilter cfg) (tbl_schema t)
      \<or> tableKey (tbl_schema t) (tbl_name t) \<noteq> k \<Longrightarrow>
   res' k = res k"
proof (induction ts arbitrary: res reg)
  case Nil
  then show ?case by (simp add: tables_loop_def)
next
  case (Cons t ts)
  from Cons.prems(1) obtain res1 reg1 where
    step: "table_step h (cfg_casing cfg) (cfg_schemaFilter cfg) rel t (res, reg) = Inr (res1, reg1)"
    and rest: "tables_loop h cfg rel ts (res1, reg1) = Inr (res', reg')"
    by (auto simp: tables_loop_def split: sum.splits)
  from Cons.prems(2) have tl: "\<forall>t \<in> set ts. filtered_out (cfg_schemaFilter cfg) (tbl_schema t)
      \<or> tableKey (tbl_schema t) (tbl_name t) \<noteq> k" by simp
  have "res1 k = res k"
  proof (cases "filtered_out (cfg_schemaFilter cfg) (tbl_schema t)")
    case True
    with step show ?thesis by (simp add: table_step_filtered)
  next
    case False
    with Cons.prems(2) have "tableKey (tbl_schema t) (tbl_name t) \<noteq> k" by simp
    moreover obtain e io where
      upd: "res1 = res(tableKey (tbl_schema t) (tbl_name t) \<mapsto> e)"
      and nm: "st_name e = tbl_name t" and sc: "st_schema e = nullish (tbl_schema t) []"
      and pol: "forEach policies_step (tbl_policies t) Map.empty = Inr (st_policies e)"
      and ix: "forEach (indexes_step h (cfg_casing cfg) (tbl_name t) (tbl_schema t)) (tbl_indexes t)
         (reg, Map.empty) = Inr (reg1, io)"
      by (rule table_step_Inr[OF False step])
    ultimately show ?thesis by simp
  qed
  with Cons.IH[OF rest tl] show ?case by simp
qed

lemma tables_loop_append:
  "tables_loop h cfg rel (xs @ ys) st =
     (case tables_loop h cfg rel xs st of Inl e \<Rightarrow> Inl e | Inr st' \<Rightarrow> tables_loop h cfg rel ys st')"
  by (auto simp: tables_loop_def forEach_append split: sum.splits)

lemma tables_loop_entry:
  assumes loop: "tables_loop h cfg rel (ts1 @ t # ts2) st = Inr (res', reg')"
    and nf: "\<not> filtered_out (cfg_schemaFilter cfg) (tbl_schema t)"
    and last: "\<forall>t' \<in> set ts2. filtered_out (cfg_schemaFilter cfg) (tbl_schema t')
        \<or> tableKey (tbl_schema t') (tbl_name t') \<noteq> tableKey (tbl_schema t) (tbl_name t)"
  shows "\<exists>e. res' (tableKey (tbl_schema t) (tbl_name t)) = Some e
     \<and> st_name e = tbl_name t \<and> st_schema e = nullish (tbl_schema t) []
     \<and> forEach policies_step (tbl_policies t) Map.empty = Inr (st_policies e)"
proof -
  from loop obtain st1 where l1: "tables_loop h cfg rel ts1 st = Inr st1"
    and l2: "tables_loop h cfg rel (t # ts2) st1 = Inr (res', reg')"
    by (auto simp: tables_loop_append split: sum.splits)
  obtain res1 reg1 where st1: "st1 = (res1, reg1)" by (cases st1)
  from l2 obtain res2 reg2 where
    step: "table_step h (cfg_casing cfg) (cfg_schemaFilter cfg) rel t (res1, reg1) = Inr (res2, reg2)"
    and rest: "tables_loop h cfg rel ts2 (res2, reg2) = Inr (res', reg')"
    by (auto simp: tables_loop_def st1 split: sum.splits)
  obtain e io where
    upd: "res2 = res1(tableKey (tbl_schema t) (tbl_name t) \<mapsto> e)"
      and nm: "st_name e = tbl_name t" and sc: "st_schema e = nullish (tbl_schema t) []"
      and pol: "forEach policies_step (tbl_policies t) Map.empty = Inr (st_policies e)"
      and ix: "forEach (indexes_step h (cfg_casing cfg) (tbl_name t) (tbl_schema t)) (tbl_indexes t)
         (reg1, Map.empty) = Inr (reg2, io)"
    by (rule table_step_Inr[OF nf step])
  from tables_loop_other_keys[OF rest last] upd nm sc pol show ?thesis by simp
qed

text \<open>The conversion fails with the error of the index that it reaches.\<close>

lemma conv_index_error:
  assumes tabs: "do_tables objs = tsa @ t # tsb"
    and ixs: "tbl_indexes t = isa @ idx # isb"
    and reach: "reaches_index h cfg (do_relations objs) tsa t isa"
    and step: "\<And>reg obj. names_in reg (nullish (tbl_schema t) ''public'')
          = schema_index_names h cfg tsa (nullish (tbl_schema t) ''public'')
              @ map (index_resolved_name h (cfg_casing cfg) (tbl_name t)) isa
        \<Longrightarrow> indexes_step h (cfg_casing cfg) (tbl_name t) (tbl_schema t) idx (reg, obj) = Inl e"
  shows "drizzleObjectsToSnapshot h objs cfg = (error_log e, Inl e)"
proof -
  let ?sk = "nullish (tbl_schema t) ''public''"
  let ?names = "map (index_resolved_name h (cfg_casing cfg) (tbl_name t)) isa"
  from reach obtain res reg where
    l: "tables_loop h cfg (do_relations objs) tsa (Map.empty, Map.empty) = Inr (res, reg)"
    by (cases "tables_loop h cfg (do_relations objs) tsa (Map.empty, Map.empty)")
       (auto simp: reaches_index_def)
  from reach have nf: "\<not> filtered_out (cfg_schemaFilter cfg) (tbl_schema t)"
    and d: "distinct (table_unique_names h (cfg_casing cfg) t)"
    and ni: "\<forall>n \<in> set (table_unique_names h (cfg_casing cfg) t). n \<notin> set Object_prototype"
    and ds: "\<forall>c \<in> set (tbl_columns t). column_encodes h c"
    and pass: "\<forall>i \<in> set isa. \<forall>m \<in> set (ix_columns i). member_passes i m"
    and own: "isa \<noteq> [] \<longrightarrow> ?sk \<notin> set Object_prototype"
    and new: "distinct (schema_index_names h cfg tsa ?sk @ ?names)"
    by (simp_all add: reaches_index_def)
  have n: "names_in reg ?sk = schema_index_names h cfg tsa ?sk"
    by (rule tables_loop_names[OF l])
  from new have "distinct (names_in reg ?sk @ ?names)" unfolding n .
  from indexes_loop_total[OF pass own this, of Map.empty] obtain reg1 obj1 where
    before: "forEach (indexes_step h (cfg_casing cfg) (tbl_name t) (tbl_schema t)) isa
        (reg, Map.empty) = Inr (reg1, obj1)"
    and n1: "names_in reg1 = (names_in reg)(?sk := names_in reg ?sk @ ?names)"
    by blast
  from n1 n have "names_in reg1 ?sk = schema_index_names h cfg tsa ?sk @ ?names" by simp
  from step[OF this] before
  have "forEach (indexes_step h (cfg_casing cfg) (tbl_name t) (tbl_schema t)) (tbl_indexes t)
        (reg, Map.empty) = Inl e"
    by (simp add: ixs forEach_append)
  from table_step_index_error[OF nf d ni ds this]
  have "table_step h (cfg_casing cfg) (cfg_schemaFilter cfg) (do_relations objs) t (res, reg) = Inl e" .
  with l have "tables_loop h cfg (do_relations objs) (do_tables objs) (Map.empty, Map.empty) = Inl e"
    by (simp add: tabs tables_loop_append) (simp add: tables_loop_def)
  then show ?thesis by (rule conv_tables_Inl)
qed

lemma entries_kept_refl: "entries_kept res res"
  by (auto simp: entries_kept_def split: option.splits)

lemma entries_kept_trans:
  "entries_kept a b \<Longrightarrow> entries_kept b c \<Longrightarrow> entries_kept a c"
  unfolding entries_kept_def
proof (intro allI)
  fix k
  assume ab: "\<forall>k. case a k of None \<Rightarrow> b k = None
      | Some e \<Rightarrow> \<exists>e'. b k = Some e' \<and> st_name e' = st_name e \<and> st_schema e' = st_schema e"
    and bc: "\<forall>k. case b k of None \<Rightarrow> c k = None
      | Some e \<Rightarrow> \<exists>e'. c k = Some e' \<and> st_name e' = st_name e \<and> st_schema e' = st_schema e"
  from ab[rule_format, of k] bc[rule_format, of k]
  show "case a k of None \<Rightarrow> c k = None
      | Some e \<Rightarrow> \<exists>e'. c k = Some e' \<and> st_name e' = st_name e \<and> st_schema e' = st_schema e"
    by (cases "a k") auto
qed

lemma entries_kept_None:
  assumes "entries_kept res res'" and "res k = None"
  shows "res' k = None"
  using assms(1)[unfolded entries_kept_def, rule_format, of k] assms(2) by simp

lemma entries_kept_Some:
  assumes "entries_kept res res'" and "res k = Some e"
  shows "\<exists>e'. res' k = Some e' \<and> st_name e' = st_name e \<and> st_schema e' = st_schema e"
  using assms(1)[unfolded entries_kept_def, rule_format, of k] assms(2) by simp

lemma linked_step_Inl:
  "linked_policy_step p lt st = Inl e \<Longrightarrow> e = DuplicatePolicyName"
  by (cases st)
     (auto simp: linked_policy_step_def Let_def lookup_tableKey split: if_splits option.splits)

lemma linked_step_registered:
  "registered st (tableKey (ref_schema lt) (ref_name lt)) (pol_name p) \<Longrightarrow>
   linked_policy_step p lt st = Inl DuplicatePolicyName"
  by (cases st)
     (auto simp: linked_policy_step_def registered_def Let_def lookup_tableKey split: option.splits)

lemma linked_step_cases:
  assumes "linked_policy_step p lt (res, ptr) = Inr (res', ptr')"
  shows "pol_name p \<notin> set Object_prototype \<and> ptr (pol_name p) = None
     \<and> (case res (tableKey (ref_schema lt) (ref_name lt)) of
          None \<Rightarrow> res' = res \<and> (\<exists>v. ptr' = ptr(pol_name p \<mapsto> v))
        | Some t \<Rightarrow> ptr' = ptr \<and> st_policies t (pol_name p) = None
            \<and> res' = res(tableKey (ref_schema lt) (ref_name lt) \<mapsto>
                 t\<lparr> st_policies := (st_policies t)(pol_name p \<mapsto> mappedPolicy p) \<rparr>))"
  using assms
  by (auto simp: linked_policy_step_def Let_def lookup_tableKey lookup_defined lookup_Undefined
        assign_upd
      split: if_splits option.splits)

lemma linked_step_Inr:
  assumes "linked_policy_step p lt st = Inr st'"
  shows "registered st' (tableKey (ref_schema lt) (ref_name lt)) (pol_name p)"
    and "registered st k n \<Longrightarrow> registered st' k n"
    and "entries_kept (fst st) (fst st')"
    and "fst st (tableKey (ref_schema lt) (ref_name lt)) = None \<Longrightarrow> registered st' k (pol_name p)"
proof -
  obtain res ptr res' ptr' where st: "st = (res, ptr)" "st' = (res', ptr')"
    by (cases st, cases st') auto
  note c = linked_step_cases[OF assms[unfolded st]]
  show "registered st' (tableKey (ref_schema lt) (ref_name lt)) (pol_name p)"
    using c unfolding st
    by (cases "res (tableKey (ref_schema lt) (ref_name lt))")
       (auto simp: registered_def lookup_defined)
  show "registered st' k n" if "registered st k n"
    using c that unfolding st
    by (cases "res (tableKey (ref_schema lt) (ref_name lt))")
       (auto simp: registered_def lookup_defined split: option.splits if_splits)
  show "entries_kept (fst st) (fst st')"
    using c unfolding st
    by (cases "res (tableKey (ref_schema lt) (ref_name lt))")
       (auto simp: entries_kept_def split: option.splits)
  show "registered st' k (pol_name p)"
    if "fst st (tableKey (ref_schema lt) (ref_name lt)) = None"
    using c that unfolding st
    by (auto simp: registered_def lookup_defined)
qed

lemma policies_loop_Cons_unlinked:
  "pol_linkedTable p = None \<Longrightarrow>
   policies_loop (p # ps) st =
     (SkippedPolicy (pol_name p) # fst (policies_loop ps st), snd (policies_loop ps st))"
  by (simp split: prod.splits)

lemma policies_loop_Cons_linked:
  "pol_linkedTable p = Some lt \<Longrightarrow>
   policies_loop (p # ps) st =
     (case linked_policy_step p lt st of
        Inl e \<Rightarrow> (error_log e, Inl e)
      | Inr st' \<Rightarrow> policies_loop ps st')"
  by simp

declare policies_loop.simps(2) [simp del]

lemma policies_loop_Inl:
  "snd (policies_loop ps st) = Inl e \<Longrightarrow> e = DuplicatePolicyName"
proof (induction ps arbitrary: st)
  case Nil
  then show ?case by simp
next
  case (Cons p ps)
  show ?case
  proof (cases "pol_linkedTable p")
    case None
    with Cons show ?thesis by (simp add: policies_loop_Cons_unlinked)
  next
    case (Some lt)
    with Cons show ?thesis
      by (auto simp: policies_loop_Cons_linked dest: linked_step_Inl split: sum.splits)
  qed
qed

lemma policies_loop_Inr:
  "snd (policies_loop ps st) = Inr st' \<Longrightarrow>
   (registered st k n \<longrightarrow> registered st' k n) \<and> entries_kept (fst st) (fst st')"
proof (induction ps arbitrary: st)
  case Nil
  then show ?case by (simp add: entries_kept_refl)
next
  case (Cons p ps)
  show ?case
  proof (cases "pol_linkedTable p")
    case None
    with Cons show ?thesis by (simp add: policies_loop_Cons_unlinked)
  next
    case (Some lt)
    from Cons.prems Some obtain st1 where
      step: "linked_policy_step p lt st = Inr st1" and rest: "snd (policies_loop ps st1) = Inr st'"
      by (auto simp: policies_loop_Cons_linked split: sum.splits)
    from Cons.IH[OF rest] linked_step_Inr(2,3)[OF step] show ?thesis
      by (auto intro: entries_kept_trans)
  qed
qed

lemma policies_loop_registered:
  "registered st (tableKey (ref_schema lt) (ref_name lt)) (pol_name q) \<Longrightarrow>
   pol_linkedTable q = Some lt \<Longrightarrow>
   snd (policies_loop (ps1 @ q # ps2) st) = Inl DuplicatePolicyName"
proof (induction ps1 arbitrary: st)
  case Nil
  then show ?case by (simp add: linked_step_registered policies_loop_Cons_linked error_log_def)
next
  case (Cons p ps1)
  show ?case
  proof (cases "pol_linkedTable p")
    case None
    with Cons show ?thesis by (simp add: policies_loop_Cons_unlinked)
  next
    case (Some lp)
    show ?thesis
    proof (cases "linked_policy_step p lp st")
      case (Inl e)
      with Some linked_step_Inl[OF Inl] show ?thesis by (simp add: policies_loop_Cons_linked)
    next
      case (Inr st1)
      from linked_step_Inr(2)[OF Inr Cons.prems(1)] Cons.IH Cons.prems(2) Some Inr
      show ?thesis by (simp add: policies_loop_Cons_linked)
    qed
  qed
qed

text \<open>
  Two linked policies of one name: the second is rejected when both are linked to one key,
  and also when the table of the first is not in \<open>result\<close>, because the first then sits in
  \<open>policiesToReturn\<close>, which is read for every policy.
\<close>

lemma policies_loop_twice:
  assumes "pol_linkedTable p = Some lp" and "pol_linkedTable q = Some lq"
    and "pol_name p = pol_name q"
  shows "tableKey (ref_schema lp) (ref_name lp) = tableKey (ref_schema lq) (ref_name lq)
      \<or> fst st (tableKey (ref_schema lp) (ref_name lp)) = None \<Longrightarrow>
    snd (policies_loop (ps1 @ p # ps2 @ q # ps3) st) = Inl DuplicatePolicyName"
proof (induction ps1 arbitrary: st)
  case Nil
  show ?case
  proof (cases "linked_policy_step p lp st")
    case (Inl e)
    with assms(1) linked_step_Inl[OF Inl] show ?thesis by (simp add: policies_loop_Cons_linked)
  next
    case (Inr st1)
    from Nil.prems linked_step_Inr(1,4)[OF Inr] assms(3)
    have "registered st1 (tableKey (ref_schema lq) (ref_name lq)) (pol_name q)" by auto
    from policies_loop_registered[OF this assms(2)] assms(1) Inr show ?thesis
      by (simp add: policies_loop_Cons_linked)
  qed
next
  case (Cons a ps1)
  show ?case
  proof (cases "pol_linkedTable a")
    case None
    with Cons show ?thesis by (simp add: policies_loop_Cons_unlinked)
  next
    case (Some la)
    show ?thesis
    proof (cases "linked_policy_step a la st")
      case (Inl e)
      with Some linked_step_Inl[OF Inl] show ?thesis by (simp add: policies_loop_Cons_linked)
    next
      case (Inr st1)
      from Cons.prems linked_step_Inr(3)[OF Inr]
      have "tableKey (ref_schema lp) (ref_name lp) = tableKey (ref_schema lq) (ref_name lq)
          \<or> fst st1 (tableKey (ref_schema lp) (ref_name lp)) = None"
        by (auto dest: entries_kept_None)
      from Cons.IH[OF this] Some Inr show ?thesis by (simp add: policies_loop_Cons_linked)
    qed
  qed
qed

lemma policies_loop_skip:
  assumes "pol_linkedTable p = None"
  shows "snd (policies_loop (ps1 @ p # ps2) st) = snd (policies_loop (ps1 @ ps2) st)
     \<and> (\<forall>st'. snd (policies_loop (ps1 @ p # ps2) st) = Inr st' \<longrightarrow>
            SkippedPolicy (pol_name p) \<in> set (fst (policies_loop (ps1 @ p # ps2) st)))"
proof (induction ps1 arbitrary: st)
  case Nil
  from assms show ?case by (simp add: policies_loop_Cons_unlinked)
next
  case (Cons a ps1)
  show ?case
  proof (cases "pol_linkedTable a")
    case None
    with Cons show ?thesis by (simp add: policies_loop_Cons_unlinked)
  next
    case (Some la)
    with Cons show ?thesis
      by (cases "linked_policy_step a la st") (simp_all add: policies_loop_Cons_linked)
  qed
qed

lemma conv_snd:
  "snd (drizzleObjectsToSnapshot h objs cfg) =
     (case tables_loop h cfg (do_relations objs) (do_tables objs) (Map.empty, Map.empty) of
        Inl e \<Rightarrow> Inl e
      | Inr st \<Rightarrow>
          (case snd (policies_loop (do_policies objs) (fst st, Map.empty)) of
             Inl e \<Rightarrow> Inl e
           | Inr st' \<Rightarrow>
               (case forEach (views_step h) (do_views objs @ do_matViews objs) Map.empty of
                  Inl e \<Rightarrow> Inl e
                | Inr resultViews \<Rightarrow>
                    Inr \<lparr> s_version = ''7'',
                          s_dialect = ''postgresql'',
                          s_tables = fst st',
                          s_enums = foldl enums_step Map.empty (do_enums objs),
                          s_schemas = schemasObject (cfg_schemaFilter cfg) (do_schemas objs),
                          s_sequences = foldl sequences_step Map.empty (do_sequences objs),
                          s_roles = foldl roles_step Map.empty (do_roles objs),
                          s_policies = snd st',
                          s_views = resultViews,
                          s_provider =
                            (case cfg_roles cfg of Some (RolesObject provider) \<Rightarrow> provider | _ \<Rightarrow> None),
                          s_projectId = or_else (cfg_projectId cfg) ''drizzle-lab'' \<rparr>)))"
  by (auto simp: drizzleObjectsToSnapshot_def Let_def split: sum.splits prod.splits)

lemma conv_policies_Inl:
  assumes "tables_loop h cfg (do_relations objs) (do_tables objs) (Map.empty, Map.empty) = Inr st"
    and "snd (policies_loop (do_policies objs) (fst st, Map.empty)) = Inl e"
  shows "snd (drizzleObjectsToSnapshot h objs cfg) = Inl e"
  using assms by (simp add: conv_snd)

lemma indexes_step_isl:
  "m \<in> set (ix_columns idx) \<Longrightarrow> \<not> member_passes idx m \<Longrightarrow>
   isl (indexes_step h casing tn sch idx st)"
proof (cases "indexes_step h casing tn sch idx st")
  case (Inl e)
  then show ?thesis by simp
next
  case (Inr st')
  assume "m \<in> set (ix_columns idx)" "\<not> member_passes idx m"
  moreover obtain reg obj reg' obj' where "st = (reg, obj)" "st' = (reg', obj')"
    by (cases st, cases st') auto
  ultimately show ?thesis using Inr by (auto simp: indexes_step_Inr)
qed

lemma indexes_step_member_error:
  assumes "ix_columns idx = ms1 @ m # ms2" and "\<forall>x \<in> set ms1. member_passes idx x"
    and "\<not> member_passes idx m"
  shows "indexes_step h casing tn sch idx st =
     Inl (case m of IdxSQL s \<Rightarrow> MissingIndexName | IdxColumn c \<Rightarrow> MissingOperatorClass)"
  by (cases st) (simp add: indexes_step_def assms(1) members_Inl[OF assms(2,3)])

lemma conv_index_fails:
  assumes "t \<in> set (do_tables objs)" and "\<not> filtered_out (cfg_schemaFilter cfg) (tbl_schema t)"
    and "idx \<in> set (tbl_indexes t)" and "m \<in> set (ix_columns idx)" and "\<not> member_passes idx m"
  shows "\<exists>e. snd (drizzleObjectsToSnapshot h objs cfg) = Inl e"
proof -
  have "\<forall>reg. isl (forEach (indexes_step h (cfg_casing cfg) (tbl_name t) (tbl_schema t))
                 (tbl_indexes t) (reg, Map.empty))"
    by (intro allI forEach_fails[OF assms(3)] indexes_step_isl[OF assms(4,5)])
  then have "isl (tables_loop h cfg (do_relations objs) (do_tables objs) (Map.empty, Map.empty))"
    by (intro tables_loop_isl[OF assms(1,2)]) simp
  then show ?thesis by (rule conv_tables_isl)
qed

lemma tables_loop_drop_filtered:
  "filtered_out (cfg_schemaFilter cfg) (tbl_schema t) \<Longrightarrow>
   tables_loop h cfg rel (ts1 @ t # ts2) st = tables_loop h cfg rel (ts1 @ ts2) st"
  by (auto simp: tables_loop_def forEach_append table_step_filtered split: sum.splits)

lemma conv_cong:
  assumes "tables_loop h cfg (do_relations objs) (do_tables objs) (Map.empty, Map.empty)
         = tables_loop h cfg (do_relations objs') (do_tables objs') (Map.empty, Map.empty)"
    and "do_policies objs = do_policies objs'" and "do_sequences objs = do_sequences objs'"
    and "do_roles objs = do_roles objs'" and "do_views objs = do_views objs'"
    and "do_matViews objs = do_matViews objs'" and "do_enums objs = do_enums objs'"
    and "do_schemas objs = do_schemas objs'"
  shows "drizzleObjectsToSnapshot h objs cfg = drizzleObjectsToSnapshot h objs' cfg"
  unfolding drizzleObjectsToSnapshot_def assms by (rule refl)

lemma conv_fails_cases:
  assumes "\<And>st. tables_loop h cfg (do_relations objs) (do_tables objs) (Map.empty, Map.empty) = Inr st
      \<Longrightarrow> snd (policies_loop (do_policies objs) (fst st, Map.empty)) = Inl DuplicatePolicyName"
  shows "(\<exists>e. snd (drizzleObjectsToSnapshot h objs cfg) = Inl e)
    \<and> (\<not> isl (tables_loop h cfg (do_relations objs) (do_tables objs) (Map.empty, Map.empty)) \<longrightarrow>
         snd (drizzleObjectsToSnapshot h objs cfg) = Inl DuplicatePolicyName)"
proof (cases "tables_loop h cfg (do_relations objs) (do_tables objs) (Map.empty, Map.empty)")
  case (Inl e)
  then show ?thesis by (simp add: conv_tables_Inl)
next
  case (Inr st)
  from conv_policies_Inl[OF Inr assms[OF Inr]] show ?thesis by simp
qed

lemma conv_snd_cong:
  assumes "\<And>st. snd (policies_loop (do_policies objs) st) = snd (policies_loop (do_policies objs') st)"
    and "do_tables objs = do_tables objs'" and "do_relations objs = do_relations objs'"
    and "do_sequences objs = do_sequences objs'"
    and "do_roles objs = do_roles objs'" and "do_views objs = do_views objs'"
    and "do_matViews objs = do_matViews objs'" and "do_enums objs = do_enums objs'"
    and "do_schemas objs = do_schemas objs'"
  shows "snd (drizzleObjectsToSnapshot h objs cfg) = snd (drizzleObjectsToSnapshot h objs' cfg)"
  unfolding conv_snd assms by (rule refl)

subsection \<open>Policy names\<close>

text \<open>
  C1 as stated fails: the names of policies are not checked across the snapshot. Two tables
  with an inline policy \<^verbatim>\<open>p\<close> each convert, and the snapshot holds the name twice.
\<close>

theorem policy_names_counterexample:
  "map_option sp_name
      (policy_of (drizzleObjectsToSnapshot example_helpers two_policy_tables empty_config)
         ''public.a'' ''p'') = Some ''p''
   \<and> map_option sp_name
      (policy_of (drizzleObjectsToSnapshot example_helpers two_policy_tables empty_config)
         ''public.b'' ''p'') = Some ''p''"
  by (simp add: input_defs two_policy_tables_def run_defs)

text \<open>
  C1, as the code has it. The conversion fails when two policies have the same name in one
  of these ways: two inline policies of one table that passes the schema filter; two
  standalone policies of which the second is linked to the key of the first, or of which the
  first is linked to a key that no table of the input that passes the filter has, so that it
  is kept among the top-level policies, which are read for every linked policy; a standalone
  policy linked to the key of a table of the input (the last one of that key that passes the
  filter) that has an inline policy of that name. In the cases with a standalone policy the
  error is the duplicate-policy-name error once the loop over the tables has gone through.
\<close>

theorem policy_names_per_table:
  "(t \<in> set (do_tables objs) \<and> \<not> filtered_out (cfg_schemaFilter cfg) (tbl_schema t)
      \<and> \<not> distinct (map pol_name (tbl_policies t)) \<longrightarrow>
      (\<exists>e. snd (drizzleObjectsToSnapshot h objs cfg) = Inl e))
   \<and> (do_policies objs = psa @ p # psb @ q # psc
        \<and> pol_linkedTable p = Some lp \<and> pol_linkedTable q = Some lq
        \<and> pol_name p = pol_name q
        \<and> (tableKey (ref_schema lp) (ref_name lp) = tableKey (ref_schema lq) (ref_name lq)
            \<or> (\<forall>v \<in> set (do_tables objs). filtered_out (cfg_schemaFilter cfg) (tbl_schema v)
                  \<or> tableKey (tbl_schema v) (tbl_name v) \<noteq> tableKey (ref_schema lp) (ref_name lp)))
        \<longrightarrow>
        (\<exists>e. snd (drizzleObjectsToSnapshot h objs cfg) = Inl e)
      \<and> (\<not> isl (tables_loop h cfg (do_relations objs) (do_tables objs) (Map.empty, Map.empty)) \<longrightarrow>
           snd (drizzleObjectsToSnapshot h objs cfg) = Inl DuplicatePolicyName))
   \<and> (do_tables objs = tsa @ u # tsb
        \<and> \<not> filtered_out (cfg_schemaFilter cfg) (tbl_schema u)
        \<and> (\<forall>v \<in> set tsb. filtered_out (cfg_schemaFilter cfg) (tbl_schema v)
              \<or> tableKey (tbl_schema v) (tbl_name v) \<noteq> tableKey (tbl_schema u) (tbl_name u))
        \<and> a \<in> set (tbl_policies u) \<and> b \<in> set (do_policies objs)
        \<and> pol_linkedTable b = Some lb
        \<and> tableKey (ref_schema lb) (ref_name lb) = tableKey (tbl_schema u) (tbl_name u)
        \<and> pol_name b = pol_name a \<longrightarrow>
        (\<exists>e. snd (drizzleObjectsToSnapshot h objs cfg) = Inl e)
      \<and> (\<not> isl (tables_loop h cfg (do_relations objs) (do_tables objs) (Map.empty, Map.empty)) \<longrightarrow>
           snd (drizzleObjectsToSnapshot h objs cfg) = Inl DuplicatePolicyName))"
proof (intro conjI)
  show "t \<in> set (do_tables objs) \<and> \<not> filtered_out (cfg_schemaFilter cfg) (tbl_schema t)
      \<and> \<not> distinct (map pol_name (tbl_policies t)) \<longrightarrow>
      (\<exists>e. snd (drizzleObjectsToSnapshot h objs cfg) = Inl e)"
  proof
    assume a: "t \<in> set (do_tables objs) \<and> \<not> filtered_out (cfg_schemaFilter cfg) (tbl_schema t)
      \<and> \<not> distinct (map pol_name (tbl_policies t))"
    have "isl (forEach policies_step (tbl_policies t) Map.empty)"
    proof (cases "forEach policies_step (tbl_policies t) Map.empty")
      case (Inl e)
      then show ?thesis by simp
    next
      case (Inr m)
      from inline_policies_Inr[OF Inr] a show ?thesis by simp
    qed
    with a have "isl (tables_loop h cfg (do_relations objs) (do_tables objs) (Map.empty, Map.empty))"
      by (intro tables_loop_isl[where t = t]) simp_all
    then show "\<exists>e. snd (drizzleObjectsToSnapshot h objs cfg) = Inl e"
      by (rule conv_tables_isl)
  qed
next
  show "do_policies objs = psa @ p # psb @ q # psc
        \<and> pol_linkedTable p = Some lp \<and> pol_linkedTable q = Some lq
        \<and> pol_name p = pol_name q
        \<and> (tableKey (ref_schema lp) (ref_name lp) = tableKey (ref_schema lq) (ref_name lq)
            \<or> (\<forall>v \<in> set (do_tables objs). filtered_out (cfg_schemaFilter cfg) (tbl_schema v)
                  \<or> tableKey (tbl_schema v) (tbl_name v) \<noteq> tableKey (ref_schema lp) (ref_name lp)))
        \<longrightarrow>
        (\<exists>e. snd (drizzleObjectsToSnapshot h objs cfg) = Inl e)
      \<and> (\<not> isl (tables_loop h cfg (do_relations objs) (do_tables objs) (Map.empty, Map.empty)) \<longrightarrow>
           snd (drizzleObjectsToSnapshot h objs cfg) = Inl DuplicatePolicyName)"
  proof
    assume a: "do_policies objs = psa @ p # psb @ q # psc
        \<and> pol_linkedTable p = Some lp \<and> pol_linkedTable q = Some lq
        \<and> pol_name p = pol_name q
        \<and> (tableKey (ref_schema lp) (ref_name lp) = tableKey (ref_schema lq) (ref_name lq)
            \<or> (\<forall>v \<in> set (do_tables objs). filtered_out (cfg_schemaFilter cfg) (tbl_schema v)
                  \<or> tableKey (tbl_schema v) (tbl_name v) \<noteq> tableKey (ref_schema lp) (ref_name lp)))"
    then have lp: "pol_linkedTable p = Some lp" and lq: "pol_linkedTable q = Some lq"
      and nm: "pol_name p = pol_name q"
      and ps: "do_policies objs = psa @ p # psb @ q # psc"
      by simp_all
    show "(\<exists>e. snd (drizzleObjectsToSnapshot h objs cfg) = Inl e)
      \<and> (\<not> isl (tables_loop h cfg (do_relations objs) (do_tables objs) (Map.empty, Map.empty)) \<longrightarrow>
           snd (drizzleObjectsToSnapshot h objs cfg) = Inl DuplicatePolicyName)"
    proof (rule conv_fails_cases)
      fix st
      assume l: "tables_loop h cfg (do_relations objs) (do_tables objs) (Map.empty, Map.empty) = Inr st"
      obtain res reg where st: "st = (res, reg)" by (cases st)
      have "tableKey (ref_schema lp) (ref_name lp) = tableKey (ref_schema lq) (ref_name lq)
          \<or> fst (res, Map.empty :: string \<rightharpoonup> snap_policy) (tableKey (ref_schema lp) (ref_name lp)) = None"
      proof (cases "tableKey (ref_schema lp) (ref_name lp) = tableKey (ref_schema lq) (ref_name lq)")
        case True
        then show ?thesis by simp
      next
        case False
        with a have "\<forall>v \<in> set (do_tables objs). filtered_out (cfg_schemaFilter cfg) (tbl_schema v)
              \<or> tableKey (tbl_schema v) (tbl_name v) \<noteq> tableKey (ref_schema lp) (ref_name lp)"
          by blast
        from tables_loop_other_keys[OF l[unfolded st] this] show ?thesis by simp
      qed
      from policies_loop_twice[OF lp lq nm this, of psa psb psc] ps st
      show "snd (policies_loop (do_policies objs) (fst st, Map.empty)) = Inl DuplicatePolicyName"
        by simp
    qed
  qed
next
  show "do_tables objs = tsa @ u # tsb
        \<and> \<not> filtered_out (cfg_schemaFilter cfg) (tbl_schema u)
        \<and> (\<forall>v \<in> set tsb. filtered_out (cfg_schemaFilter cfg) (tbl_schema v)
              \<or> tableKey (tbl_schema v) (tbl_name v) \<noteq> tableKey (tbl_schema u) (tbl_name u))
        \<and> a \<in> set (tbl_policies u) \<and> b \<in> set (do_policies objs)
        \<and> pol_linkedTable b = Some lb
        \<and> tableKey (ref_schema lb) (ref_name lb) = tableKey (tbl_schema u) (tbl_name u)
        \<and> pol_name b = pol_name a \<longrightarrow>
        (\<exists>e. snd (drizzleObjectsToSnapshot h objs cfg) = Inl e)
      \<and> (\<not> isl (tables_loop h cfg (do_relations objs) (do_tables objs) (Map.empty, Map.empty)) \<longrightarrow>
           snd (drizzleObjectsToSnapshot h objs cfg) = Inl DuplicatePolicyName)"
  proof
    assume a: "do_tables objs = tsa @ u # tsb
        \<and> \<not> filtered_out (cfg_schemaFilter cfg) (tbl_schema u)
        \<and> (\<forall>v \<in> set tsb. filtered_out (cfg_schemaFilter cfg) (tbl_schema v)
              \<or> tableKey (tbl_schema v) (tbl_name v) \<noteq> tableKey (tbl_schema u) (tbl_name u))
        \<and> a \<in> set (tbl_policies u) \<and> b \<in> set (do_policies objs)
        \<and> pol_linkedTable b = Some lb
        \<and> tableKey (ref_schema lb) (ref_name lb) = tableKey (tbl_schema u) (tbl_name u)
        \<and> pol_name b = pol_name a"
    then obtain qs1 qs2 where ps: "do_policies objs = qs1 @ b # qs2"
      by (auto dest: split_list)
    show "(\<exists>e. snd (drizzleObjectsToSnapshot h objs cfg) = Inl e)
      \<and> (\<not> isl (tables_loop h cfg (do_relations objs) (do_tables objs) (Map.empty, Map.empty)) \<longrightarrow>
           snd (drizzleObjectsToSnapshot h objs cfg) = Inl DuplicatePolicyName)"
    proof (rule conv_fails_cases)
      fix st
      assume l: "tables_loop h cfg (do_relations objs) (do_tables objs) (Map.empty, Map.empty) = Inr st"
      obtain res reg where st: "st = (res, reg)" by (cases st)
      from a have nf: "\<not> filtered_out (cfg_schemaFilter cfg) (tbl_schema u)"
        and last: "\<forall>v \<in> set tsb. filtered_out (cfg_schemaFilter cfg) (tbl_schema v)
              \<or> tableKey (tbl_schema v) (tbl_name v) \<noteq> tableKey (tbl_schema u) (tbl_name u)"
        and tabs: "do_tables objs = tsa @ u # tsb"
        by simp_all
      from tables_loop_entry[OF l[unfolded st tabs] nf last] obtain e where
        e: "res (tableKey (tbl_schema u) (tbl_name u)) = Some e"
           "forEach policies_step (tbl_policies u) Map.empty = Inr (st_policies e)"
        by blast
      from inline_policies_Inr[OF e(2)] a have "st_policies e (pol_name a) \<noteq> None"
        by (auto simp: dom_def)
      with e(1) a have "registered (res, Map.empty) (tableKey (ref_schema lb) (ref_name lb)) (pol_name b)"
        by (simp add: registered_def lookup_defined)
      from policies_loop_registered[OF this, of qs1 qs2] a ps st
      show "snd (policies_loop (do_policies objs) (fst st, Map.empty)) = Inl DuplicatePolicyName"
        by simp
    qed
  qed
qed

theorem policy_names_per_table_witness:
  "(\<exists>e. snd (drizzleObjectsToSnapshot example_helpers inline_twice empty_config) = Inl e)
   \<and> snd (drizzleObjectsToSnapshot example_helpers linked_twice empty_config)
       = Inl DuplicatePolicyName
   \<and> snd (drizzleObjectsToSnapshot example_helpers linked_elsewhere empty_config)
       = Inl DuplicatePolicyName
   \<and> snd (drizzleObjectsToSnapshot example_helpers linked_over_inline empty_config)
       = Inl DuplicatePolicyName"
proof -
  note T = policy_names_per_table [where h = example_helpers and cfg = empty_config]
  have h1: "inline_twice_table \<in> set (do_tables inline_twice)
      \<and> \<not> filtered_out (cfg_schemaFilter empty_config) (tbl_schema inline_twice_table)
      \<and> \<not> distinct (map pol_name (tbl_policies inline_twice_table))"
    by (simp add: input_defs two_policy_tables_def filtered_out_def)
  have c1: "\<exists>e. snd (drizzleObjectsToSnapshot example_helpers inline_twice empty_config) = Inl e"
    by (rule T [where objs = inline_twice and t = inline_twice_table,
          THEN conjunct1, THEN mp, OF h1])
  have h2: "do_policies linked_twice = [] @ linked_policy # [] @ linked_policy # []
      \<and> pol_linkedTable linked_policy = Some users_ref
      \<and> pol_linkedTable linked_policy = Some users_ref
      \<and> pol_name linked_policy = pol_name linked_policy
      \<and> (tableKey (ref_schema users_ref) (ref_name users_ref)
            = tableKey (ref_schema users_ref) (ref_name users_ref)
          \<or> (\<forall>v \<in> set (do_tables linked_twice).
                filtered_out (cfg_schemaFilter empty_config) (tbl_schema v)
                \<or> tableKey (tbl_schema v) (tbl_name v)
                    \<noteq> tableKey (ref_schema users_ref) (ref_name users_ref)))"
    by (simp add: input_defs two_policy_tables_def)
  have n2: "\<not> isl (tables_loop example_helpers empty_config (do_relations linked_twice)
      (do_tables linked_twice) (Map.empty, Map.empty))"
    by (simp add: input_defs two_policy_tables_def tables_loop_def)
  have c2: "snd (drizzleObjectsToSnapshot example_helpers linked_twice empty_config)
       = Inl DuplicatePolicyName"
    by (rule T [where objs = linked_twice and psa = "[]" and p = linked_policy and psb = "[]"
          and q = linked_policy and psc = "[]" and lp = users_ref and lq = users_ref,
          THEN conjunct2, THEN conjunct1, THEN mp, OF h2, THEN conjunct2, THEN mp, OF n2])
  have h4: "do_policies linked_elsewhere = [] @ linked_policy # [] @ orders_policy # []
      \<and> pol_linkedTable linked_policy = Some users_ref
      \<and> pol_linkedTable orders_policy = Some orders_ref
      \<and> pol_name linked_policy = pol_name orders_policy
      \<and> (tableKey (ref_schema users_ref) (ref_name users_ref)
            = tableKey (ref_schema orders_ref) (ref_name orders_ref)
          \<or> (\<forall>v \<in> set (do_tables linked_elsewhere).
                filtered_out (cfg_schemaFilter empty_config) (tbl_schema v)
                \<or> tableKey (tbl_schema v) (tbl_name v)
                    \<noteq> tableKey (ref_schema users_ref) (ref_name users_ref)))"
    by (simp add: input_defs two_policy_tables_def)
  have n4: "\<not> isl (tables_loop example_helpers empty_config (do_relations linked_elsewhere)
      (do_tables linked_elsewhere) (Map.empty, Map.empty))"
    by (simp add: input_defs two_policy_tables_def tables_loop_def)
  have c4: "snd (drizzleObjectsToSnapshot example_helpers linked_elsewhere empty_config)
       = Inl DuplicatePolicyName"
    by (rule T [where objs = linked_elsewhere and psa = "[]" and p = linked_policy and psb = "[]"
          and q = orders_policy and psc = "[]" and lp = users_ref and lq = orders_ref,
          THEN conjunct2, THEN conjunct1, THEN mp, OF h4, THEN conjunct2, THEN mp, OF n4])
  have h3: "do_tables linked_over_inline = [] @ policy_table # []
      \<and> \<not> filtered_out (cfg_schemaFilter empty_config) (tbl_schema policy_table)
      \<and> (\<forall>v \<in> set []. filtered_out (cfg_schemaFilter empty_config) (tbl_schema v)
            \<or> tableKey (tbl_schema v) (tbl_name v)
                \<noteq> tableKey (tbl_schema policy_table) (tbl_name policy_table))
      \<and> empty_policy \<in> set (tbl_policies policy_table)
      \<and> linked_policy \<in> set (do_policies linked_over_inline)
      \<and> pol_linkedTable linked_policy = Some users_ref
      \<and> tableKey (ref_schema users_ref) (ref_name users_ref)
          = tableKey (tbl_schema policy_table) (tbl_name policy_table)
      \<and> pol_name linked_policy = pol_name empty_policy"
    by (simp add: input_defs two_policy_tables_def filtered_out_def)
  have n3: "\<not> isl (tables_loop example_helpers empty_config (do_relations linked_over_inline)
      (do_tables linked_over_inline) (Map.empty, Map.empty))"
    by (simp add: input_defs two_policy_tables_def run_defs)
  have c3: "snd (drizzleObjectsToSnapshot example_helpers linked_over_inline empty_config)
       = Inl DuplicatePolicyName"
    by (rule T [where objs = linked_over_inline and tsa = "[]" and u = policy_table
          and tsb = "[]" and a = empty_policy and b = linked_policy and lb = users_ref,
          THEN conjunct2, THEN conjunct2, THEN mp, OF h3, THEN conjunct2, THEN mp, OF n3])
  from c1 c2 c3 c4 show ?thesis by simp
qed

text \<open>
  The collisions, run: the inline one ends in the error of the runtime and prints nothing,
  the others print and throw the duplicate-policy-name error. The same two standalone
  policies convert when their tables are in the input, and each table then holds a policy
  \<^verbatim>\<open>p\<close>.
\<close>

lemma policy_collisions_run:
  "drizzleObjectsToSnapshot example_helpers inline_twice empty_config = ([], Inl ReferenceError)
   \<and> drizzleObjectsToSnapshot example_helpers linked_twice empty_config
       = ([ErrorWarning DuplicatePolicyName], Inl DuplicatePolicyName)
   \<and> drizzleObjectsToSnapshot example_helpers linked_elsewhere empty_config
       = ([ErrorWarning DuplicatePolicyName], Inl DuplicatePolicyName)
   \<and> drizzleObjectsToSnapshot example_helpers linked_over_inline empty_config
       = ([ErrorWarning DuplicatePolicyName], Inl DuplicatePolicyName)"
  by (simp add: input_defs run_defs)

lemma linked_apart_run:
  "map_option sp_name
      (policy_of (drizzleObjectsToSnapshot example_helpers linked_apart empty_config)
         ''public.users'' ''p'') = Some ''p''
   \<and> map_option sp_name
      (policy_of (drizzleObjectsToSnapshot example_helpers linked_apart empty_config)
         ''public.orders'' ''p'') = Some ''p''"
  by (simp add: input_defs run_defs)

subsection \<open>Identity columns\<close>

text \<open>
  C2, as the code has it. An identity column whose sequence options leave increment, minValue,
  maxValue and startWith unspecified gets increment 1, minValue 1, startWith 1 and as maxValue
  the upper bound of its SQL type (2147483647 for integer, 9223372036854775807 for bigint,
  32767 otherwise). With the increment -1 and the other three unspecified, maxValue is -1 and
  startWith is that maxValue: a sequence that counts down starts at its upper end.
\<close>

theorem identity_defaults:
  "col_generatedIdentity c = Some i \<Longrightarrow>
   (options_unspecified i \<longrightarrow>
      (\<exists>s. sc_identity (columnToSet h tableName schema name c) = Some s
         \<and> id_increment s = ''1'' \<and> id_minValue s = ''1'' \<and> id_startWith s = ''1''
         \<and> id_maxValue s =
             (if col_getSQLType c = ''integer'' then ''2147483647''
              else if col_getSQLType c = ''bigint'' then ''9223372036854775807''
              else ''32767'')))
   \<and> (options_descending i \<longrightarrow>
      (\<exists>s. sc_identity (columnToSet h tableName schema name c) = Some s
         \<and> id_increment s = ''-1'' \<and> id_maxValue s = ''-1''
         \<and> id_startWith s = id_maxValue s))"
  by (auto simp: columnToSet_def columnIdentity_def options_unspecified_def
        options_descending_def Let_def nullish_def stringFromIdentityProperty_def
        parseFloat_one parseFloat_minus_one maxRangeForIdentityBasedOn_def
      split: option.splits)

theorem identity_defaults_witness:
  "(\<exists>s. sc_identity (columnToSet example_helpers ''users'' None ''id'' ascending_column) = Some s
      \<and> id_increment s = ''1'' \<and> id_minValue s = ''1'' \<and> id_startWith s = ''1''
      \<and> id_maxValue s = ''2147483647'')
   \<and> (\<exists>s. sc_identity (columnToSet example_helpers ''users'' None ''id'' descending_column) = Some s
      \<and> id_increment s = ''-1'' \<and> id_maxValue s = ''-1'' \<and> id_startWith s = ''-1'')"
proof -
  have a: "col_generatedIdentity ascending_column =
      Some \<lparr> gi_type = Always, gi_sequenceName = None, gi_sequenceOptions = None \<rparr>"
    by (simp add: ascending_column_def empty_column_def)
  have d: "col_generatedIdentity descending_column =
      Some \<lparr> gi_type = Always, gi_sequenceName = None,
             gi_sequenceOptions = Some (no_options \<lparr> so_increment := Some (PStr ''-1'') \<rparr>) \<rparr>"
    by (simp add: descending_column_def empty_column_def)
  have ta: "col_getSQLType ascending_column = ''integer''"
    by (simp add: ascending_column_def empty_column_def)
  show ?thesis
    using identity_defaults [OF a, of example_helpers "''users''" None "''id''"]
      identity_defaults [OF d, of example_helpers "''users''" None "''id''"] ta
    by (auto simp: options_unspecified_def options_descending_def no_options_def)
qed

text \<open>
  C2 as stated fails for the column that counts down: the claim puts startWith at the lower
  bound, the code puts it at maxValue.
\<close>

theorem identity_descending_counterexample:
  "map_option id_startWith
     (sc_identity (columnToSet example_helpers ''users'' None ''id'' descending_column))
     = Some ''-1''
   \<and> map_option id_startWith
       (sc_identity (columnToSet example_helpers ''users'' None ''id'' descending_column))
     \<noteq> map_option id_minValue
         (sc_identity (columnToSet example_helpers ''users'' None ''id'' descending_column))"
  by (simp add: columnToSet_def columnIdentity_def descending_column_def example_defs
      no_options_def Let_def
      nullish_def stringFromIdentityProperty_def parseFloat_minus_one
      minRangeForIdentityBasedOn_def)

subsection \<open>Index names\<close>

text \<open>
  C3 as stated fails: two indexes of one schema with the same name do not always end the
  conversion in the duplicate-index-name error. Here the second index \<^verbatim>\<open>idx1\<close> is on a vector
  column without an operator class, and that is what the conversion reports: an index is
  checked for its name after its members have passed their guards.
\<close>

theorem index_names_counterexample:
  "\<not> distinct (schema_index_names example_helpers empty_config
        (do_tables duplicate_after_guard) ''public'')
   \<and> drizzleObjectsToSnapshot example_helpers duplicate_after_guard empty_config
       = ([ErrorWarning MissingOperatorClass], Inl MissingOperatorClass)"
  by (simp add: input_defs plain_indexed_def vector_indexed_def idx1_def a_table_def b_table_def
      same_schema_indexes_def two_schema_indexes_def duplicate_after_guard_def empty_index_def
      run_defs index_of_table_def name_defs)

text \<open>
  C3, as the code has it. When the index names of the tables of one schema that pass the
  schema filter are not pairwise distinct, the conversion fails. The error is the
  duplicate-index-name error when the conversion reaches an index whose members pass their
  guards and whose name is that of an index before it in the schema, in a table before or in
  its own table. The same index name in two schemas converts: the snapshot of
  \<open>two_schema_indexes\<close> holds \<^verbatim>\<open>idx1\<close> under both tables.
\<close>

theorem index_names_per_schema:
  "(\<not> distinct (schema_index_names h cfg (do_tables objs) sk) \<longrightarrow>
      (\<exists>e. snd (drizzleObjectsToSnapshot h objs cfg) = Inl e))
   \<and> (do_tables objs = tsa @ t # tsb \<and> tbl_indexes t = isa @ idx # isb
       \<and> reaches_index h cfg (do_relations objs) tsa t isa
       \<and> (\<forall>m \<in> set (ix_columns idx). member_passes idx m)
       \<and> index_resolved_name h (cfg_casing cfg) (tbl_name t) idx
            \<in> set (schema_index_names h cfg tsa (nullish (tbl_schema t) ''public'')
                    @ map (index_resolved_name h (cfg_casing cfg) (tbl_name t)) isa) \<longrightarrow>
       drizzleObjectsToSnapshot h objs cfg
         = ([ErrorWarning DuplicateIndexName], Inl DuplicateIndexName))
   \<and> map_option si_name
        (index_of_table (drizzleObjectsToSnapshot example_helpers two_schema_indexes empty_config)
           ''public.a'' ''idx1'') = Some ''idx1''
   \<and> map_option si_name
        (index_of_table (drizzleObjectsToSnapshot example_helpers two_schema_indexes empty_config)
           ''tenant.b'' ''idx1'') = Some ''idx1''"
proof (intro conjI impI)
  assume nd: "\<not> distinct (schema_index_names h cfg (do_tables objs) sk)"
  have "isl (tables_loop h cfg (do_relations objs) (do_tables objs) (Map.empty, Map.empty))"
  proof (cases "tables_loop h cfg (do_relations objs) (do_tables objs) (Map.empty, Map.empty)")
    case (Inl e)
    then show ?thesis by simp
  next
    case (Inr st)
    from tables_loop_distinct[OF Inr] nd show ?thesis by simp
  qed
  then show "\<exists>e. snd (drizzleObjectsToSnapshot h objs cfg) = Inl e"
    by (rule conv_tables_isl)
next
  assume a: "do_tables objs = tsa @ t # tsb \<and> tbl_indexes t = isa @ idx # isb
       \<and> reaches_index h cfg (do_relations objs) tsa t isa
       \<and> (\<forall>m \<in> set (ix_columns idx). member_passes idx m)
       \<and> index_resolved_name h (cfg_casing cfg) (tbl_name t) idx
            \<in> set (schema_index_names h cfg tsa (nullish (tbl_schema t) ''public'')
                    @ map (index_resolved_name h (cfg_casing cfg) (tbl_name t)) isa)"
  then have tabs: "do_tables objs = tsa @ t # tsb" and ixs: "tbl_indexes t = isa @ idx # isb"
    and reach: "reaches_index h cfg (do_relations objs) tsa t isa"
    and pass: "\<forall>m \<in> set (ix_columns idx). member_passes idx m"
    and dup: "index_resolved_name h (cfg_casing cfg) (tbl_name t) idx
            \<in> set (schema_index_names h cfg tsa (nullish (tbl_schema t) ''public'')
                    @ map (index_resolved_name h (cfg_casing cfg) (tbl_name t)) isa)"
    by blast+
  have "drizzleObjectsToSnapshot h objs cfg = (error_log DuplicateIndexName, Inl DuplicateIndexName)"
  proof (rule conv_index_error[OF tabs ixs reach])
    fix reg :: "string \<rightharpoonup> string list" and obj :: "string \<rightharpoonup> snap_index"
    assume "names_in reg (nullish (tbl_schema t) ''public'')
          = schema_index_names h cfg tsa (nullish (tbl_schema t) ''public'')
              @ map (index_resolved_name h (cfg_casing cfg) (tbl_name t)) isa"
    with dup have "index_resolved_name h (cfg_casing cfg) (tbl_name t) idx
        \<in> set (names_in reg (nullish (tbl_schema t) ''public''))" by simp
    from indexes_step_duplicate[OF pass this]
    show "indexes_step h (cfg_casing cfg) (tbl_name t) (tbl_schema t) idx (reg, obj)
        = Inl DuplicateIndexName" .
  qed
  then show "drizzleObjectsToSnapshot h objs cfg
         = ([ErrorWarning DuplicateIndexName], Inl DuplicateIndexName)"
    by (simp add: error_log_def)
next
  show "map_option si_name
        (index_of_table (drizzleObjectsToSnapshot example_helpers two_schema_indexes empty_config)
           ''public.a'' ''idx1'') = Some ''idx1''"
    by (simp add: input_defs plain_indexed_def vector_indexed_def idx1_def a_table_def
        b_table_def same_schema_indexes_def two_schema_indexes_def duplicate_after_guard_def
        empty_index_def run_defs index_of_table_def)
next
  show "map_option si_name
        (index_of_table (drizzleObjectsToSnapshot example_helpers two_schema_indexes empty_config)
           ''tenant.b'' ''idx1'') = Some ''idx1''"
    by (simp add: input_defs plain_indexed_def vector_indexed_def idx1_def a_table_def
        b_table_def same_schema_indexes_def two_schema_indexes_def duplicate_after_guard_def
        empty_index_def run_defs index_of_table_def)
qed

theorem index_names_per_schema_witness:
  "(\<exists>e. snd (drizzleObjectsToSnapshot example_helpers same_schema_indexes empty_config) = Inl e)
   \<and> drizzleObjectsToSnapshot example_helpers same_schema_indexes empty_config
       = ([ErrorWarning DuplicateIndexName], Inl DuplicateIndexName)"
proof -
  note T = index_names_per_schema [where h = example_helpers and cfg = empty_config
      and objs = same_schema_indexes]
  have h1: "\<not> distinct (schema_index_names example_helpers empty_config
      (do_tables same_schema_indexes) ''public'')"
    by (simp add: input_defs plain_indexed_def vector_indexed_def idx1_def a_table_def
        b_table_def same_schema_indexes_def two_schema_indexes_def duplicate_after_guard_def
        empty_index_def name_defs)
  have c1: "\<exists>e. snd (drizzleObjectsToSnapshot example_helpers same_schema_indexes empty_config)
      = Inl e"
    by (rule T [where sk = "''public''", THEN conjunct1, THEN mp, OF h1])
  have r: "reaches_index example_helpers empty_config (do_relations same_schema_indexes)
      [a_table] b_table []"
    by (simp add: reaches_index_def input_defs plain_indexed_def vector_indexed_def idx1_def
        a_table_def b_table_def same_schema_indexes_def two_schema_indexes_def
        duplicate_after_guard_def empty_index_def run_defs index_of_table_def name_defs)
  have h2: "do_tables same_schema_indexes = [a_table] @ b_table # []
       \<and> tbl_indexes b_table = [] @ idx1 # []
       \<and> reaches_index example_helpers empty_config (do_relations same_schema_indexes)
            [a_table] b_table []
       \<and> (\<forall>m \<in> set (ix_columns idx1). member_passes idx1 m)
       \<and> index_resolved_name example_helpers (cfg_casing empty_config) (tbl_name b_table) idx1
            \<in> set (schema_index_names example_helpers empty_config [a_table]
                      (nullish (tbl_schema b_table) ''public'')
                    @ map (index_resolved_name example_helpers (cfg_casing empty_config)
                             (tbl_name b_table)) [])"
    using r by (simp add: input_defs plain_indexed_def vector_indexed_def idx1_def a_table_def
        b_table_def same_schema_indexes_def two_schema_indexes_def duplicate_after_guard_def
        empty_index_def name_defs)
  have c2: "drizzleObjectsToSnapshot example_helpers same_schema_indexes empty_config
       = ([ErrorWarning DuplicateIndexName], Inl DuplicateIndexName)"
    by (rule T [where tsa = "[a_table]" and t = b_table and tsb = "[]" and isa = "[]"
          and idx = idx1 and isb = "[]",
          THEN conjunct2, THEN conjunct1, THEN mp, OF h2])
  from c1 c2 show ?thesis by simp
qed

subsection \<open>Unique constraints\<close>

text \<open>
  C4 holds for the names that an object does not inherit. When the names of the unique
  constraints of a table that passes the schema filter, those of its unique columns followed
  by those of its table-level declarations, are not pairwise distinct, the conversion returns
  no snapshot. When the tables before it convert, none of the names is a name that an object
  inherits and the columns are encoded without an error of the runtime, the conversion
  prints and throws the duplicate-unique-constraint error, raised in that table.
\<close>

lemma duplicate_unique_names_error:
  assumes "do_tables objs = ts1 @ t # ts2"
    and "\<not> filtered_out (cfg_schemaFilter cfg) (tbl_schema t)"
    and "\<not> distinct (table_unique_names h (cfg_casing cfg) t)"
  shows "(\<exists>e. snd (drizzleObjectsToSnapshot h objs cfg) = Inl e)
    \<and> (\<not> isl (tables_loop h cfg (do_relations objs) ts1 (Map.empty, Map.empty))
         \<and> (\<forall>n \<in> set (table_unique_names h (cfg_casing cfg) t). n \<notin> set Object_prototype)
         \<and> (\<forall>c \<in> set (tbl_columns t). column_encodes h c) \<longrightarrow>
         drizzleObjectsToSnapshot h objs cfg
           = ([ErrorWarning DuplicateUniqueConstraint], Inl DuplicateUniqueConstraint))"
proof -
  have "isl (tables_loop h cfg (do_relations objs) (do_tables objs) (Map.empty, Map.empty))"
    unfolding tables_loop_def
    by (rule forEach_fails[where x = t])
      (simp_all add: assms(1) table_step_unique_isl[OF assms(2,3)])
  then have a: "\<exists>e. snd (drizzleObjectsToSnapshot h objs cfg) = Inl e"
    by (rule conv_tables_isl)
  have b: "drizzleObjectsToSnapshot h objs cfg
           = ([ErrorWarning DuplicateUniqueConstraint], Inl DuplicateUniqueConstraint)"
    if "\<not> isl (tables_loop h cfg (do_relations objs) ts1 (Map.empty, Map.empty))"
      and ni: "\<forall>n \<in> set (table_unique_names h (cfg_casing cfg) t). n \<notin> set Object_prototype"
      and ds: "\<forall>c \<in> set (tbl_columns t). column_encodes h c"
  proof -
    have step: "\<And>st. table_step h (cfg_casing cfg) (cfg_schemaFilter cfg) (do_relations objs) t st
        = Inl DuplicateUniqueConstraint"
      by (rule table_step_unique[OF assms(2,3) ni ds])
    from that(1) obtain st1 where
      "tables_loop h cfg (do_relations objs) ts1 (Map.empty, Map.empty) = Inr st1"
      by (cases "tables_loop h cfg (do_relations objs) ts1 (Map.empty, Map.empty)") auto
    then have "tables_loop h cfg (do_relations objs) (do_tables objs) (Map.empty, Map.empty)
        = Inl DuplicateUniqueConstraint"
      by (simp add: assms(1) tables_loop_append) (simp add: tables_loop_def step)
    from conv_tables_Inl[OF this] show ?thesis by (simp add: error_log_def)
  qed
  from a b show ?thesis by blast
qed

text \<open>The example of the specification: two unique constraints named \<^verbatim>\<open>users_email_unique\<close>.\<close>

lemma unique_twice_error:
  "drizzleObjectsToSnapshot example_helpers unique_twice empty_config
     = ([ErrorWarning DuplicateUniqueConstraint], Inl DuplicateUniqueConstraint)"
  by (simp add: input_defs run_defs)

text \<open>
  C4 at two unique constraints named \<^verbatim>\<open>constructor\<close>. \<open>uniqueConstraintObject\<close> is made by
  \<^verbatim>\<open>{}\<close> (line 181), so the test of line 266 finds the inherited \<^verbatim>\<open>constructor\<close> at the first
  of the two. The message of line 268 then reads \<^verbatim>\<open>existingUnique.columns.join(",")\<close>, where
  \<^verbatim>\<open>existingUnique.columns\<close> is \<^verbatim>\<open>undefined\<close>: the conversion ends in a \<open>TypeError\<close> at the
  first constraint, with nothing printed, and not in the duplicate-unique-constraint error at
  the second.
\<close>

theorem unique_name_inherited:
  "drizzleObjectsToSnapshot example_helpers constructor_twice empty_config = ([], Inl TypeError)"
  by (simp add: input_defs constructor_twice_def run_defs)

subsection \<open>Indexes on vector columns\<close>

text \<open>
  C5 as stated fails: an index with a vector column that has no operator class does not
  always end the conversion in the missing-operator-class error. Here the index has no name
  and an expression comes before the vector column; the members are checked in their order,
  and the conversion reports the missing name.
\<close>

theorem vector_index_counterexample:
  "drizzleObjectsToSnapshot example_helpers expression_then_vector empty_config
     = ([ErrorWarning MissingIndexName], Inl MissingIndexName)"
  by (simp add: input_defs vector_indexed_def vector_index_def vector_table_def
      vector_objects_def expression_then_vector_def empty_index_def run_defs)

text \<open>
  C5, as the code has it. When the conversion reaches an index in which a vector-typed column
  has no operator class and the members before that column pass their guards, it fails with
  the missing-operator-class error. No input with such an index in a table that passes the
  schema filter converts. An index whose members all pass their guards, so that every
  vector-typed column has an operator class and an expression occurs only under an explicit
  name, whose schema is not a name that an object inherits and whose name is not yet taken in
  the schema, is converted; it is stored under its name, unless that is \<^verbatim>\<open>__proto__\<close>.
\<close>

theorem vector_index_guard:
  "(do_tables objs = tsa @ t # tsb \<and> tbl_indexes t = isa @ idx # isb
      \<and> reaches_index h cfg (do_relations objs) tsa t isa
      \<and> ix_columns idx = msa @ IdxColumn c # msb \<and> (\<forall>m \<in> set msa. member_passes idx m)
      \<and> ic_type c = ''PgVector'' \<and> ixc_opClass (ic_indexConfig c) = None \<longrightarrow>
      drizzleObjectsToSnapshot h objs cfg
        = ([ErrorWarning MissingOperatorClass], Inl MissingOperatorClass))
   \<and> (u \<in> set (do_tables objs) \<and> \<not> filtered_out (cfg_schemaFilter cfg) (tbl_schema u)
        \<and> idx' \<in> set (tbl_indexes u) \<and> IdxColumn c' \<in> set (ix_columns idx')
        \<and> ic_type c' = ''PgVector'' \<and> ixc_opClass (ic_indexConfig c') = None \<longrightarrow>
        (\<exists>e. snd (drizzleObjectsToSnapshot h objs cfg) = Inl e))
   \<and> ((\<forall>m \<in> set (ix_columns idx'').
           case m of
             IdxColumn c \<Rightarrow> ic_type c = ''PgVector'' \<longrightarrow> ixc_opClass (ic_indexConfig c) \<noteq> None
           | IdxSQL s \<Rightarrow> ix_name idx'' \<noteq> None)
        \<and> nullish sch ''public'' \<notin> set Object_prototype
        \<and> index_resolved_name h casing tn idx'' \<notin> set (names_in reg (nullish sch ''public'')) \<longrightarrow>
        (\<exists>reg' obj'. indexes_step h casing tn sch idx'' (reg, obj) = Inr (reg', obj')
           \<and> (index_resolved_name h casing tn idx'' \<noteq> ''__proto__'' \<longrightarrow>
                obj' (index_resolved_name h casing tn idx'')
                  = Some (index_of h casing (index_resolved_name h casing tn idx'') idx''))))"
proof (intro conjI impI)
  assume a: "do_tables objs = tsa @ t # tsb \<and> tbl_indexes t = isa @ idx # isb
      \<and> reaches_index h cfg (do_relations objs) tsa t isa
      \<and> ix_columns idx = msa @ IdxColumn c # msb \<and> (\<forall>m \<in> set msa. member_passes idx m)
      \<and> ic_type c = ''PgVector'' \<and> ixc_opClass (ic_indexConfig c) = None"
  then have tabs: "do_tables objs = tsa @ t # tsb" and ixs: "tbl_indexes t = isa @ idx # isb"
    and reach: "reaches_index h cfg (do_relations objs) tsa t isa"
    and ms: "ix_columns idx = msa @ IdxColumn c # msb"
    and pass: "\<forall>m \<in> set msa. member_passes idx m"
    and np: "\<not> member_passes idx (IdxColumn c)"
    by (simp_all add: member_passes_def)
  have "drizzleObjectsToSnapshot h objs cfg
      = (error_log MissingOperatorClass, Inl MissingOperatorClass)"
  proof (rule conv_index_error[OF tabs ixs reach])
    fix reg :: "string \<rightharpoonup> string list" and obj :: "string \<rightharpoonup> snap_index"
    from indexes_step_member_error[OF ms pass np]
    show "indexes_step h (cfg_casing cfg) (tbl_name t) (tbl_schema t) idx (reg, obj)
        = Inl MissingOperatorClass" by simp
  qed
  then show "drizzleObjectsToSnapshot h objs cfg
        = ([ErrorWarning MissingOperatorClass], Inl MissingOperatorClass)"
    by (simp add: error_log_def)
next
  assume a: "u \<in> set (do_tables objs) \<and> \<not> filtered_out (cfg_schemaFilter cfg) (tbl_schema u)
        \<and> idx' \<in> set (tbl_indexes u) \<and> IdxColumn c' \<in> set (ix_columns idx')
        \<and> ic_type c' = ''PgVector'' \<and> ixc_opClass (ic_indexConfig c') = None"
  then have np: "\<not> member_passes idx' (IdxColumn c')"
    by (simp add: member_passes_def)
  from a show "\<exists>e. snd (drizzleObjectsToSnapshot h objs cfg) = Inl e"
    using conv_index_fails[OF _ _ _ _ np] by blast
next
  assume "(\<forall>m \<in> set (ix_columns idx'').
           case m of
             IdxColumn c \<Rightarrow> ic_type c = ''PgVector'' \<longrightarrow> ixc_opClass (ic_indexConfig c) \<noteq> None
           | IdxSQL s \<Rightarrow> ix_name idx'' \<noteq> None)
        \<and> nullish sch ''public'' \<notin> set Object_prototype
        \<and> index_resolved_name h casing tn idx'' \<notin> set (names_in reg (nullish sch ''public''))"
  then have "(\<forall>m \<in> set (ix_columns idx''). member_passes idx'' m)
        \<and> nullish sch ''public'' \<notin> set Object_prototype
        \<and> index_resolved_name h casing tn idx'' \<notin> set (names_in reg (nullish sch ''public''))"
    by (auto simp: member_passes_def split: index_member.splits)
  then show "\<exists>reg' obj'. indexes_step h casing tn sch idx'' (reg, obj) = Inr (reg', obj')
           \<and> (index_resolved_name h casing tn idx'' \<noteq> ''__proto__'' \<longrightarrow>
                obj' (index_resolved_name h casing tn idx'')
                  = Some (index_of h casing (index_resolved_name h casing tn idx'') idx''))"
    by (simp add: indexes_step_Inr assign_def)
qed

theorem vector_index_guard_witness:
  "drizzleObjectsToSnapshot example_helpers vector_objects empty_config
     = ([ErrorWarning MissingOperatorClass], Inl MissingOperatorClass)
   \<and> (\<exists>e. snd (drizzleObjectsToSnapshot example_helpers vector_objects empty_config) = Inl e)
   \<and> (\<exists>reg' obj'.
        indexes_step example_helpers None ''items'' None (vector_index (Some ''vector_l2_ops''))
          (Map.empty, Map.empty) = Inr (reg', obj')
        \<and> obj' ''embedding_idx'' \<noteq> None)"
proof -
  note T = vector_index_guard [where h = example_helpers and cfg = empty_config
      and objs = vector_objects]
  have r: "reaches_index example_helpers empty_config (do_relations vector_objects)
      [] vector_table []"
    by (simp add: reaches_index_def input_defs vector_indexed_def vector_index_def
        vector_table_def vector_objects_def expression_then_vector_def empty_index_def run_defs
        name_defs)
  have h1: "do_tables vector_objects = [] @ vector_table # []
      \<and> tbl_indexes vector_table = [] @ vector_index None # []
      \<and> reaches_index example_helpers empty_config (do_relations vector_objects)
           [] vector_table []
      \<and> ix_columns (vector_index None) = [] @ IdxColumn (vector_indexed None) # []
      \<and> (\<forall>m \<in> set []. member_passes (vector_index None) m)
      \<and> ic_type (vector_indexed None) = ''PgVector''
      \<and> ixc_opClass (ic_indexConfig (vector_indexed None)) = None"
    using r by (simp add: input_defs vector_indexed_def vector_index_def vector_table_def
        vector_objects_def expression_then_vector_def empty_index_def)
  have c1: "drizzleObjectsToSnapshot example_helpers vector_objects empty_config
     = ([ErrorWarning MissingOperatorClass], Inl MissingOperatorClass)"
    by (rule T [where tsa = "[]" and t = vector_table and tsb = "[]" and isa = "[]"
          and idx = "vector_index None" and isb = "[]" and msa = "[]"
          and c = "vector_indexed None" and msb = "[]",
          THEN conjunct1, THEN mp, OF h1])
  have h2: "vector_table \<in> set (do_tables vector_objects)
      \<and> \<not> filtered_out (cfg_schemaFilter empty_config) (tbl_schema vector_table)
      \<and> vector_index None \<in> set (tbl_indexes vector_table)
      \<and> IdxColumn (vector_indexed None) \<in> set (ix_columns (vector_index None))
      \<and> ic_type (vector_indexed None) = ''PgVector''
      \<and> ixc_opClass (ic_indexConfig (vector_indexed None)) = None"
    by (simp add: input_defs vector_indexed_def vector_index_def vector_table_def
        vector_objects_def expression_then_vector_def empty_index_def filtered_out_def)
  have c2: "\<exists>e. snd (drizzleObjectsToSnapshot example_helpers vector_objects empty_config) = Inl e"
    by (rule T [where u = vector_table and idx' = "vector_index None"
          and c' = "vector_indexed None",
          THEN conjunct2, THEN conjunct1, THEN mp, OF h2])
  have h3: "(\<forall>m \<in> set (ix_columns (vector_index (Some ''vector_l2_ops''))).
        case m of
          IdxColumn c \<Rightarrow> ic_type c = ''PgVector'' \<longrightarrow> ixc_opClass (ic_indexConfig c) \<noteq> None
        | IdxSQL s \<Rightarrow> ix_name (vector_index (Some ''vector_l2_ops'')) \<noteq> None)
      \<and> nullish None ''public'' \<notin> set Object_prototype
      \<and> index_resolved_name example_helpers None ''items'' (vector_index (Some ''vector_l2_ops''))
          \<notin> set (names_in Map.empty (nullish None ''public''))"
    by (simp add: input_defs vector_indexed_def vector_index_def vector_table_def
        vector_objects_def expression_then_vector_def empty_index_def name_defs
        Object_prototype_def)
  have n: "index_resolved_name example_helpers None ''items''
      (vector_index (Some ''vector_l2_ops'')) = ''embedding_idx''"
    by (simp add: input_defs vector_indexed_def vector_index_def vector_table_def
        vector_objects_def expression_then_vector_def empty_index_def name_defs)
  from T [where idx'' = "vector_index (Some ''vector_l2_ops'')" and reg = Map.empty
      and obj = Map.empty and casing = None and tn = "''items''" and sch = None,
      THEN conjunct2, THEN conjunct2, THEN mp, OF h3]
  have c3: "\<exists>reg' obj'.
        indexes_step example_helpers None ''items'' None (vector_index (Some ''vector_l2_ops''))
          (Map.empty, Map.empty) = Inr (reg', obj')
        \<and> obj' ''embedding_idx'' \<noteq> None"
    unfolding n by auto
  from c1 c2 c3 show ?thesis by blast
qed

subsection \<open>Generated index names\<close>

text \<open>
  C6 as stated fails: an unnamed index with an expression does not always end the conversion
  in the missing-index-name error. Here a vector column without an operator class comes
  before the expression; the members are checked in their order, and the conversion reports
  the missing operator class.
\<close>

theorem index_auto_name_counterexample:
  "drizzleObjectsToSnapshot example_helpers vector_then_expression empty_config
     = ([ErrorWarning MissingOperatorClass], Inl MissingOperatorClass)"
  by (simp add: input_defs plain_indexed_def vector_indexed_def ab_index_def sql_index_def
      sql_table_def sql_objects_def vector_then_expression_def empty_index_def run_defs)

text \<open>
  C6, as the code has it. An index without an explicit name whose members are all columns is
  stored, when it is converted, under the name of the table, an underscore, the cased names of
  its columns in the order of the declaration joined by underscores, and \<^verbatim>\<open>_index\<close>. When the
  conversion reaches an index without an explicit name in which the members before an
  expression pass their guards, it fails with the missing-index-name error. No input with an
  unnamed index that has an expression, in a table that passes the schema filter, converts.
\<close>

theorem index_auto_name:
  "(ix_name idx = None \<and> ix_columns idx = map IdxColumn cs
      \<and> indexes_step h casing tn sch idx (reg, obj) = Inr (reg', obj') \<longrightarrow>
      obj' (tn @ ''_'' @ join_str ''_''
              (map (\<lambda>c. getColumnCasing h (CasingColumn (ic_name c) (ic_keyAsName c)) casing) cs)
            @ ''_index'') \<noteq> None
      \<and> map_option si_name
           (obj' (tn @ ''_'' @ join_str ''_''
              (map (\<lambda>c. getColumnCasing h (CasingColumn (ic_name c) (ic_keyAsName c)) casing) cs)
            @ ''_index''))
         = Some (tn @ ''_'' @ join_str ''_''
              (map (\<lambda>c. getColumnCasing h (CasingColumn (ic_name c) (ic_keyAsName c)) casing) cs)
            @ ''_index''))
   \<and> (do_tables objs = tsa @ t # tsb \<and> tbl_indexes t = isa @ idx' # isb
        \<and> reaches_index h cfg (do_relations objs) tsa t isa
        \<and> ix_name idx' = None \<and> ix_columns idx' = msa @ IdxSQL s # msb
        \<and> (\<forall>m \<in> set msa. member_passes idx' m) \<longrightarrow>
        drizzleObjectsToSnapshot h objs cfg
          = ([ErrorWarning MissingIndexName], Inl MissingIndexName))
   \<and> (u \<in> set (do_tables objs) \<and> \<not> filtered_out (cfg_schemaFilter cfg) (tbl_schema u)
        \<and> idx'' \<in> set (tbl_indexes u) \<and> ix_name idx'' = None
        \<and> IdxSQL s' \<in> set (ix_columns idx'') \<longrightarrow>
        (\<exists>e. snd (drizzleObjectsToSnapshot h objs cfg) = Inl e))"
proof (intro conjI impI)
  assume a: "ix_name idx = None \<and> ix_columns idx = map IdxColumn cs
      \<and> indexes_step h casing tn sch idx (reg, obj) = Inr (reg', obj')"
  let ?n = "tn @ ''_'' @ join_str ''_''
              (map (\<lambda>c. getColumnCasing h (CasingColumn (ic_name c) (ic_keyAsName c)) casing) cs)
            @ ''_index''"
  from a have n: "index_resolved_name h casing tn idx = ?n"
    by (simp add: index_resolved_name_def index_name_of_def indexName_def member_name_def comp_def)
  have "?n = indexName tn
      (map (\<lambda>c. getColumnCasing h (CasingColumn (ic_name c) (ic_keyAsName c)) casing) cs)"
    by (simp add: indexName_def)
  then have np: "?n \<noteq> ''__proto__''" using indexName_own by metis
  from a have "obj' = assign obj (index_resolved_name h casing tn idx)
          (index_of h casing (index_resolved_name h casing tn idx) idx)"
    by (simp add: indexes_step_Inr)
  then have o: "obj' ?n = Some (index_of h casing ?n idx)"
    unfolding n using np by (simp add: assign_other)
  from o show "obj' ?n \<noteq> None" by simp
  from o show "map_option si_name (obj' ?n) = Some ?n" by (simp add: index_of_def)
next
  assume a: "do_tables objs = tsa @ t # tsb \<and> tbl_indexes t = isa @ idx' # isb
        \<and> reaches_index h cfg (do_relations objs) tsa t isa
        \<and> ix_name idx' = None \<and> ix_columns idx' = msa @ IdxSQL s # msb
        \<and> (\<forall>m \<in> set msa. member_passes idx' m)"
  then have tabs: "do_tables objs = tsa @ t # tsb" and ixs: "tbl_indexes t = isa @ idx' # isb"
    and reach: "reaches_index h cfg (do_relations objs) tsa t isa"
    and ms: "ix_columns idx' = msa @ IdxSQL s # msb"
    and pass: "\<forall>m \<in> set msa. member_passes idx' m"
    and np: "\<not> member_passes idx' (IdxSQL s)"
    by (simp_all add: member_passes_def)
  have "drizzleObjectsToSnapshot h objs cfg = (error_log MissingIndexName, Inl MissingIndexName)"
  proof (rule conv_index_error[OF tabs ixs reach])
    fix reg :: "string \<rightharpoonup> string list" and obj :: "string \<rightharpoonup> snap_index"
    from indexes_step_member_error[OF ms pass np]
    show "indexes_step h (cfg_casing cfg) (tbl_name t) (tbl_schema t) idx' (reg, obj)
        = Inl MissingIndexName" by simp
  qed
  then show "drizzleObjectsToSnapshot h objs cfg
          = ([ErrorWarning MissingIndexName], Inl MissingIndexName)"
    by (simp add: error_log_def)
next
  assume a: "u \<in> set (do_tables objs) \<and> \<not> filtered_out (cfg_schemaFilter cfg) (tbl_schema u)
        \<and> idx'' \<in> set (tbl_indexes u) \<and> ix_name idx'' = None
        \<and> IdxSQL s' \<in> set (ix_columns idx'')"
  then have np: "\<not> member_passes idx'' (IdxSQL s')"
    by (simp add: member_passes_def)
  from a show "\<exists>e. snd (drizzleObjectsToSnapshot h objs cfg) = Inl e"
    using conv_index_fails[OF _ _ _ _ np] by blast
qed

theorem index_auto_name_witness:
  "map_option si_name
      (snd (projr (indexes_step example_helpers None ''users'' None ab_index
                     (Map.empty, Map.empty))) ''users_a_b_index'')
     = Some ''users_a_b_index''
   \<and> drizzleObjectsToSnapshot example_helpers sql_objects empty_config
       = ([ErrorWarning MissingIndexName], Inl MissingIndexName)
   \<and> (\<exists>e. snd (drizzleObjectsToSnapshot example_helpers sql_objects empty_config) = Inl e)"
proof -
  note T = index_auto_name [where h = example_helpers and cfg = empty_config
      and objs = sql_objects]
  let ?r = "indexes_step example_helpers None ''users'' None ab_index (Map.empty, Map.empty)"
  have "\<not> isl ?r"
    by (simp add: input_defs plain_indexed_def vector_indexed_def ab_index_def sql_index_def
        sql_table_def sql_objects_def vector_then_expression_def empty_index_def run_defs)
  then have r: "?r = Inr (fst (projr ?r), snd (projr ?r))"
    by (cases ?r) simp_all
  have h1: "ix_name ab_index = None
      \<and> ix_columns ab_index = map IdxColumn [plain_indexed ''a'', plain_indexed ''b'']
      \<and> ?r = Inr (fst (projr ?r), snd (projr ?r))"
    using r by (simp add: input_defs plain_indexed_def vector_indexed_def ab_index_def
        sql_index_def sql_table_def sql_objects_def vector_then_expression_def empty_index_def)
  have n: "''users'' @ ''_'' @ join_str ''_''
      (map (\<lambda>c. getColumnCasing example_helpers (CasingColumn (ic_name c) (ic_keyAsName c)) None)
         [plain_indexed ''a'', plain_indexed ''b'']) @ ''_index'' = ''users_a_b_index''"
    by (simp add: input_defs plain_indexed_def vector_indexed_def ab_index_def sql_index_def
        sql_table_def sql_objects_def vector_then_expression_def empty_index_def)
  from T [where idx = ab_index and cs = "[plain_indexed ''a'', plain_indexed ''b'']"
      and casing = None and tn = "''users''" and sch = None
      and reg = Map.empty and obj = Map.empty and reg' = "fst (projr ?r)"
      and obj' = "snd (projr ?r)", THEN conjunct1, THEN mp, OF h1, THEN conjunct2]
  have c1: "map_option si_name (snd (projr ?r) ''users_a_b_index'') = Some ''users_a_b_index''"
    unfolding n .
  have rc: "reaches_index example_helpers empty_config (do_relations sql_objects) [] sql_table []"
    by (simp add: reaches_index_def input_defs plain_indexed_def vector_indexed_def ab_index_def
        sql_index_def sql_table_def sql_objects_def vector_then_expression_def empty_index_def
        run_defs name_defs)
  have h2: "do_tables sql_objects = [] @ sql_table # []
      \<and> tbl_indexes sql_table = [] @ sql_index # []
      \<and> reaches_index example_helpers empty_config (do_relations sql_objects) [] sql_table []
      \<and> ix_name sql_index = None
      \<and> ix_columns sql_index = [IdxColumn (plain_indexed ''id'')] @ IdxSQL ''lower(email)'' # []
      \<and> (\<forall>m \<in> set [IdxColumn (plain_indexed ''id'')]. member_passes sql_index m)"
    using rc by (simp add: input_defs plain_indexed_def vector_indexed_def ab_index_def
        sql_index_def sql_table_def sql_objects_def vector_then_expression_def empty_index_def
        name_defs)
  have c2: "drizzleObjectsToSnapshot example_helpers sql_objects empty_config
       = ([ErrorWarning MissingIndexName], Inl MissingIndexName)"
    by (rule T [where tsa = "[]" and t = sql_table and tsb = "[]" and isa = "[]"
          and idx' = sql_index and isb = "[]" and msa = "[IdxColumn (plain_indexed ''id'')]"
          and s = "''lower(email)''" and msb = "[]",
          THEN conjunct2, THEN conjunct1, THEN mp, OF h2])
  have h3: "sql_table \<in> set (do_tables sql_objects)
      \<and> \<not> filtered_out (cfg_schemaFilter empty_config) (tbl_schema sql_table)
      \<and> sql_index \<in> set (tbl_indexes sql_table) \<and> ix_name sql_index = None
      \<and> IdxSQL ''lower(email)'' \<in> set (ix_columns sql_index)"
    by (simp add: input_defs plain_indexed_def vector_indexed_def ab_index_def sql_index_def
        sql_table_def sql_objects_def vector_then_expression_def empty_index_def
        filtered_out_def)
  have c3: "\<exists>e. snd (drizzleObjectsToSnapshot example_helpers sql_objects empty_config) = Inl e"
    by (rule T [where u = sql_table and idx'' = sql_index and s' = "''lower(email)''",
          THEN conjunct2, THEN conjunct2, THEN mp, OF h3])
  from c1 c2 c3 show ?thesis by blast
qed

subsection \<open>Array defaults\<close>

text \<open>
  C7 as stated fails: the default that is encoded for \<^verbatim>\<open>[1,2,3]\<close> on an \<^verbatim>\<open>integer[]\<close>
  column is not the bare text in braces.
\<close>

theorem array_default_counterexample:
  "columnDefault example_helpers array_column \<noteq> Inr (Some (JStr ''{1,2,3}''))"
  by (simp add: array_column_def input_defs columnDefault_def value_defs Let_def)

text \<open>
  C7, as the code has it. For a column of an array type whose default is a list, the encoded
  default is the literal of \<^verbatim>\<open>buildArrayString\<close> between single quotes: the elements, each
  encoded by its kind, joined by commas between braces; when the encoding of an element
  throws, so does the encoding of the default. A number is printed bare, as its text, and so
  is a bigint; a boolean is \<^verbatim>\<open>true\<close> or \<^verbatim>\<open>false\<close>; a string stands between double quotes as
  it is; an object and \<^verbatim>\<open>null\<close> are their JSON text between double quotes with the inner
  double quotes escaped, and an error where \<^verbatim>\<open>JSON.stringify\<close> throws; a date is its ISO text
  between double quotes, cut to the day for the type \<^verbatim>\<open>date\<close> and to the form of a timestamp
  for the type \<^verbatim>\<open>timestamp\<close>, and an error when the date is invalid; \<^verbatim>\<open>undefined\<close> is that
  word between double quotes; and a nested array is encoded by the same rule.
\<close>

theorem array_default_literal:
  assumes "col_default c = Some (DefaultValue (JArr xs))"
    and "isPgArrayType h (toLowerCase (col_getSQLType c))"
    and "toLowerCase (col_getSQLType c) \<noteq> ''json''"
    and "toLowerCase (col_getSQLType c) \<noteq> ''jsonb''"
  shows "((\<forall>x \<in> set xs.
             \<not> isl (buildArrayValue h (split_head CHR ''['' (toLowerCase (col_getSQLType c))) x)) \<longrightarrow>
          columnDefault h c
            = Inr (Some (JStr ([CHR 0x27] @ ''{''
                @ join_str '',''
                    (map (\<lambda>x. projr (buildArrayValue h
                            (split_head CHR ''['' (toLowerCase (col_getSQLType c))) x)) xs)
                @ ''}'' @ [CHR 0x27]))))
     \<and> ((\<exists>x \<in> set xs.
             isl (buildArrayValue h (split_head CHR ''['' (toLowerCase (col_getSQLType c))) x)) \<longrightarrow>
          isl (columnDefault h c))
     \<and> buildArrayValue h ty (JNum n) = Inr n
     \<and> buildArrayValue h ty (JBigInt i) = Inr (dec_int i)
     \<and> buildArrayValue h ty (JBool True) = Inr ''true''
     \<and> buildArrayValue h ty (JBool False) = Inr ''false''
     \<and> buildArrayValue h ty (JStr str) = Inr ([CHR 0x22] @ str @ [CHR 0x22])
     \<and> buildArrayValue h ty (JObj ps)
          = (case JSON_stringify h (JObj ps) of
               None \<Rightarrow> Inl TypeError
             | Some json \<Rightarrow> Inr ([CHR 0x22] @ escape_dquotes json @ [CHR 0x22]))
     \<and> buildArrayValue h ty JNull
          = (case JSON_stringify h JNull of
               None \<Rightarrow> Inl TypeError
             | Some json \<Rightarrow> Inr ([CHR 0x22] @ escape_dquotes json @ [CHR 0x22]))
     \<and> buildArrayValue h ty (JDate (Some d))
          = Inr ([CHR 0x22]
                 @ (if ty = ''date'' then split_head CHR ''T'' d
                    else if ty = ''timestamp'' then take 23 (replace_char CHR ''T'' CHR '' '' d)
                    else d)
                 @ [CHR 0x22])
     \<and> buildArrayValue h ty (JDate None) = Inl RangeError
     \<and> buildArrayValue h ty JUndefined = Inr ([CHR 0x22] @ ''undefined'' @ [CHR 0x22])
     \<and> ((\<forall>y \<in> set ys. \<not> isl (buildArrayValue h (split_head CHR ''['' ty) y)) \<longrightarrow>
          buildArrayValue h ty (JArr ys)
            = Inr (''{''
                @ join_str '',''
                    (map (\<lambda>y. projr (buildArrayValue h (split_head CHR ''['' ty) y)) ys)
                @ ''}''))
     \<and> ((\<exists>y \<in> set ys. isl (buildArrayValue h (split_head CHR ''['' ty) y)) \<longrightarrow>
          isl (buildArrayValue h ty (JArr ys)))"
proof -
  let ?t = "toLowerCase (col_getSQLType c)"
  have d: "columnDefault h c
      = (case buildArrayString h xs ?t of
           Inl e \<Rightarrow> Inl e
         | Inr literal \<Rightarrow> Inr (Some (JStr (single_quoted literal))))"
    using assms by (simp add: columnDefault_def Let_def)
  have ok: "buildArrayString h zs t
      = Inr (''{'' @ join_str '','' (map (\<lambda>z. projr (buildArrayValue h (split_head CHR ''['' t) z)) zs)
             @ ''}'')"
    if "\<forall>z \<in> set zs. \<not> isl (buildArrayValue h (split_head CHR ''['' t) z)" for zs t
    using buildArrayValues_encoded[OF that] by simp
  have bad: "isl (buildArrayString h zs t)"
    if "\<exists>z \<in> set zs. isl (buildArrayValue h (split_head CHR ''['' t) z)" for zs t
  proof -
    from that obtain z where "z \<in> set zs" "isl (buildArrayValue h (split_head CHR ''['' t) z)"
      by blast
    from buildArrayValues_Inl[OF this] show ?thesis
      by (auto split: sum.splits)
  qed
  show ?thesis
  proof (intro conjI impI)
    assume "\<forall>x \<in> set xs. \<not> isl (buildArrayValue h (split_head CHR ''['' ?t) x)"
    from ok[OF this] show "columnDefault h c
            = Inr (Some (JStr ([CHR 0x27] @ ''{''
                @ join_str '',''
                    (map (\<lambda>x. projr (buildArrayValue h (split_head CHR ''['' ?t) x)) xs)
                @ ''}'' @ [CHR 0x27])))"
      unfolding d by (simp add: single_quoted_def)
  next
    assume "\<exists>x \<in> set xs. isl (buildArrayValue h (split_head CHR ''['' ?t) x)"
    from bad[OF this] show "isl (columnDefault h c)"
      unfolding d by (auto split: sum.splits)
  next
    assume "\<forall>y \<in> set ys. \<not> isl (buildArrayValue h (split_head CHR ''['' ty) y)"
    from ok[OF this] show "buildArrayValue h ty (JArr ys)
            = Inr (''{''
                @ join_str '',''
                    (map (\<lambda>y. projr (buildArrayValue h (split_head CHR ''['' ty) y)) ys)
                @ ''}'')"
      by simp
  next
    assume "\<exists>y \<in> set ys. isl (buildArrayValue h (split_head CHR ''['' ty) y)"
    from bad[OF this] show "isl (buildArrayValue h ty (JArr ys))" by simp
  qed (simp_all add: quoted_def split: option.splits)
qed

theorem array_default_literal_witness:
  "columnDefault example_helpers array_column
     = Inr (Some (JStr ([CHR 0x27] @ ''{1,2,3}'' @ [CHR 0x27])))
   \<and> columnDefault example_helpers nested_array_column
     = Inr (Some (JStr ([CHR 0x27] @ ''{{1,2},{3,4}}'' @ [CHR 0x27])))"
proof -
  have t1: "toLowerCase (col_getSQLType array_column) = ''integer[]''"
    and t2: "toLowerCase (col_getSQLType nested_array_column) = ''integer[][]''"
    by (simp_all add: array_column_def nested_array_column_def input_defs value_defs)
  have d1: "col_default array_column
      = Some (DefaultValue (JArr [JNum ''1'', JNum ''2'', JNum ''3'']))"
    and d2: "col_default nested_array_column
      = Some (DefaultValue (JArr [JArr [JNum ''1'', JNum ''2''], JArr [JNum ''3'', JNum ''4'']]))"
    by (simp_all add: array_column_def nested_array_column_def input_defs)
  have a1: "isPgArrayType example_helpers (toLowerCase (col_getSQLType array_column))"
    and a2: "isPgArrayType example_helpers (toLowerCase (col_getSQLType nested_array_column))"
    unfolding t1 t2 by (simp_all add: example_helpers_def isDigit_def)
  have j1: "toLowerCase (col_getSQLType array_column) \<noteq> ''json''"
    "toLowerCase (col_getSQLType array_column) \<noteq> ''jsonb''"
    and j2: "toLowerCase (col_getSQLType nested_array_column) \<noteq> ''json''"
    "toLowerCase (col_getSQLType nested_array_column) \<noteq> ''jsonb''"
    unfolding t1 t2 by simp_all
  have e1: "\<forall>x \<in> set [JNum ''1'', JNum ''2'', JNum ''3''].
      \<not> isl (buildArrayValue example_helpers
               (split_head CHR ''['' (toLowerCase (col_getSQLType array_column))) x)"
    by simp
  have e2: "\<forall>x \<in> set [JArr [JNum ''1'', JNum ''2''], JArr [JNum ''3'', JNum ''4'']].
      \<not> isl (buildArrayValue example_helpers
               (split_head CHR ''['' (toLowerCase (col_getSQLType nested_array_column))) x)"
    by simp
  from array_default_literal [OF d1 a1 j1, THEN conjunct1, THEN mp, OF e1]
    array_default_literal [OF d2 a2 j2, THEN conjunct1, THEN mp, OF e2]
  show ?thesis
    unfolding t1 t2 by (simp add: value_defs)
qed

text \<open>
  Numbers that do not print as a run of digits, \<open>10\<^sup>2\<^sup>1\<close> and one and a half, on a column of
  the type \<^verbatim>\<open>numeric[]\<close>; an object with a bigint, for which \<^verbatim>\<open>JSON.stringify\<close> throws; and
  the column with the default \<^verbatim>\<open>[1,2,3]\<close> in the snapshot of a table.
\<close>

lemma array_default_numbers:
  "columnDefault example_helpers
      (empty_column \<lparr> col_getSQLType := ''numeric[]'',
         col_default := Some (DefaultValue (JArr [JNum ''1e+21'', JNum ''1.5''])) \<rparr>)
     = Inr (Some (JStr ([CHR 0x27] @ ''{1e+21,1.5}'' @ [CHR 0x27])))"
  by (simp add: columnDefault_def input_defs value_defs Let_def)

lemma array_default_bigint_object:
  "columnDefault example_helpers
      (empty_column \<lparr> col_getSQLType := ''jsonb[]'',
         col_default := Some (DefaultValue (JArr [JObj [(''a'', JBigInt 1)]])) \<rparr>)
     = Inl TypeError"
  by (simp add: columnDefault_def input_defs value_defs Let_def)

lemma array_default_stored:
  "Option.bind
      (table_of (drizzleObjectsToSnapshot example_helpers
                   (empty_objects \<lparr> do_tables := [empty_table \<lparr> tbl_columns := [array_column] \<rparr>] \<rparr>)
                   empty_config) ''public.users'')
      (\<lambda>t. map_option sc_default (st_columns t ''id''))
     = Some (Some (JStr ([CHR 0x27] @ ''{1,2,3}'' @ [CHR 0x27])))"
  by (simp add: array_column_def input_defs run_defs value_defs)

subsection \<open>Standalone policies without a table\<close>

text \<open>
  C8. A standalone policy that is linked to no table does not change what the conversion
  returns: the error or the snapshot is that of the input without the policy, so the policy
  causes no failure and leaves no entry in any policies map. When the conversion returns a
  snapshot, the diagnostic for the policy has been printed.
\<close>

theorem unlinked_policy_skipped:
  assumes "do_policies objs = ps1 @ p # ps2" and "pol_linkedTable p = None"
  shows "snd (drizzleObjectsToSnapshot h objs cfg)
           = snd (drizzleObjectsToSnapshot h (objs \<lparr> do_policies := ps1 @ ps2 \<rparr>) cfg)
    \<and> (\<forall>log s. drizzleObjectsToSnapshot h objs cfg = (log, Inr s) \<longrightarrow>
          SkippedPolicy (pol_name p) \<in> set log)"
proof (intro conjI allI impI)
  have "\<And>st. snd (policies_loop (ps1 @ p # ps2) st) = snd (policies_loop (ps1 @ ps2) st)"
    using policies_loop_skip[OF assms(2)] by blast
  then show "snd (drizzleObjectsToSnapshot h objs cfg)
           = snd (drizzleObjectsToSnapshot h (objs \<lparr> do_policies := ps1 @ ps2 \<rparr>) cfg)"
    by (intro conv_snd_cong) (simp_all add: assms(1))
next
  fix log s
  assume "drizzleObjectsToSnapshot h objs cfg = (log, Inr s)"
  from conv_Inr_tables[OF this] obtain res ptr where
    pl: "policies_loop (do_policies objs) (res, Map.empty) = (log, Inr (s_tables s, ptr))"
    by blast
  from policies_loop_skip[OF assms(2), of ps1 ps2 "(res, Map.empty)"] pl
  show "SkippedPolicy (pol_name p) \<in> set log"
    by (simp add: assms(1))
qed

theorem unlinked_policy_skipped_witness:
  "snd (drizzleObjectsToSnapshot example_helpers unlinked_policy_objects empty_config)
     = snd (drizzleObjectsToSnapshot example_helpers
              (unlinked_policy_objects \<lparr> do_policies := [] @ [] \<rparr>) empty_config)
   \<and> \<not> isl (snd (drizzleObjectsToSnapshot example_helpers unlinked_policy_objects empty_config))
   \<and> SkippedPolicy ''p''
       \<in> set (fst (drizzleObjectsToSnapshot example_helpers unlinked_policy_objects empty_config))"
proof -
  let ?r = "drizzleObjectsToSnapshot example_helpers unlinked_policy_objects empty_config"
  have h: "do_policies unlinked_policy_objects = [] @ empty_policy # []"
    and u: "pol_linkedTable empty_policy = None"
    by (simp_all add: input_defs unlinked_policy_objects_def)
  note T = unlinked_policy_skipped [OF h u, of example_helpers empty_config]
  have ok: "\<not> isl (snd ?r)"
    by (simp add: input_defs unlinked_policy_objects_def run_defs)
  then have "?r = (fst ?r, Inr (projr (snd ?r)))"
    by (cases ?r) (auto simp: isl_iff)
  from T [THEN conjunct2, rule_format, OF this]
  have "SkippedPolicy (pol_name empty_policy) \<in> set (fst ?r)" .
  then have "SkippedPolicy ''p'' \<in> set (fst ?r)" by (simp add: empty_policy_def)
  with T [THEN conjunct1] ok show ?thesis by simp
qed

subsection \<open>The schema filter\<close>

text \<open>
  C9. A table whose schema, \<^verbatim>\<open>public\<close> when it has none, is not in the configured schema
  filter contributes nothing: the conversion prints and returns what it prints and returns
  for the input without that table, so none of the names of the table can cause an error or
  meet one; and the snapshot has no table under its key unless another table of the input
  with that key passes the filter.
\<close>

theorem filtered_table_contributes_nothing:
  assumes "do_tables objs = ts1 @ t # ts2"
    and "filtered_out (cfg_schemaFilter cfg) (tbl_schema t)"
  shows "drizzleObjectsToSnapshot h objs cfg
           = drizzleObjectsToSnapshot h (objs \<lparr> do_tables := ts1 @ ts2 \<rparr>) cfg
    \<and> (\<forall>log s. drizzleObjectsToSnapshot h objs cfg = (log, Inr s)
          \<and> (\<forall>u \<in> set (ts1 @ ts2). filtered_out (cfg_schemaFilter cfg) (tbl_schema u)
                \<or> tableKey (tbl_schema u) (tbl_name u) \<noteq> tableKey (tbl_schema t) (tbl_name t))
          \<longrightarrow> s_tables s (tableKey (tbl_schema t) (tbl_name t)) = None)"
proof (intro conjI allI impI)
  show "drizzleObjectsToSnapshot h objs cfg
           = drizzleObjectsToSnapshot h (objs \<lparr> do_tables := ts1 @ ts2 \<rparr>) cfg"
    by (rule conv_cong) (simp_all add: assms(1) tables_loop_drop_filtered[OF assms(2)])
next
  fix log s
  assume a: "drizzleObjectsToSnapshot h objs cfg = (log, Inr s)
          \<and> (\<forall>u \<in> set (ts1 @ ts2). filtered_out (cfg_schemaFilter cfg) (tbl_schema u)
                \<or> tableKey (tbl_schema u) (tbl_name u) \<noteq> tableKey (tbl_schema t) (tbl_name t))"
  then obtain res reg ptr where
    l: "tables_loop h cfg (do_relations objs) (do_tables objs) (Map.empty, Map.empty) = Inr (res, reg)"
    and p: "policies_loop (do_policies objs) (res, Map.empty) = (log, Inr (s_tables s, ptr))"
    using conv_Inr_tables by blast
  from a assms have "\<forall>u \<in> set (do_tables objs). filtered_out (cfg_schemaFilter cfg) (tbl_schema u)
       \<or> tableKey (tbl_schema u) (tbl_name u) \<noteq> tableKey (tbl_schema t) (tbl_name t)"
    by auto
  from tables_loop_other_keys[OF l this] have "res (tableKey (tbl_schema t) (tbl_name t)) = None"
    by simp
  moreover from policies_loop_Inr[of "do_policies objs" "(res, Map.empty)" "(s_tables s, ptr)"] p
  have "entries_kept res (s_tables s)" by simp
  ultimately show "s_tables s (tableKey (tbl_schema t) (tbl_name t)) = None"
    by (simp add: entries_kept_None)
qed

theorem filtered_table_contributes_nothing_witness:
  "drizzleObjectsToSnapshot example_helpers tenant_objects public_only
     = drizzleObjectsToSnapshot example_helpers (tenant_objects \<lparr> do_tables := [a_table] @ [] \<rparr>)
         public_only
   \<and> \<not> isl (snd (drizzleObjectsToSnapshot example_helpers tenant_objects public_only))
   \<and> s_tables (projr (snd (drizzleObjectsToSnapshot example_helpers tenant_objects public_only)))
        ''tenant_a.orders'' = None
   \<and> isl (snd (drizzleObjectsToSnapshot example_helpers tenant_objects empty_config))"
proof -
  let ?r = "drizzleObjectsToSnapshot example_helpers tenant_objects public_only"
  have h: "do_tables tenant_objects = [a_table] @ tenant_table # []"
    and f: "filtered_out (cfg_schemaFilter public_only) (tbl_schema tenant_table)"
    by (simp_all add: input_defs plain_indexed_def idx1_def a_table_def public_only_def tenant_table_def tenant_objects_def empty_index_def filtered_out_def nullish_def)
  note T = filtered_table_contributes_nothing [OF h f, of example_helpers]
  have ok: "\<not> isl (snd ?r)"
    by (simp add: input_defs plain_indexed_def idx1_def a_table_def public_only_def
        tenant_table_def tenant_objects_def empty_index_def run_defs)
  then have r: "?r = (fst ?r, Inr (projr (snd ?r)))"
    by (cases ?r) (auto simp: isl_iff)
  have o: "\<forall>u \<in> set ([a_table] @ []). filtered_out (cfg_schemaFilter public_only) (tbl_schema u)
      \<or> tableKey (tbl_schema u) (tbl_name u)
          \<noteq> tableKey (tbl_schema tenant_table) (tbl_name tenant_table)"
    by (simp add: input_defs plain_indexed_def idx1_def a_table_def public_only_def
        tenant_table_def tenant_objects_def empty_index_def tableKey_def nullish_def)
  from T [THEN conjunct2, rule_format, OF conjI [OF r o]]
  have "s_tables (projr (snd ?r)) (tableKey (tbl_schema tenant_table) (tbl_name tenant_table))
      = None" .
  then have "s_tables (projr (snd ?r)) ''tenant_a.orders'' = None"
    by (simp add: input_defs plain_indexed_def idx1_def a_table_def public_only_def
        tenant_table_def tenant_objects_def empty_index_def tableKey_def nullish_def)
  moreover have "isl (snd (drizzleObjectsToSnapshot example_helpers tenant_objects empty_config))"
    by (simp add: input_defs plain_indexed_def idx1_def a_table_def public_only_def
        tenant_table_def tenant_objects_def empty_index_def run_defs)
  ultimately show ?thesis using T [THEN conjunct1] ok by simp
qed

subsection \<open>The key and the schema of a table\<close>

text \<open>
  C10. In a snapshot, a table of the input that passes the schema filter, the last one of
  its key, is stored under the key made of its schema, \<^verbatim>\<open>public\<close> when it has none, a dot
  and its name. The schema of the stored entity is the empty text for a table without a
  schema, which differs from the prefix \<^verbatim>\<open>public\<close> of the key, and the schema of the table
  otherwise, which is the prefix of the key.
\<close>

theorem table_key_and_schema:
  assumes "drizzleObjectsToSnapshot h objs cfg = (log, Inr s)"
    and "do_tables objs = ts1 @ t # ts2"
    and "\<not> filtered_out (cfg_schemaFilter cfg) (tbl_schema t)"
    and "\<forall>u \<in> set ts2. filtered_out (cfg_schemaFilter cfg) (tbl_schema u)
          \<or> tableKey (tbl_schema u) (tbl_name u) \<noteq> tableKey (tbl_schema t) (tbl_name t)"
  shows "\<exists>e. s_tables s (tableKey (tbl_schema t) (tbl_name t)) = Some e
     \<and> st_name e = tbl_name t
     \<and> (tbl_schema t = None \<longrightarrow>
          tableKey (tbl_schema t) (tbl_name t) = ''public.'' @ tbl_name t \<and> st_schema e = [])
     \<and> (\<forall>sc. tbl_schema t = Some sc \<longrightarrow>
          tableKey (tbl_schema t) (tbl_name t) = sc @ ''.'' @ tbl_name t \<and> st_schema e = sc)"
proof -
  from conv_Inr_tables[OF assms(1)] obtain res reg ptr where
    l: "tables_loop h cfg (do_relations objs) (do_tables objs) (Map.empty, Map.empty) = Inr (res, reg)"
    and p: "policies_loop (do_policies objs) (res, Map.empty) = (log, Inr (s_tables s, ptr))"
    by blast
  from tables_loop_entry[OF l[unfolded assms(2)] assms(3,4)] obtain e where
    e: "res (tableKey (tbl_schema t) (tbl_name t)) = Some e" "st_name e = tbl_name t"
       "st_schema e = nullish (tbl_schema t) []"
    by blast
  from policies_loop_Inr[of "do_policies objs" "(res, Map.empty)" "(s_tables s, ptr)"] p
  have "entries_kept res (s_tables s)" by simp
  from entries_kept_Some[OF this e(1)] obtain e' where
    e': "s_tables s (tableKey (tbl_schema t) (tbl_name t)) = Some e'" "st_name e' = st_name e"
       "st_schema e' = st_schema e"
    by blast
  with e show ?thesis
    by (auto simp: tableKey_def nullish_def)
qed

theorem table_key_and_schema_witness:
  "(\<exists>e. s_tables
          (projr (snd (drizzleObjectsToSnapshot example_helpers users_and_sessions empty_config)))
          ''public.users'' = Some e
        \<and> st_name e = ''users'' \<and> st_schema e = [])
   \<and> (\<exists>e. s_tables
          (projr (snd (drizzleObjectsToSnapshot example_helpers users_and_sessions empty_config)))
          ''auth.sessions'' = Some e
        \<and> st_name e = ''sessions'' \<and> st_schema e = ''auth'')"
proof -
  let ?r = "drizzleObjectsToSnapshot example_helpers users_and_sessions empty_config"
  have "\<not> isl (snd ?r)"
    by (simp add: input_defs auth_table_def users_and_sessions_def run_defs)
  then have r: "?r = (fst ?r, Inr (projr (snd ?r)))"
    by (cases ?r) (auto simp: isl_iff)
  have h1: "do_tables users_and_sessions = [] @ empty_table # [auth_table]"
    and h2: "do_tables users_and_sessions = [empty_table] @ auth_table # []"
    by (simp_all add: input_defs auth_table_def users_and_sessions_def)
  have nf1: "\<not> filtered_out (cfg_schemaFilter empty_config) (tbl_schema empty_table)"
    and nf2: "\<not> filtered_out (cfg_schemaFilter empty_config) (tbl_schema auth_table)"
    by (simp_all add: input_defs auth_table_def users_and_sessions_def filtered_out_def)
  have l1: "\<forall>u \<in> set [auth_table]. filtered_out (cfg_schemaFilter empty_config) (tbl_schema u)
      \<or> tableKey (tbl_schema u) (tbl_name u)
          \<noteq> tableKey (tbl_schema empty_table) (tbl_name empty_table)"
    and l2: "\<forall>u \<in> set []. filtered_out (cfg_schemaFilter empty_config) (tbl_schema u)
      \<or> tableKey (tbl_schema u) (tbl_name u)
          \<noteq> tableKey (tbl_schema auth_table) (tbl_name auth_table)"
    by (simp_all add: input_defs auth_table_def users_and_sessions_def tableKey_def nullish_def)
  from table_key_and_schema [OF r h1 nf1 l1] table_key_and_schema [OF r h2 nf2 l2]
  show ?thesis
    by (simp add: input_defs auth_table_def users_and_sessions_def tableKey_def nullish_def)
qed

end
